(* ===== verification/Prelude.thy ===== *)
theory Prelude
  imports Main "HOL-Library.Sublist"
begin

text \<open>
  Shared vocabulary of the development: results with errors as values, and the part of
  Python's built-in string type that the node runtime uses.

  A Python \<^verbatim>\<open>str\<close> is modelled as a HOL \<^typ>\<open>string\<close>, i.e. a list of code
  points below 256 (Latin-1); the character classes below are those Python assigns to these
  code points.  Every operation of \<^verbatim>\<open>str\<close> used under \<^verbatim>\<open>src/\<close> is an executable
  function here, and the lemmas are the facts the component theories share.
\<close>

named_theorems wp_simps \<open>weakest-precondition rules of the effect combinators\<close>
named_theorems py_str \<open>facts on Python string operations\<close>

section \<open>Results: errors as values\<close>

definition sbind :: "'e + 'a \<Rightarrow> ('a \<Rightarrow> 'e + 'b) \<Rightarrow> 'e + 'b" where
  "sbind r f = (case r of Inl e \<Rightarrow> Inl e | Inr a \<Rightarrow> f a)"

text \<open>Run a fallible function over a list, left to right, stopping at the first error.\<close>

fun smap :: "('a \<Rightarrow> 'e + 'b) \<Rightarrow> 'a list \<Rightarrow> 'e + 'b list" where
  "smap f [] = Inr []"
| "smap f (x # xs) = sbind (f x) (\<lambda>y. sbind (smap f xs) (\<lambda>ys. Inr (y # ys)))"

section \<open>Dictionaries with insertion order\<close>

text \<open>\<^verbatim>\<open>d[k] = v\<close>: an existing key keeps its position, a new one goes to the end.\<close>

fun dict_set :: "'k \<Rightarrow> 'v \<Rightarrow> ('k \<times> 'v) list \<Rightarrow> ('k \<times> 'v) list" where
  "dict_set k v [] = [(k, v)]"
| "dict_set k v ((k', v') # d) = (if k' = k then (k, v) # d else (k', v') # dict_set k v d)"

definition dict_merge :: "('k \<times> 'v) list \<Rightarrow> ('k \<times> 'v) list \<Rightarrow> ('k \<times> 'v) list" where
  "dict_merge d e = foldl (\<lambda>d (k, v). dict_set k v d) d e"

section \<open>Character classes and string operations\<close>

abbreviation (input) code :: "char \<Rightarrow> nat" where
  "code c \<equiv> of_char c"

definition isspace :: "char \<Rightarrow> bool" where
  "isspace c \<longleftrightarrow> (let n = code c in 9 \<le> n \<and> n \<le> 13 \<or> 28 \<le> n \<and> n \<le> 32 \<or> n = 133 \<or> n = 160)"

definition isdigit :: "char \<Rightarrow> bool" where
  "isdigit c \<longleftrightarrow> 48 \<le> code c \<and> code c \<le> 57"

text \<open>The class \<^verbatim>\<open>\w\<close> of Python's \<^verbatim>\<open>re\<close> on \<^verbatim>\<open>str\<close> patterns.\<close>

definition isword :: "char \<Rightarrow> bool" where
  "isword c \<longleftrightarrow> (let n = code c in
     48 \<le> n \<and> n \<le> 57 \<or> 65 \<le> n \<and> n \<le> 90 \<or> 97 \<le> n \<and> n \<le> 122 \<or> n = 95
     \<or> n = 170 \<or> n = 178 \<or> n = 179 \<or> n = 181 \<or> n = 185 \<or> n = 186
     \<or> 188 \<le> n \<and> n \<le> 190 \<or> 192 \<le> n \<and> n \<le> 214 \<or> 216 \<le> n \<and> n \<le> 246 \<or> 248 \<le> n)"

text \<open>Line boundaries of \<^verbatim>\<open>str.splitlines\<close>.\<close>

definition islinebreak :: "char \<Rightarrow> bool" where
  "islinebreak c \<longleftrightarrow> (let n = code c in 10 \<le> n \<and> n \<le> 13 \<or> 28 \<le> n \<and> n \<le> 30 \<or> n = 133)"

definition char_lower :: "char \<Rightarrow> char" where
  "char_lower c = (let n = code c in
     if 65 \<le> n \<and> n \<le> 90 \<or> 192 \<le> n \<and> n \<le> 222 \<and> n \<noteq> 215 then char_of (n + 32) else c)"

definition lower :: "string \<Rightarrow> string" where
  "lower s = map char_lower s"

definition lstrip :: "string \<Rightarrow> string" where
  "lstrip s = dropWhile isspace s"

definition rstrip :: "string \<Rightarrow> string" where
  "rstrip s = rev (dropWhile isspace (rev s))"

definition strip :: "string \<Rightarrow> string" where
  "strip s = rstrip (lstrip s)"

definition startswith :: "string \<Rightarrow> string \<Rightarrow> bool" where
  "startswith s p \<longleftrightarrow> take (length p) s = p"

text \<open>\<^verbatim>\<open>sub in s\<close> for strings.\<close>

fun str_in :: "string \<Rightarrow> string \<Rightarrow> bool" where
  "str_in sub [] \<longleftrightarrow> sub = []"
| "str_in sub (c # cs) \<longleftrightarrow> startswith (c # cs) sub \<or> str_in sub cs"

text \<open>\<^verbatim>\<open>str.splitlines()\<close>; a carriage return followed by a newline is one boundary.\<close>

function splitlines :: "string \<Rightarrow> string list" where
  "splitlines [] = []"
| "splitlines (c # cs) =
     (if code c = 13 \<and> cs \<noteq> [] \<and> code (hd cs) = 10 then [] # splitlines (tl cs)
      else if islinebreak c then [] # splitlines cs
      else (case splitlines cs of [] \<Rightarrow> [[c]] | l # ls \<Rightarrow> (c # l) # ls))"
  by pat_completeness auto
termination
  by (relation "measure length") auto

text \<open>\<^verbatim>\<open>s.split(sep)\<close> for a one-character separator, and \<^verbatim>\<open>s.split()\<close>.\<close>

fun split_on :: "char \<Rightarrow> string \<Rightarrow> string list" where
  "split_on sep [] = [[]]"
| "split_on sep (c # cs) =
     (if c = sep then [] # split_on sep cs
      else (case split_on sep cs of [] \<Rightarrow> [[c]] | l # ls \<Rightarrow> (c # l) # ls))"

function split_ws :: "string \<Rightarrow> string list" where
  "split_ws s =
     (let t = lstrip s
      in if t = [] then []
         else takeWhile (\<lambda>c. \<not> isspace c) t # split_ws (dropWhile (\<lambda>c. \<not> isspace c) t))"
  by pat_completeness auto
termination
proof (relation "measure length", goal_cases)
  case 1
  show ?case by simp
next
  case (2 s t)
  then obtain c cs where t: "t = c # cs" by (metis neq_Nil_conv)
  with 2 have "\<not> isspace c"
    by (metis hd_dropWhile list.sel(1) list.simps(3) lstrip_def)
  then have "length (dropWhile (\<lambda>c. \<not> isspace c) t) \<le> length cs"
    by (simp add: t length_dropWhile_le)
  also have "\<dots> < length s"
    using 2 t by (metis length_Cons length_dropWhile_le less_le_trans lessI lstrip_def)
  finally show ?case by simp
qed

declare split_ws.simps [simp del]

fun join :: "string \<Rightarrow> string list \<Rightarrow> string" where
  "join sep [] = []"
| "join sep [x] = x"
| "join sep (x # y # ys) = x @ sep @ join sep (y # ys)"

section \<open>Decimal numerals\<close>

definition digit_char :: "nat \<Rightarrow> char" where
  "digit_char d = char_of (48 + d)"

definition digit_val :: "char \<Rightarrow> nat" where
  "digit_val c = code c - 48"

text \<open>\<^verbatim>\<open>str(n)\<close> for a non-negative integer, and for any integer.\<close>

fun show_nat :: "nat \<Rightarrow> string" where
  "show_nat n = (if n < 10 then [digit_char n] else show_nat (n div 10) @ [digit_char (n mod 10)])"

declare show_nat.simps [simp del]

definition show_int :: "int \<Rightarrow> string" where
  "show_int i = (if i < 0 then CHR ''-'' # show_nat (nat (- i)) else show_nat (nat i))"

definition nat_of_digits :: "string \<Rightarrow> nat" where
  "nat_of_digits s = foldl (\<lambda>n c. 10 * n + digit_val c) 0 s"

text \<open>
  \<^verbatim>\<open>int(s)\<close>: surrounding white space, an optional sign, digits with single underscores
  between them, and at most 4300 digits (the interpreter's default limit); \<open>None\<close> stands
  for the \<^verbatim>\<open>ValueError\<close>.
\<close>

fun digits_grouped :: "string \<Rightarrow> bool" where
  "digits_grouped [] \<longleftrightarrow> False"
| "digits_grouped [c] \<longleftrightarrow> isdigit c"
| "digits_grouped (c # d # cs) \<longleftrightarrow>
     isdigit c \<and> (if d = CHR ''_'' then digits_grouped cs else digits_grouped (d # cs))"

definition py_int_digits :: "string \<Rightarrow> nat option" where
  "py_int_digits s =
     (let ds = filter (\<lambda>c. c \<noteq> CHR ''_'') s
      in if digits_grouped s \<and> length ds \<le> 4300 then Some (nat_of_digits ds) else None)"

definition py_int :: "string \<Rightarrow> int option" where
  "py_int s =
     (case strip s of
        [] \<Rightarrow> None
      | c # cs \<Rightarrow>
          if c = CHR ''-'' then map_option (\<lambda>n. - int n) (py_int_digits cs)
          else if c = CHR ''+'' then map_option int (py_int_digits cs)
          else map_option int (py_int_digits (c # cs)))"

section \<open>Lemmas\<close>

lemma sbind_Inr [simp]: "sbind (Inr a) f = f a"
  by (simp add: sbind_def)

lemma sbind_Inl [simp]: "sbind (Inl e) f = Inl e"
  by (simp add: sbind_def)

lemma sbind_eq_Inr: "sbind r f = Inr b \<longleftrightarrow> (\<exists>a. r = Inr a \<and> f a = Inr b)"
  by (cases r) auto

lemma sbind_eq_Inl: "sbind r f = Inl e \<longleftrightarrow> r = Inl e \<or> (\<exists>a. r = Inr a \<and> f a = Inl e)"
  by (cases r) auto

lemma smap_eq_Inr: "smap f xs = Inr ys \<longleftrightarrow> list_all2 (\<lambda>x y. f x = Inr y) xs ys"
proof (induction xs arbitrary: ys)
  case Nil
  then show ?case by auto
next
  case (Cons x xs)
  then show ?case by (cases ys) (auto simp: sbind_eq_Inr)
qed

lemma smap_append:
  "smap f (xs @ ys) = sbind (smap f xs) (\<lambda>as. sbind (smap f ys) (\<lambda>bs. Inr (as @ bs)))"
proof (induction xs)
  case Nil
  then show ?case by (cases "smap f ys") auto
next
  case (Cons x xs)
  then show ?case
    by (cases "f x"; cases "smap f xs"; cases "smap f ys") auto
qed

lemma smap_all_Inr: "(\<And>x. x \<in> set xs \<Longrightarrow> f x = Inr (g x)) \<Longrightarrow> smap f xs = Inr (map g xs)"
  by (induction xs) auto

lemma map_of_dict_set: "map_of (dict_set k v d) = (map_of d)(k \<mapsto> v)"
  by (induction d) auto

lemma startswith_iff [py_str]: "startswith s p \<longleftrightarrow> (\<exists>t. s = p @ t)"
  by (metis append_eq_conv_conj append_take_drop_id startswith_def)

lemma str_in_iff [py_str]: "str_in sub s \<longleftrightarrow> (\<exists>a b. s = a @ sub @ b)"
proof (induction s)
  case Nil
  then show ?case by auto
next
  case (Cons c cs)
  have "(\<exists>a b. c # cs = a @ sub @ b) \<longleftrightarrow>
        (\<exists>b. c # cs = sub @ b) \<or> (\<exists>a b. cs = a @ sub @ b)"
    by (metis append_Nil append_eq_Cons_conv)
  then show ?case by (simp add: Cons startswith_iff)
qed

lemma islinebreak_isspace: "islinebreak c \<Longrightarrow> isspace c"
  by (auto simp: islinebreak_def isspace_def Let_def)

lemma isdigit_not_space: "isdigit c \<Longrightarrow> \<not> isspace c"
  by (auto simp: isdigit_def isspace_def Let_def)

lemma isdigit_isword: "isdigit c \<Longrightarrow> isword c"
  by (auto simp: isdigit_def isword_def Let_def)

lemma isword_not_space: "isword c \<Longrightarrow> \<not> isspace c"
  by (auto simp: isword_def isspace_def Let_def)

lemma lstrip_id: "s = [] \<or> \<not> isspace (hd s) \<Longrightarrow> lstrip s = s"
  by (cases s) (auto simp: lstrip_def)

lemma rstrip_id: "s = [] \<or> \<not> isspace (last s) \<Longrightarrow> rstrip s = s"
  by (cases s rule: rev_cases) (auto simp: rstrip_def)

lemma strip_id:
  "s = [] \<or> \<not> isspace (hd s) \<and> \<not> isspace (last s) \<Longrightarrow> strip s = s"
  by (auto simp: strip_def lstrip_id rstrip_id)

lemma rstrip_prefix: "\<exists>w. s = rstrip s @ w \<and> (\<forall>c \<in> set w. isspace c)"
proof -
  have "rev s = takeWhile isspace (rev s) @ dropWhile isspace (rev s)" by simp
  then have "s = rstrip s @ rev (takeWhile isspace (rev s))"
    unfolding rstrip_def by (metis rev_append rev_rev_ident)
  moreover have "\<forall>c \<in> set (rev (takeWhile isspace (rev s))). isspace c"
    by (auto dest: set_takeWhileD)
  ultimately show ?thesis by blast
qed

lemma lstrip_suffix: "\<exists>w. s = w @ lstrip s \<and> (\<forall>c \<in> set w. isspace c)"
proof -
  have "s = takeWhile isspace s @ lstrip s" by (simp add: lstrip_def)
  moreover have "\<forall>c \<in> set (takeWhile isspace s). isspace c" by (auto dest: set_takeWhileD)
  ultimately show ?thesis by blast
qed

lemma splitlines_no_break:
  "s \<noteq> [] \<Longrightarrow> \<forall>c \<in> set s. \<not> islinebreak c \<Longrightarrow> splitlines s = [s]"
proof (induction s)
  case Nil
  then show ?case by simp
next
  case (Cons c cs)
  have "\<not> code c = 13"
    using Cons.prems by (auto simp: islinebreak_def Let_def)
  with Cons show ?case by (cases cs) auto
qed

lemma splitlines_line:
  "\<forall>c \<in> set l. \<not> islinebreak c \<Longrightarrow> splitlines (l @ CHR 0x0A # r) = l # splitlines r"
proof (induction l)
  case Nil
  then show ?case by (simp add: islinebreak_def)
next
  case (Cons c cs)
  have "code c \<noteq> 13" using Cons.prems by (auto simp: islinebreak_def Let_def)
  with Cons show ?case by auto
qed

lemma splitlines_join_lines:
  "\<forall>l \<in> set ls. \<forall>c \<in> set l. \<not> islinebreak c \<Longrightarrow> ls \<noteq> [] \<Longrightarrow>
   splitlines (join [CHR 0x0A] ls @ [CHR 0x0A]) = ls"
proof (induction "[CHR 0x0A]" ls rule: join.induct)
  case 1
  then show ?case by simp
next
  case (2 x)
  then show ?case by (simp add: splitlines_line)
next
  case (3 x y ys)
  then show ?case by (simp add: splitlines_line)
qed

lemma split_on_no_sep: "sep \<notin> set s \<Longrightarrow> split_on sep s = [s]"
  by (induction s) auto

lemma split_on_sep: "sep \<notin> set l \<Longrightarrow> split_on sep (l @ sep # r) = l # split_on sep r"
  by (induction l) auto

lemma set_join: "set (join sep xs) \<subseteq> set sep \<union> \<Union> (set ` set xs)"
  by (induction sep xs rule: join.induct) auto

lemma join_Cons: "xs \<noteq> [] \<Longrightarrow> join sep (x # xs) = x @ sep @ join sep xs"
  by (cases xs) auto

lemma code_digit_char: "d < 10 \<Longrightarrow> code (digit_char d) = 48 + d"
  by (simp add: digit_char_def)

lemma digit_char_numeral [simp]:
  "digit_char 0 = CHR ''0''" "digit_char (Suc 0) = CHR ''1''" "digit_char 1 = CHR ''1''"
  "digit_char 2 = CHR ''2''" "digit_char 3 = CHR ''3''" "digit_char 4 = CHR ''4''"
  "digit_char 5 = CHR ''5''" "digit_char 6 = CHR ''6''" "digit_char 7 = CHR ''7''"
  "digit_char 8 = CHR ''8''" "digit_char 9 = CHR ''9''"
  by code_simp+

lemma digit_val_char: "d < 10 \<Longrightarrow> digit_val (digit_char d) = d"
  by (simp add: digit_val_def code_digit_char)

lemma isdigit_digit_char: "d < 10 \<Longrightarrow> isdigit (digit_char d)"
  by (simp add: isdigit_def code_digit_char)

lemma show_nat_digits: "c \<in> set (show_nat n) \<Longrightarrow> isdigit c"
proof (induction n rule: show_nat.induct)
  case (1 n)
  then show ?case
    by (subst (asm) show_nat.simps) (auto simp: isdigit_digit_char split: if_splits)
qed

lemma show_nat_nonempty [simp]: "show_nat n \<noteq> []"
  by (subst show_nat.simps) simp

lemma nat_of_digits_snoc: "nat_of_digits (s @ [c]) = 10 * nat_of_digits s + digit_val c"
  by (simp add: nat_of_digits_def)

lemma nat_of_digits_show_nat [simp]: "nat_of_digits (show_nat n) = n"
proof (induction n rule: show_nat.induct)
  case (1 n)
  show ?case
  proof (cases "n < 10")
    case True
    then show ?thesis
      by (subst show_nat.simps) (simp add: nat_of_digits_def digit_val_char)
  next
    case False
    then show ?thesis
      by (subst show_nat.simps) (simp add: nat_of_digits_snoc 1 digit_val_char)
  qed
qed

section \<open>Lines and trailing white space\<close>

lemma splitlines_not_cr: "\<not> islinebreak c \<Longrightarrow> code c \<noteq> 13"
  by (auto simp: islinebreak_def Let_def)

lemma splitlines_set: "l \<in> set (splitlines s) \<Longrightarrow> set l \<subseteq> set s"
proof (induction s arbitrary: l rule: splitlines.induct)
  case (2 c cs)
  show ?case
  proof (cases "code c = 13 \<and> cs \<noteq> [] \<and> code (hd cs) = 10")
    case True
    then show ?thesis using 2 by (cases cs) auto
  next
    case ncr: False
    have IH: "x \<in> set cs" if "m \<in> set (splitlines cs)" "x \<in> set m" for m x
      using 2(2,3) [OF ncr] that by blast
    show ?thesis
      using 2(4) ncr by (cases "splitlines cs") (auto intro: IH split: if_splits)
  qed
qed simp

text \<open>A line break after text that does not itself end in one starts a new line.\<close>

lemma splitlines_append_nl:
  assumes "q = [] \<or> \<not> islinebreak (last q)"
  shows "splitlines (q @ CHR 0x0A # r) = (if q = [] then [[]] else splitlines q) @ splitlines r"
  using assms
proof (induction q rule: splitlines.induct)
  case 1
  show ?case by (simp add: islinebreak_def)
next
  case (2 c cs)
  show ?case
  proof (cases "code c = 13 \<and> cs \<noteq> [] \<and> code (hd cs) = 10")
    case True
    then have "tl cs \<noteq> []" using 2(4) by (cases cs) (auto simp: islinebreak_def split: if_splits)
    then show ?thesis using 2(1) [OF True] 2(4) True by (cases cs) auto
  next
    case False
    show ?thesis
    proof (cases "cs = []")
      case True
      then have "\<not> islinebreak c" using 2(4) by simp
      then show ?thesis using True splitlines_not_cr by (simp add: islinebreak_def)
    next
      case ne: False
      then have IH: "splitlines (cs @ CHR 0x0A # r) = splitlines cs @ splitlines r"
        using 2(2,3) [OF False] 2(4) by (cases "islinebreak c") auto
      have "splitlines cs \<noteq> []" using ne by (cases cs) (auto split: list.split)
      then show ?thesis using IH False ne by (auto split: list.split)
    qed
  qed
qed

lemma splitlines_trailing_space:
  assumes "q \<noteq> []" and "\<not> isspace (last q)" and "\<forall>c \<in> set w. isspace c"
  shows "\<exists>ls l u rest. splitlines q = ls @ [l] \<and> splitlines (q @ w) = ls @ [l @ u] @ rest \<and> (\<forall>c \<in> set u. isspace c)"
  using assms(1,2)
proof (induction q rule: splitlines.induct)
  case (2 c cs)
  show ?case
  proof (cases "code c = 13 \<and> cs \<noteq> [] \<and> code (hd cs) = 10")
    case True
    then obtain d ds where cs: "cs = d # ds" "code d = 10" by (cases cs) auto
    then have "isspace d" by (simp add: isspace_def Let_def)
    then have ne: "ds \<noteq> []" using 2(5) cs by auto
    then obtain ls l u rest where "splitlines ds = ls @ [l]" "splitlines (ds @ w) = ls @ [l @ u] @ rest"
      "\<forall>c \<in> set u. isspace c"
      using 2(1) [OF True] 2(5) cs by auto
    then show ?thesis using True cs
      by (intro exI [of _ "[] # ls"] exI [of _ l] exI [of _ u] exI [of _ rest]) auto
  next
    case ncr: False
    show ?thesis
    proof (cases "cs = []")
      case True
      then have "\<not> islinebreak c" using 2(5) islinebreak_isspace by auto
      moreover have "set l \<subseteq> set w" if "l \<in> set (splitlines w)" for l using splitlines_set that .
      ultimately show ?thesis using True splitlines_not_cr assms(3)
        by (cases "splitlines w") (fastforce intro: exI [of _ "[]"])+
    next
      case ne: False
      obtain ls l u rest where IH: "splitlines cs = ls @ [l]" "splitlines (cs @ w) = ls @ [l @ u] @ rest"
        "\<forall>c \<in> set u. isspace c"
        using 2(2,3) [OF ncr] 2(5) ne by (cases "islinebreak c") auto
      show ?thesis
      proof (cases "islinebreak c")
        case True
        then show ?thesis using IH ncr ne
          by (intro exI [of _ "[] # ls"] exI [of _ l] exI [of _ u] exI [of _ rest]) auto
      next
        case False
        then show ?thesis using IH ncr ne
          by (cases ls) (auto intro: exI [of _ "[]"])
      qed
    qed
  qed
qed simp

lemma digits_grouped_all: "s \<noteq> [] \<Longrightarrow> \<forall>c \<in> set s. isdigit c \<Longrightarrow> digits_grouped s"
  by (induction s rule: digits_grouped.induct) (auto simp: isdigit_def)

lemma show_nat_length: "n < 10 ^ Suc k \<Longrightarrow> length (show_nat n) \<le> Suc k"
proof (induction k arbitrary: n)
  case 0
  then show ?case by (subst show_nat.simps) simp
next
  case (Suc k)
  show ?case
  proof (cases "n < 10")
    case False
    have "n div 10 < 10 ^ Suc k" using Suc.prems by (simp add: less_mult_imp_div_less)
    then show ?thesis using Suc.IH False by (simp add: show_nat.simps [of n])
  qed (simp add: show_nat.simps [of n])
qed

lemma py_int_digits_show_nat:
  assumes "length (show_nat n) \<le> 4300"
  shows "py_int_digits (show_nat n) = Some n"
proof -
  have d: "\<forall>c \<in> set (show_nat n). isdigit c" using show_nat_digits by blast
  have "filter (\<lambda>c. c \<noteq> CHR ''_'') (show_nat n) = show_nat n"
    using d by (intro filter_True) (auto simp: isdigit_def)
  then show ?thesis using digits_grouped_all [OF show_nat_nonempty d] assms by (simp add: py_int_digits_def Let_def)
qed

text \<open>A number written in decimal, with white space around it, is read back.\<close>

lemma py_int_show_nat:
  assumes "length (show_nat n) \<le> 4300" and "\<forall>c \<in> set w. isspace c"
  shows "py_int (show_nat n @ w) = Some (int n)"
proof -
  have d: "\<forall>c \<in> set (show_nat n). isdigit c" using show_nat_digits by blast
  obtain c cs where c: "show_nat n = c # cs" using show_nat_nonempty by (meson neq_Nil_conv)
  have ns: "\<not> isspace c" "\<not> isspace (last (show_nat n))"
    using d c isdigit_not_space last_in_set [OF show_nat_nonempty] by auto
  have "lstrip (show_nat n @ w) = show_nat n @ w" using ns c by (intro lstrip_id) simp
  moreover have "rstrip (show_nat n @ w) = show_nat n"
    using assms(2) ns(2) rstrip_id [of "show_nat n"] unfolding rstrip_def rev_append by (subst dropWhile_append2) auto
  ultimately have s: "strip (show_nat n @ w) = c # cs" by (simp add: strip_def c)
  have "c \<noteq> CHR ''-''" "c \<noteq> CHR ''+''" using d c by (auto simp: isdigit_def)
  then show ?thesis using py_int_digits_show_nat [OF assms(1)] unfolding py_int_def s by (simp add: c)
qed

text \<open>The decimal digits of an integer, for evaluation: binary integers instead of unary naturals.\<close>

function show_pos :: "int \<Rightarrow> string" where
  "show_pos m = (if m < 10 then [digit_char (nat m)] else show_pos (m div 10) @ [digit_char (nat (m mod 10))])"
  by pat_completeness auto
termination
  by (relation "measure nat") (auto simp: int_div_less_self)

declare show_pos.simps [simp del]

lemma show_nat_nat [code_unfold]: "show_nat (nat m) = show_pos m"
proof (induction m rule: show_pos.induct)
  case (1 m)
  show ?case
  proof (cases "m < 10")
    case True
    then show ?thesis by (subst show_nat.simps, subst show_pos.simps) auto
  next
    case False
    then have m: "nat m div 10 = nat (m div 10)" "nat m mod 10 = nat (m mod 10)" and big: "\<not> nat m < 10"
      by (simp_all add: nat_div_distrib nat_mod_distrib)
    have "show_nat (nat m) = show_nat (nat (m div 10)) @ [digit_char (nat (m mod 10))]"
      unfolding show_nat.simps [of "nat m"] if_not_P [OF big] m ..
    also have "\<dots> = show_pos m"
      unfolding 1 [OF False] show_pos.simps [of m] if_not_P [OF False] ..
    finally show ?thesis .
  qed
qed

section \<open>Encoders and decoders\<close>

text \<open>
  The contract shared by every pair of a printer and a reader of the program: what was encoded is
  read back, for the values the component calls well formed.
\<close>

locale codec =
  fixes enc :: "'a \<Rightarrow> 'b" and dec :: "'b \<Rightarrow> 'e + 'a" and ok :: "'a \<Rightarrow> bool"
  assumes dec_enc: "ok x \<Longrightarrow> dec (enc x) = Inr x"
begin

lemma enc_inject: "ok x \<Longrightarrow> ok y \<Longrightarrow> enc x = enc y \<longleftrightarrow> x = y"
  by (metis dec_enc sum.inject(2))

lemma dec_through:
  assumes "\<And>z. z = enc x \<Longrightarrow> read (print z) = Some z" and "ok x"
  shows "(case read (print (enc x)) of None \<Rightarrow> Inl e | Some r \<Rightarrow> dec r) = Inr x"
  using assms dec_enc by simp

end

end
