(* ===== verification/PyFloat.thy ===== *)
theory PyFloat
  imports Prelude Complex_Main
begin

text \<open>
  Python's \<^verbatim>\<open>float\<close> as the runtime uses it (gate parameters): binary64 values given by
  their exact rational value, rounding to nearest-even, the formatting
  \<^verbatim>\<open>f"{value:.15g}"\<close>, the parser \<^verbatim>\<open>float(text)\<close> and \<^verbatim>\<open>math.isclose\<close>.
  All of it is executable; the lemmas give the shape of the formatted text, which the OpenQASM
  theories need.
\<close>

section \<open>Values and rounding\<close>

datatype pyfloat = Finite rat | NegZero | Inf bool | NaN

definition bpow :: "nat \<Rightarrow> int \<Rightarrow> rat" where
  "bpow b e = (if 0 \<le> e then of_nat b ^ nat e else 1 / of_nat b ^ nat (- e))"

text \<open>
  The number of digits of a positive integer in base \<open>b\<close>, and the integer part of the
  logarithm to base \<open>b\<close> of a positive rational.
\<close>

function digit_count :: "int \<Rightarrow> int \<Rightarrow> int" where
  "digit_count b n = (if b < 2 \<or> n < b then 1 else 1 + digit_count b (n div b))"
  by pat_completeness auto
termination
  by (relation "measure (\<lambda>(b, n). nat n)") (auto simp: int_div_less_self)

declare digit_count.simps [simp del]

definition flog :: "nat \<Rightarrow> rat \<Rightarrow> int" where
  "flog b x =
     (let (p, q) = quotient_of x;
          e = digit_count (int b) p - digit_count (int b) q
      in if bpow b e \<le> x then e else e - 1)"

definition round_half_even :: "rat \<Rightarrow> int" where
  "round_half_even x =
     (let f = \<lfloor>x\<rfloor>; d = x - of_int f
      in if d < 1 / 2 then f else if d > 1 / 2 then f + 1 else if even f then f else f + 1)"

definition round_double :: "rat \<Rightarrow> pyfloat" where
  "round_double x =
     (if x = 0 then Finite 0
      else let a = \<bar>x\<bar>;
               e = max (flog 2 a - 52) (- 1074);
               v = of_int (round_half_even (a / bpow 2 e)) * bpow 2 e
           in if 2 ^ 1024 \<le> v then Inf (x < 0)
              else if v = 0 then (if x < 0 then NegZero else Finite 0)
              else Finite (if x < 0 then - v else v))"

section \<open>Formatting with fifteen significant digits\<close>

definition strip_zeros :: "string \<Rightarrow> string" where
  "strip_zeros s = rev (dropWhile (\<lambda>c. c = CHR ''0'') (rev s))"

definition point :: "string \<Rightarrow> string" where
  "point fp = (if fp = [] then [] else CHR ''.'' # fp)"

text \<open>The exponent of the scientific form: a sign and at least two digits.\<close>

definition show_exp :: "int \<Rightarrow> string" where
  "show_exp e =
     (let n = nat \<bar>e\<bar>
      in CHR ''e'' # (if e < 0 then CHR ''-'' else CHR ''+'') #
         (if n < 10 then CHR ''0'' # show_nat n else show_nat n))"

text \<open>Fifteen significant digits \<open>m\<close> and the decimal exponent \<open>e\<close> of the first one.\<close>

definition decimal15 :: "rat \<Rightarrow> int \<times> int" where
  "decimal15 a =
     (let e = flog 10 a; m = round_half_even (a / bpow 10 (e - 14))
      in if m = 10 ^ 15 then (10 ^ 14, e + 1) else (m, e))"

definition format_digits :: "string \<Rightarrow> int \<Rightarrow> string" where
  "format_digits ds e =
     (if e < - 4 \<or> 15 \<le> e then
        take 1 ds @ point (strip_zeros (drop 1 ds)) @ show_exp e
      else if 0 \<le> e then
        take (nat e + 1) ds @ point (strip_zeros (drop (nat e + 1) ds))
      else CHR ''0'' # point (strip_zeros (replicate (nat (- e) - 1) (CHR ''0'') @ ds)))"

fun format_float :: "pyfloat \<Rightarrow> string" where
  "format_float NaN = ''nan''"
| "format_float (Inf neg) = (if neg then ''-inf'' else ''inf'')"
| "format_float NegZero = ''-0''"
| "format_float (Finite x) =
     (if x = 0 then ''0''
      else let (m, e) = decimal15 \<bar>x\<bar>
           in (if x < 0 then ''-'' else []) @ format_digits (show_nat (nat m)) e)"

section \<open>Parsing\<close>

definition int_of_digits :: "string \<Rightarrow> int" where
  "int_of_digits s = foldl (\<lambda>n c. 10 * n + int (digit_val c)) 0 s"

text \<open>
  \<^verbatim>\<open>float(text)\<close>: white space around, an optional sign, \<^verbatim>\<open>inf\<close>, \<^verbatim>\<open>infinity\<close> or
  \<^verbatim>\<open>nan\<close> in any case, or a decimal literal with underscores between digits.  \<open>None\<close> is
  the \<^verbatim>\<open>ValueError\<close>.
\<close>

definition digits_opt :: "string \<Rightarrow> string option" where
  "digits_opt s = (if s = [] then Some [] else if digits_grouped s
     then Some (filter (\<lambda>c. c \<noteq> CHR ''_'') s) else None)"

definition parse_exponent :: "string \<Rightarrow> int option" where
  "parse_exponent s =
     (case s of
        [] \<Rightarrow> None
      | c # cs \<Rightarrow>
          if c = CHR ''-'' then (if digits_grouped cs then map_option (\<lambda>d. - int_of_digits d) (digits_opt cs) else None)
          else if c = CHR ''+'' then (if digits_grouped cs then map_option (\<lambda>d. int_of_digits d) (digits_opt cs) else None)
          else if digits_grouped s then map_option (\<lambda>d. int_of_digits d) (digits_opt s) else None)"

definition parse_mantissa :: "string \<Rightarrow> (string \<times> string) option" where
  "parse_mantissa s =
     (let ip = takeWhile (\<lambda>c. c \<noteq> CHR ''.'') s;
          fp = drop 1 (dropWhile (\<lambda>c. c \<noteq> CHR ''.'') s)
      in case (digits_opt ip, digits_opt fp) of
           (Some i, Some f) \<Rightarrow> if i = [] \<and> f = [] then None else Some (i, f)
         | _ \<Rightarrow> None)"

definition parse_decimal :: "string \<Rightarrow> rat option" where
  "parse_decimal s =
     (let is_e = (\<lambda>c. c = CHR ''e'' \<or> c = CHR ''E'');
          man = takeWhile (\<lambda>c. \<not> is_e c) s;
          ex = dropWhile (\<lambda>c. \<not> is_e c) s
      in case (parse_mantissa man, if ex = [] then Some 0 else parse_exponent (drop 1 ex)) of
           (Some (i, f), Some e) \<Rightarrow>
             Some (of_int (int_of_digits (i @ f)) * bpow 10 (e - int (length f)))
         | _ \<Rightarrow> None)"

definition parse_unsigned :: "bool \<Rightarrow> string \<Rightarrow> pyfloat option" where
  "parse_unsigned neg s =
     (if lower s = ''inf'' \<or> lower s = ''infinity'' then Some (Inf neg)
      else if lower s = ''nan'' then Some NaN
      else case parse_decimal s of
             None \<Rightarrow> None
           | Some x \<Rightarrow> Some (if neg then (if x = 0 then NegZero else round_double (- x)) else round_double x))"

definition py_float :: "string \<Rightarrow> pyfloat option" where
  "py_float s =
     (case strip s of
        [] \<Rightarrow> None
      | c # cs \<Rightarrow>
          if c = CHR ''-'' then parse_unsigned True cs
          else if c = CHR ''+'' then parse_unsigned False cs
          else parse_unsigned False (c # cs))"

section \<open>Arithmetic and closeness\<close>

fun float_val :: "pyfloat \<Rightarrow> rat option" where
  "float_val (Finite x) = Some x"
| "float_val NegZero = Some 0"
| "float_val _ = None"

text \<open>
  \<^verbatim>\<open>math.isclose(a, b, rel_tol=rel, abs_tol=tol)\<close> for finite tolerances: the difference and
  the products are rounded to binary64 before they are compared.
\<close>

definition le_float :: "pyfloat \<Rightarrow> pyfloat \<Rightarrow> bool" where
  "le_float a b =
     (case (a, b) of
        (NaN, _) \<Rightarrow> False | (_, NaN) \<Rightarrow> False
      | (Inf neg, Inf neg') \<Rightarrow> neg \<or> \<not> neg'
      | (Inf neg, _) \<Rightarrow> neg
      | (_, Inf neg) \<Rightarrow> \<not> neg
      | _ \<Rightarrow> the (float_val a) \<le> the (float_val b))"

definition isclose :: "rat \<Rightarrow> rat \<Rightarrow> pyfloat \<Rightarrow> pyfloat \<Rightarrow> bool" where
  "isclose rel tol a b =
     (case (float_val a, float_val b) of
        (Some x, Some y) \<Rightarrow>
          x = y \<or>
          (let diff = round_double \<bar>y - x\<bar>
           in le_float diff (round_double \<bar>rel * y\<bar>)
              \<or> le_float diff (round_double \<bar>rel * x\<bar>)
              \<or> le_float diff (Finite tol))
      | _ \<Rightarrow> a = b \<and> a \<noteq> NaN)"

section \<open>The shape of formatted text\<close>

definition float_char :: "char \<Rightarrow> bool" where
  "float_char c \<longleftrightarrow> isdigit c \<or> c \<in> set ''.e+-infa''"

lemma set_strip_zeros: "set (strip_zeros s) \<subseteq> set s"
  unfolding strip_zeros_def by (metis set_dropWhileD set_rev subsetI)

lemma set_point: "set (point s) \<subseteq> insert (CHR ''.'') (set s)"
  by (simp add: point_def subset_insertI)

lemma set_show_exp: "c \<in> set (show_exp e) \<Longrightarrow> isdigit c \<or> c \<in> set ''e+-''"
  by (auto simp: show_exp_def Let_def isdigit_def dest: show_nat_digits split: if_splits)

lemma set_format_digits:
  "c \<in> set (format_digits ds e) \<Longrightarrow> c \<in> set ds \<or> isdigit c \<or> c \<in> set ''.e+-''"
proof -
  have zero: "isdigit (CHR ''0'')" by (simp add: isdigit_def)
  have d: "set (point (strip_zeros s)) \<subseteq> insert (CHR ''.'') (set s)" for s
    using set_point set_strip_zeros by fastforce
  assume c: "c \<in> set (format_digits ds e)"
  consider (sci) "e < - 4 \<or> 15 \<le> e" | (pos) "\<not> (e < - 4 \<or> 15 \<le> e)" "0 \<le> e"
    | (neg) "\<not> (e < - 4 \<or> 15 \<le> e)" "\<not> 0 \<le> e" by blast
  then show ?thesis
  proof cases
    case sci
    then show ?thesis
      using c d [of "drop 1 ds"] set_show_exp [of c e]
      by (auto simp: format_digits_def dest!: in_set_takeD in_set_dropD)
  next
    case pos
    then show ?thesis
      using c d [of "drop (nat e + 1) ds"]
      by (auto simp: format_digits_def dest!: in_set_takeD in_set_dropD)
  next
    case neg
    then show ?thesis
      using c zero d [of "replicate (nat (- e) - 1) (CHR ''0'') @ ds"]
      by (auto simp: format_digits_def dest!: in_set_takeD in_set_dropD)
  qed
qed

lemma float_char_lits: "\<forall>c \<in> set ''naif0.e+-''. float_char c"
  by (simp add: float_char_def isdigit_def)

lemma format_float_chars: "c \<in> set (format_float v) \<Longrightarrow> float_char c"
proof (cases v)
  case (Finite x)
  obtain m e where me: "decimal15 \<bar>x\<bar> = (m, e)" by fastforce
  assume c: "c \<in> set (format_float v)"
  show ?thesis
  proof (cases "x = 0")
    case True
    with c Finite show ?thesis using float_char_lits by simp
  next
    case False
    with c Finite me have "c = CHR ''-'' \<or> c \<in> set (format_digits (show_nat (nat m)) e)"
      by (auto split: if_splits)
    then have "c \<in> set ''.e+-'' \<or> isdigit c"
      using set_format_digits show_nat_digits by force
    then show ?thesis by (elim disjE) (use float_char_lits in \<open>auto simp: float_char_def\<close>)
  qed
next
  case (Inf neg)
  then show "c \<in> set (format_float v) \<Longrightarrow> float_char c"
    using float_char_lits by (cases neg) auto
qed (use float_char_lits in auto)

lemma format_digits_nonempty: "ds \<noteq> [] \<Longrightarrow> format_digits ds e \<noteq> []"
  by (auto simp: format_digits_def take_Suc show_exp_def Let_def)

lemma format_float_nonempty [simp]: "format_float v \<noteq> []"
  by (cases v) (auto simp: format_digits_nonempty split: prod.splits)

lemma float_char_not_space: "float_char c \<Longrightarrow> \<not> isspace c"
  by (auto simp: float_char_def isspace_def isdigit_def Let_def)

lemma strip_format_float: "strip (format_float v) = format_float v"
  by (meson format_float_chars format_float_nonempty float_char_not_space last_in_set
      list.set_sel(1) strip_id)

end
