(* ===== verification/IR.thy ===== *)
theory IR
  imports PyFloat
begin

text \<open>
  The native-gate intermediate representation, \<^verbatim>\<open>server/ir.py\<close>: gates, the two tables
  \<^verbatim>\<open>GATE_SPECS\<close> and \<^verbatim>\<open>LEGAL_GATES\<close>, the model validators, and
  \<^verbatim>\<open>from_json\<close>/\<^verbatim>\<open>to_json\<close>.

  Pydantic itself is a parameter: \<open>decode\<close> stands for its JSON parser with the conversion of
  JSON scalars to the declared field types, \<open>encode\<close> for its JSON printer.  What the source
  adds to it (the enumeration, field bounds, defaults and validators) is defined here.  As
  pydantic does, the model collects the errors of all fields into one
  \<^verbatim>\<open>ValidationError\<close> (the list in \<open>Inl\<close>) and runs an ``after'' validator only when
  every field is valid.
\<close>

section \<open>Gates and tables\<close>

datatype native_gate = RX | RY | RZ | CZ | ISWAP | CP | ID | X90 | Y_MINUS_90 | VIRTUAL_Z | CNOT

fun gate_value :: "native_gate \<Rightarrow> string" where
  "gate_value RX = ''rx''"
| "gate_value RY = ''ry''"
| "gate_value RZ = ''rz''"
| "gate_value CZ = ''cz''"
| "gate_value ISWAP = ''iswap''"
| "gate_value CP = ''cp''"
| "gate_value ID = ''id''"
| "gate_value X90 = ''x90''"
| "gate_value Y_MINUS_90 = ''y_minus_90''"
| "gate_value VIRTUAL_Z = ''virtual_z''"
| "gate_value CNOT = ''cnot''"

definition all_gates :: "native_gate list" where
  "all_gates = [RX, RY, RZ, CZ, ISWAP, CP, ID, X90, Y_MINUS_90, VIRTUAL_Z, CNOT]"

text \<open>\<^verbatim>\<open>NativeGate(value)\<close>; \<open>None\<close> is the enumeration's \<^verbatim>\<open>ValueError\<close>.\<close>

definition native_gate_of :: "string \<Rightarrow> native_gate option" where
  "native_gate_of v = find (\<lambda>g. gate_value g = v) all_gates"

record gate_spec =
  spec_qubits :: nat
  spec_params :: nat

definition GATE_SPECS :: "(string \<times> gate_spec) list" where
  "GATE_SPECS =
    [(''rx'', \<lparr>spec_qubits = 1, spec_params = 1\<rparr>),
     (''ry'', \<lparr>spec_qubits = 1, spec_params = 1\<rparr>),
     (''rz'', \<lparr>spec_qubits = 1, spec_params = 1\<rparr>),
     (''cz'', \<lparr>spec_qubits = 2, spec_params = 0\<rparr>),
     (''iswap'', \<lparr>spec_qubits = 2, spec_params = 0\<rparr>),
     (''cp'', \<lparr>spec_qubits = 2, spec_params = 1\<rparr>),
     (''id'', \<lparr>spec_qubits = 1, spec_params = 1\<rparr>),
     (''x90'', \<lparr>spec_qubits = 1, spec_params = 0\<rparr>),
     (''y_minus_90'', \<lparr>spec_qubits = 1, spec_params = 0\<rparr>),
     (''virtual_z'', \<lparr>spec_qubits = 1, spec_params = 1\<rparr>),
     (''cnot'', \<lparr>spec_qubits = 2, spec_params = 0\<rparr>)]"

definition LEGAL_GATES :: "(string \<times> string list) list" where
  "LEGAL_GATES =
    [(''cz'', [''rx'', ''ry'', ''rz'', ''cz'', ''id'']),
     (''iswap'', [''rx'', ''ry'', ''rz'', ''iswap'', ''id'']),
     (''pcz'', [''rx'', ''ry'', ''rz'', ''cp'', ''id'']),
     (''cnot'', [''rx'', ''ry'', ''rz'', ''x90'', ''y_minus_90'', ''virtual_z'', ''cnot'', ''id''])]"

section \<open>Models and their validators\<close>

record gate_op =
  op_gate :: native_gate
  op_qubits :: "int list"
  op_params :: "pyfloat list"

record ir_metadata =
  source_hash :: string
  compiled_at :: string
  compiler_version :: string
  optimization_level :: int

record native_gate_ir =
  ir_version :: string
  ir_target :: string
  ir_num_qubits :: int
  ir_gates :: "gate_op list"
  ir_measurements :: "int list"
  ir_metadata :: ir_metadata

datatype ir_error =
    JsonInvalid
  | UnknownGate string
  | WrongQubitCount string nat nat
  | WrongParamCount string nat nat
  | BadVersion string
  | UnknownTarget string
  | NumQubitsOutOfBounds int
  | OptimizationLevelOutOfBounds int
  | IllegalGate string string nat
  | QubitOutOfRange int int nat
  | MeasurementOutOfRange int int

definition validate_gate_shape :: "gate_op \<Rightarrow> ir_error + gate_op" where
  "validate_gate_shape op =
     (let g = gate_value (op_gate op)
      in case map_of GATE_SPECS g of
           None \<Rightarrow> Inr op
         | Some sp \<Rightarrow>
             if length (op_qubits op) \<noteq> spec_qubits sp
             then Inl (WrongQubitCount g (spec_qubits sp) (length (op_qubits op)))
             else if length (op_params op) \<noteq> spec_params sp
             then Inl (WrongParamCount g (spec_params sp) (length (op_params op)))
             else Inr op)"

text \<open>The constructor call \<^verbatim>\<open>GateOp(gate=..., qubits=..., params=...)\<close>.\<close>

definition mk_GateOp :: "native_gate \<Rightarrow> int list \<Rightarrow> pyfloat list \<Rightarrow> ir_error + gate_op" where
  "mk_GateOp g qs ps = validate_gate_shape \<lparr>op_gate = g, op_qubits = qs, op_params = ps\<rparr>"

definition mk_IRMetadata :: "string \<Rightarrow> string \<Rightarrow> string option \<Rightarrow> int option \<Rightarrow> ir_error list + ir_metadata" where
  "mk_IRMetadata h ca ver lvl =
     (let l = (case lvl of None \<Rightarrow> 2 | Some l \<Rightarrow> l);
          v = (case ver of None \<Rightarrow> ''0.1.0'' | Some v \<Rightarrow> v)
      in if 0 \<le> l \<and> l \<le> 3
         then Inr \<lparr>source_hash = h, compiled_at = ca, compiler_version = v, optimization_level = l\<rparr>
         else Inl [OptimizationLevelOutOfBounds l])"

definition validate_target :: "string \<Rightarrow> ir_error + string" where
  "validate_target v = (if v \<in> fst ` set LEGAL_GATES then Inr v else Inl (UnknownTarget v))"

definition qubit_bad :: "int \<Rightarrow> int \<Rightarrow> bool" where
  "qubit_bad n q \<longleftrightarrow> q < 0 \<or> q \<ge> n"

fun check_gate_qubits :: "int \<Rightarrow> nat \<Rightarrow> int list \<Rightarrow> ir_error option" where
  "check_gate_qubits n i [] = None"
| "check_gate_qubits n i (q # qs) =
     (if qubit_bad n q then Some (QubitOutOfRange q n i) else check_gate_qubits n i qs)"

fun check_gates :: "string list \<Rightarrow> string \<Rightarrow> int \<Rightarrow> nat \<Rightarrow> gate_op list \<Rightarrow> ir_error option" where
  "check_gates legal t n i [] = None"
| "check_gates legal t n i (op # ops) =
     (if gate_value (op_gate op) \<notin> set legal
      then Some (IllegalGate (gate_value (op_gate op)) t i)
      else case check_gate_qubits n i (op_qubits op) of
             Some e \<Rightarrow> Some e
           | None \<Rightarrow> check_gates legal t n (Suc i) ops)"

fun check_measurements :: "int \<Rightarrow> int list \<Rightarrow> ir_error option" where
  "check_measurements n [] = None"
| "check_measurements n (q # qs) =
     (if qubit_bad n q then Some (MeasurementOutOfRange q n) else check_measurements n qs)"

text \<open>
  The ``after'' validator runs on a target that \<open>validate_target\<close> accepted, so the table
  lookup \<^verbatim>\<open>LEGAL_GATES[self.target]\<close> has an entry; without one it would be a
  \<^verbatim>\<open>KeyError\<close>, here the same error as the target's.
\<close>

definition validate_consistency :: "native_gate_ir \<Rightarrow> ir_error + native_gate_ir" where
  "validate_consistency ir =
     (case map_of LEGAL_GATES (ir_target ir) of
        None \<Rightarrow> Inl (UnknownTarget (ir_target ir))
      | Some legal \<Rightarrow>
          (case check_gates legal (ir_target ir) (ir_num_qubits ir) 0 (ir_gates ir) of
             Some e \<Rightarrow> Inl e
           | None \<Rightarrow>
               (case check_measurements (ir_num_qubits ir) (ir_measurements ir) of
                  Some e \<Rightarrow> Inl e
                | None \<Rightarrow> Inr ir)))"

definition ir_field_errors :: "native_gate_ir \<Rightarrow> ir_error list" where
  "ir_field_errors ir =
     (if ir_version ir = ''1.0'' then [] else [BadVersion (ir_version ir)]) @
     (case validate_target (ir_target ir) of Inl e \<Rightarrow> [e] | Inr _ \<Rightarrow> []) @
     (if 1 \<le> ir_num_qubits ir \<and> ir_num_qubits ir \<le> 50 then []
      else [NumQubitsOutOfBounds (ir_num_qubits ir)])"

text \<open>The constructor call \<^verbatim>\<open>NativeGateIR(...)\<close> on gates and metadata already built.\<close>

definition mk_NativeGateIR ::
  "string \<Rightarrow> string \<Rightarrow> int \<Rightarrow> gate_op list \<Rightarrow> int list \<Rightarrow> ir_metadata \<Rightarrow> ir_error list + native_gate_ir" where
  "mk_NativeGateIR v t n gs ms md =
     (let ir = \<lparr>ir_version = v, ir_target = t, ir_num_qubits = n, ir_gates = gs,
                ir_measurements = ms, ir_metadata = md\<rparr>
      in if ir_field_errors ir \<noteq> [] then Inl (ir_field_errors ir)
         else case validate_consistency ir of Inl e \<Rightarrow> Inl [e] | Inr ir' \<Rightarrow> Inr ir')"

section \<open>JSON\<close>

text \<open>
  What pydantic's decoder hands to the model: the declared fields with their scalar types, a
  field with a default possibly absent.
\<close>

record raw_gate =
  rg_gate :: string
  rg_qubits :: "int list"
  rg_params :: "pyfloat list option"

record raw_ir =
  r_version :: "string option"
  r_target :: string
  r_num_qubits :: int
  r_gates :: "raw_gate list"
  r_measurements :: "int list"
  r_source_hash :: string
  r_compiled_at :: string
  r_compiler_version :: "string option"
  r_optimization_level :: "int option"

definition build_gate :: "raw_gate \<Rightarrow> ir_error + gate_op" where
  "build_gate r =
     (case native_gate_of (rg_gate r) of
        None \<Rightarrow> Inl (UnknownGate (rg_gate r))
      | Some g \<Rightarrow> mk_GateOp g (rg_qubits r) (case rg_params r of None \<Rightarrow> [] | Some ps \<Rightarrow> ps))"

fun lefts :: "('e + 'a) list \<Rightarrow> 'e list" where
  "lefts [] = []"
| "lefts (Inl e # xs) = e # lefts xs"
| "lefts (Inr a # xs) = lefts xs"

fun rights :: "('e + 'a) list \<Rightarrow> 'a list" where
  "rights [] = []"
| "rights (Inl e # xs) = rights xs"
| "rights (Inr a # xs) = a # rights xs"

definition model_validate :: "raw_ir \<Rightarrow> ir_error list + native_gate_ir" where
  "model_validate r =
     (let gs = map build_gate (r_gates r);
          md = mk_IRMetadata (r_source_hash r) (r_compiled_at r) (r_compiler_version r)
                 (r_optimization_level r);
          v = (case r_version r of None \<Rightarrow> ''1.0'' | Some v \<Rightarrow> v);
          ir0 = \<lparr>ir_version = v, ir_target = r_target r, ir_num_qubits = r_num_qubits r,
                 ir_gates = rights gs, ir_measurements = r_measurements r,
                 ir_metadata = (case md of Inr m \<Rightarrow> m
                                | Inl _ \<Rightarrow> \<lparr>source_hash = [], compiled_at = [], compiler_version = [], optimization_level = 0\<rparr>)\<rparr>;
          errs = ir_field_errors ir0 @ lefts gs @ (case md of Inl es \<Rightarrow> es | Inr _ \<Rightarrow> [])
      in if errs \<noteq> [] then Inl errs
         else case validate_consistency ir0 of Inl e \<Rightarrow> Inl [e] | Inr ir' \<Rightarrow> Inr ir')"

definition from_json :: "(string \<Rightarrow> raw_ir option) \<Rightarrow> string \<Rightarrow> ir_error list + native_gate_ir" where
  "from_json decode s = (case decode s of None \<Rightarrow> Inl [JsonInvalid] | Some r \<Rightarrow> model_validate r)"

text \<open>The field values \<^verbatim>\<open>model_dump_json\<close> prints.\<close>

definition model_dump :: "native_gate_ir \<Rightarrow> raw_ir" where
  "model_dump ir =
     \<lparr>r_version = Some (ir_version ir), r_target = ir_target ir,
      r_num_qubits = ir_num_qubits ir,
      r_gates = map (\<lambda>op. \<lparr>rg_gate = gate_value (op_gate op), rg_qubits = op_qubits op,
                            rg_params = Some (op_params op)\<rparr>) (ir_gates ir),
      r_measurements = ir_measurements ir,
      r_source_hash = source_hash (ir_metadata ir),
      r_compiled_at = compiled_at (ir_metadata ir),
      r_compiler_version = Some (compiler_version (ir_metadata ir)),
      r_optimization_level = Some (optimization_level (ir_metadata ir))\<rparr>"

definition to_json :: "(raw_ir \<Rightarrow> string) \<Rightarrow> native_gate_ir \<Rightarrow> string" where
  "to_json encode ir = encode (model_dump ir)"

section \<open>Specification: well-formed circuits\<close>

definition gate_arity :: "native_gate \<Rightarrow> nat" where
  "gate_arity g = (if g \<in> {CZ, ISWAP, CP, CNOT} then 2 else 1)"

definition gate_nparams :: "native_gate \<Rightarrow> nat" where
  "gate_nparams g = (if g \<in> {RX, RY, RZ, CP, ID, VIRTUAL_Z} then 1 else 0)"

definition wf_op :: "gate_op \<Rightarrow> bool" where
  "wf_op op \<longleftrightarrow> length (op_qubits op) = gate_arity (op_gate op)
              \<and> length (op_params op) = gate_nparams (op_gate op)"

fun legal_for :: "string \<Rightarrow> native_gate set" where
  "legal_for t =
     (if t = ''cz'' then {RX, RY, RZ, CZ, ID}
      else if t = ''iswap'' then {RX, RY, RZ, ISWAP, ID}
      else if t = ''pcz'' then {RX, RY, RZ, CP, ID}
      else if t = ''cnot'' then {RX, RY, RZ, X90, Y_MINUS_90, VIRTUAL_Z, CNOT, ID}
      else {})"

definition ir_targets :: "string set" where
  "ir_targets = {''cz'', ''iswap'', ''pcz'', ''cnot''}"

definition consistent_ir :: "native_gate_ir \<Rightarrow> bool" where
  "consistent_ir ir \<longleftrightarrow>
     ir_version ir = ''1.0'' \<and> ir_target ir \<in> ir_targets
     \<and> 1 \<le> ir_num_qubits ir \<and> ir_num_qubits ir \<le> 50
     \<and> (\<forall>op \<in> set (ir_gates ir). op_gate op \<in> legal_for (ir_target ir)
          \<and> (\<forall>q \<in> set (op_qubits op). 0 \<le> q \<and> q < ir_num_qubits ir))
     \<and> (\<forall>q \<in> set (ir_measurements ir). 0 \<le> q \<and> q < ir_num_qubits ir)"

definition wf_ir :: "native_gate_ir \<Rightarrow> bool" where
  "wf_ir ir \<longleftrightarrow> consistent_ir ir \<and> (\<forall>op \<in> set (ir_gates ir). wf_op op)
     \<and> 0 \<le> optimization_level (ir_metadata ir) \<and> optimization_level (ir_metadata ir) \<le> 3"

section \<open>Lemmas\<close>

lemma native_gate_of_value [simp]: "native_gate_of (gate_value g) = Some g"
  by (cases g) (simp_all add: native_gate_of_def all_gates_def)

lemma native_gate_of_eq: "native_gate_of v = Some g \<longleftrightarrow> v = gate_value g"
proof
  assume "native_gate_of v = Some g"
  then show "v = gate_value g"
    unfolding native_gate_of_def by (auto simp: find_Some_iff)
qed simp

lemma GATE_SPECS_lookup:
  "map_of GATE_SPECS (gate_value g) = Some \<lparr>spec_qubits = gate_arity g, spec_params = gate_nparams g\<rparr>"
  by (cases g) (simp_all add: GATE_SPECS_def gate_arity_def gate_nparams_def)

lemma validate_gate_shape_iff: "validate_gate_shape op = Inr op' \<longleftrightarrow> op' = op \<and> wf_op op"
  by (auto simp: validate_gate_shape_def GATE_SPECS_lookup wf_op_def Let_def)

lemma mk_GateOp_iff:
  "mk_GateOp g qs ps = Inr op \<longleftrightarrow>
   op = \<lparr>op_gate = g, op_qubits = qs, op_params = ps\<rparr> \<and> wf_op op"
  by (auto simp: mk_GateOp_def validate_gate_shape_iff)

lemma check_gate_qubits_None:
  "check_gate_qubits n i qs = None \<longleftrightarrow> (\<forall>q \<in> set qs. 0 \<le> q \<and> q < n)"
  by (induction qs) (auto simp: qubit_bad_def)

lemma check_measurements_None:
  "check_measurements n qs = None \<longleftrightarrow> (\<forall>q \<in> set qs. 0 \<le> q \<and> q < n)"
  by (induction qs) (auto simp: qubit_bad_def)

lemma check_gates_None:
  "check_gates legal t n i ops = None \<longleftrightarrow>
   (\<forall>op \<in> set ops. gate_value (op_gate op) \<in> set legal \<and> (\<forall>q \<in> set (op_qubits op). 0 \<le> q \<and> q < n))"
proof (induction ops arbitrary: i)
  case (Cons op ops)
  show ?case
  proof (cases "check_gate_qubits n i (op_qubits op)")
    case None
    then have "\<forall>q \<in> set (op_qubits op). 0 \<le> q \<and> q < n" by (simp add: check_gate_qubits_None)
    with None show ?thesis by (simp add: Cons.IH)
  next
    case (Some e)
    then have "\<not> (\<forall>q \<in> set (op_qubits op). 0 \<le> q \<and> q < n)"
      by (metis check_gate_qubits_None option.distinct(1))
    with Some show ?thesis by simp
  qed
qed simp

lemma LEGAL_GATES_target: "t \<in> ir_targets \<longleftrightarrow> map_of LEGAL_GATES t \<noteq> None"
  by (simp add: LEGAL_GATES_def ir_targets_def)

lemma validate_target_iff: "validate_target t = Inr t' \<longleftrightarrow> t' = t \<and> t \<in> ir_targets"
proof -
  have "t \<in> fst ` set LEGAL_GATES \<longleftrightarrow> t \<in> ir_targets"
    by (simp add: LEGAL_GATES_target map_of_eq_None_iff)
  then show ?thesis by (auto simp: validate_target_def)
qed

lemma LEGAL_GATES_legal_for:
  assumes "map_of LEGAL_GATES t = Some legal"
  shows "gate_value g \<in> set legal \<longleftrightarrow> g \<in> legal_for t"
proof -
  have "t \<in> ir_targets" using assms by (simp add: LEGAL_GATES_target)
  then consider "t = ''cz''" | "t = ''iswap''" | "t = ''pcz''" | "t = ''cnot''"
    unfolding ir_targets_def by blast
  then show ?thesis
  proof cases
    case 1
    with assms have "legal = [''rx'', ''ry'', ''rz'', ''cz'', ''id'']" by (simp add: LEGAL_GATES_def)
    with 1 show ?thesis by (cases g) simp_all
  next
    case 2
    with assms have "legal = [''rx'', ''ry'', ''rz'', ''iswap'', ''id'']" by (simp add: LEGAL_GATES_def)
    with 2 show ?thesis by (cases g) simp_all
  next
    case 3
    with assms have "legal = [''rx'', ''ry'', ''rz'', ''cp'', ''id'']" by (simp add: LEGAL_GATES_def)
    with 3 show ?thesis by (cases g) simp_all
  next
    case 4
    with assms have "legal = [''rx'', ''ry'', ''rz'', ''x90'', ''y_minus_90'', ''virtual_z'', ''cnot'', ''id'']"
      by (simp add: LEGAL_GATES_def)
    with 4 show ?thesis by (cases g) simp_all
  qed
qed

declare legal_for.simps [simp del]

lemma ir_field_errors_Nil:
  "ir_field_errors ir = [] \<longleftrightarrow> ir_version ir = ''1.0'' \<and> ir_target ir \<in> ir_targets
     \<and> 1 \<le> ir_num_qubits ir \<and> ir_num_qubits ir \<le> 50"
proof (cases "validate_target (ir_target ir)")
  case (Inl e)
  then have "\<not> ir_target ir \<in> ir_targets"
    using validate_target_iff [of "ir_target ir" "ir_target ir"] by auto
  with Inl show ?thesis by (simp add: ir_field_errors_def)
next
  case (Inr t)
  then have "ir_target ir \<in> ir_targets"
    using validate_target_iff by blast
  with Inr show ?thesis by (auto simp: ir_field_errors_def)
qed

lemma validate_consistency_iff:
  assumes "ir_field_errors ir = []"
  shows "validate_consistency ir = Inr ir' \<longleftrightarrow> ir' = ir \<and> consistent_ir ir"
proof -
  obtain legal where l: "map_of LEGAL_GATES (ir_target ir) = Some legal"
    using assms by (auto simp: ir_field_errors_Nil LEGAL_GATES_target)
  have g: "check_gates legal (ir_target ir) (ir_num_qubits ir) 0 (ir_gates ir) = None \<longleftrightarrow>
      (\<forall>op \<in> set (ir_gates ir). op_gate op \<in> legal_for (ir_target ir)
         \<and> (\<forall>q \<in> set (op_qubits op). 0 \<le> q \<and> q < ir_num_qubits ir))"
    by (simp add: check_gates_None LEGAL_GATES_legal_for [OF l])
  have c: "consistent_ir ir \<longleftrightarrow>
      check_gates legal (ir_target ir) (ir_num_qubits ir) 0 (ir_gates ir) = None
      \<and> check_measurements (ir_num_qubits ir) (ir_measurements ir) = None"
    using assms unfolding consistent_ir_def g check_measurements_None ir_field_errors_Nil by blast
  show ?thesis
    unfolding c by (auto simp: validate_consistency_def l split: option.splits)
qed

lemma mk_NativeGateIR_iff:
  "mk_NativeGateIR v t n gs ms md = Inr ir \<longleftrightarrow>
   ir = \<lparr>ir_version = v, ir_target = t, ir_num_qubits = n, ir_gates = gs, ir_measurements = ms,
         ir_metadata = md\<rparr> \<and> consistent_ir ir"
  (is "_ \<longleftrightarrow> ir = ?ir \<and> _")
proof (cases "ir_field_errors ?ir = []")
  case True
  have "mk_NativeGateIR v t n gs ms md = Inr ir \<longleftrightarrow> validate_consistency ?ir = Inr ir"
    unfolding mk_NativeGateIR_def Let_def by (simp add: True split: sum.splits)
  then show ?thesis unfolding validate_consistency_iff [OF True] by (simp cong: conj_cong)
next
  case False
  then have "\<not> consistent_ir ?ir"
    unfolding ir_field_errors_Nil consistent_ir_def by blast
  with False show ?thesis unfolding mk_NativeGateIR_def Let_def by auto
qed

lemma lefts_Nil: "lefts xs = [] \<longleftrightarrow> (\<forall>x \<in> set xs. \<exists>a. x = Inr a)"
  by (induction xs rule: lefts.induct) auto

lemma rights_map_Inr: "(\<And>x. x \<in> set xs \<Longrightarrow> f x = Inr (g x)) \<Longrightarrow> rights (map f xs) = map g xs \<and> lefts (map f xs) = []"
  by (induction xs) auto

lemma set_rights: "a \<in> set (rights xs) \<longleftrightarrow> Inr a \<in> set xs"
  by (induction xs rule: rights.induct) auto

lemma mk_IRMetadata_Inr: "mk_IRMetadata h ca v l = Inr md \<Longrightarrow> 0 \<le> optimization_level md \<and> optimization_level md \<le> 3"
  by (auto simp: mk_IRMetadata_def Let_def split: if_splits)

lemma build_gate_wf: "build_gate r = Inr op \<Longrightarrow> wf_op op"
  by (auto simp: build_gate_def mk_GateOp_iff split: option.splits)

lemma model_validate_wf:
  assumes "model_validate r = Inr ir"
  shows "wf_ir ir"
proof -
  let ?gs = "map build_gate (r_gates r)"
  let ?md = "mk_IRMetadata (r_source_hash r) (r_compiled_at r) (r_compiler_version r) (r_optimization_level r)"
  from assms obtain m where m: "?md = Inr m" and l: "lefts ?gs = []"
    by (cases ?md) (auto simp: model_validate_def Let_def mk_IRMetadata_def split: if_splits sum.splits)
  let ?ir = "\<lparr>ir_version = (case r_version r of None \<Rightarrow> ''1.0'' | Some v \<Rightarrow> v), ir_target = r_target r,
      ir_num_qubits = r_num_qubits r, ir_gates = rights ?gs, ir_measurements = r_measurements r,
      ir_metadata = m\<rparr>"
  from assms m have f: "ir_field_errors ?ir = []"
    by (auto simp: model_validate_def Let_def split: if_splits)
  with assms m l have "validate_consistency ?ir = Inr ir"
    by (auto simp: model_validate_def Let_def split: if_splits sum.splits)
  with f have "ir = ?ir" "consistent_ir ir"
    using validate_consistency_iff [OF f] by auto
  then show ?thesis
    using mk_IRMetadata_Inr [OF m]
    by (auto simp: wf_ir_def set_rights intro: build_gate_wf [OF sym])
qed

lemma model_validate_dump:
  assumes "wf_ir ir"
  shows "model_validate (model_dump ir) = Inr ir"
proof -
  let ?gs = "map build_gate (r_gates (model_dump ir))"
  have "?gs = map Inr (ir_gates ir)"
    using assms by (auto simp: model_dump_def build_gate_def mk_GateOp_iff wf_ir_def)
  then have gs: "rights ?gs = ir_gates ir" "lefts ?gs = []"
    by (simp_all add: rights_map_Inr [where g = "\<lambda>x. x", simplified])
  have c: "consistent_ir ir" and f: "ir_field_errors ir = []"
    using assms by (auto simp: wf_ir_def ir_field_errors_Nil consistent_ir_def)
  have md: "mk_IRMetadata (r_source_hash (model_dump ir)) (r_compiled_at (model_dump ir))
      (r_compiler_version (model_dump ir)) (r_optimization_level (model_dump ir)) = Inr (ir_metadata ir)"
    using assms by (auto simp: mk_IRMetadata_def model_dump_def wf_ir_def)
  have "validate_consistency ir = Inr ir"
    using validate_consistency_iff [OF f] c by simp
  moreover have eq: "\<lparr>ir_version = ir_version ir, ir_target = ir_target ir,
      ir_num_qubits = ir_num_qubits ir, ir_gates = ir_gates ir,
      ir_measurements = ir_measurements ir, ir_metadata = ir_metadata ir\<rparr> = ir" by simp
  moreover have dump: "r_version (model_dump ir) = Some (ir_version ir)"
    "r_target (model_dump ir) = ir_target ir" "r_num_qubits (model_dump ir) = ir_num_qubits ir"
    "r_measurements (model_dump ir) = ir_measurements ir"
    by (simp_all add: model_dump_def)
  ultimately show ?thesis
    unfolding model_validate_def Let_def md gs dump option.case sum.case eq f by simp
qed

interpretation ir_codec: codec model_dump model_validate wf_ir
  by unfold_locales (rule model_validate_dump)

section \<open>Properties\<close>

text \<open>
  C20. Every circuit that \<^verbatim>\<open>NativeGateIR.from_json\<close> returns is well formed, whatever the
  JSON decoder produced: known target, one to fifty qubits, every gate legal for the target with
  the operand and parameter counts of its specification, every qubit and measurement index in
  range.
\<close>

theorem from_json_sound:
  assumes "from_json decode s = Inr ir"
  shows "wf_ir ir"
  using assms by (auto simp: from_json_def intro: model_validate_wf split: option.splits)

definition example_ir :: native_gate_ir where
  "example_ir = \<lparr>ir_version = ''1.0'', ir_target = ''cz'', ir_num_qubits = 2,
     ir_gates = [\<lparr>op_gate = CZ, op_qubits = [0, 1], op_params = []\<rparr>], ir_measurements = [0],
     ir_metadata = \<lparr>source_hash = ''h'', compiled_at = ''t'', compiler_version = ''0.1.0'', optimization_level = 2\<rparr>\<rparr>"

definition example_raw :: raw_ir where
  "example_raw = \<lparr>r_version = None, r_target = ''cz'',
        r_num_qubits = 2, r_gates = [\<lparr>rg_gate = ''cz'', rg_qubits = [0, 1], rg_params = None\<rparr>],
        r_measurements = [0], r_source_hash = ''h'', r_compiled_at = ''t'',
        r_compiler_version = None, r_optimization_level = None\<rparr>"

theorem from_json_sound_witness: "wf_ir example_ir"
  by (rule from_json_sound [where s = "[]" and decode = "\<lambda>_. Some example_raw"]) code_simp

text \<open>
  C22. The constructor \<^verbatim>\<open>NativeGateIR(...)\<close> accepts exactly the consistent circuits and returns
  the given fields unchanged: its chain of field checks and early-exit loops decides the declarative
  condition of legal gates and indices in range, no more and no less.
\<close>

theorem constructor_decides_consistency:
  "mk_NativeGateIR v t n gs ms md = Inr ir \<longleftrightarrow>
   ir = \<lparr>ir_version = v, ir_target = t, ir_num_qubits = n, ir_gates = gs, ir_measurements = ms,
         ir_metadata = md\<rparr> \<and> consistent_ir ir"
  by (rule mk_NativeGateIR_iff)

text \<open>Parameters are JSON numbers only when they are finite.\<close>

fun finite_float :: "pyfloat \<Rightarrow> bool" where
  "finite_float (Finite _) = True"
| "finite_float NegZero = True"
| "finite_float _ = False"

definition finite_raw :: "raw_ir \<Rightarrow> bool" where
  "finite_raw r \<longleftrightarrow> (\<forall>g \<in> set (r_gates r). \<forall>ps. rg_params g = Some ps \<longrightarrow> (\<forall>p \<in> set ps. finite_float p))"

text \<open>
  C21. A well-formed circuit with finite parameters survives \<^verbatim>\<open>to_json\<close> followed by
  \<^verbatim>\<open>from_json\<close> unchanged, for every JSON printer and reader that preserve field values with finite
  numbers.
\<close>

theorem json_roundtrip:
  assumes "wf_ir ir" and "\<forall>op \<in> set (ir_gates ir). \<forall>p \<in> set (op_params op). finite_float p"
    and "finite_raw (model_dump ir) \<Longrightarrow> decode (encode (model_dump ir)) = Some (model_dump ir)"
  shows "from_json decode (to_json encode ir) = Inr ir"
proof -
  have "finite_raw (model_dump ir)"
    using assms(2) by (auto simp: finite_raw_def model_dump_def)
  then show ?thesis
    unfolding from_json_def to_json_def using assms by (intro ir_codec.dec_through) auto
qed

theorem json_roundtrip_witness:
  "from_json (\<lambda>_. Some (model_dump example_ir)) (to_json (\<lambda>_. ''{}'') example_ir) = Inr example_ir"
proof (rule json_roundtrip)
  have "from_json (\<lambda>_. Some example_raw) [] = Inr example_ir" by code_simp
  then show "wf_ir example_ir" using model_validate_wf by (simp add: from_json_def)
qed (simp_all add: example_ir_def)

end
