(* ===== verification/Errors.thy ===== *)
theory Errors
  imports IR
begin

text \<open>
  The exception hierarchy of \<^verbatim>\<open>errors.py\<close> and the other exceptions the runtime's
  handlers distinguish: Redis, HTTP and task cancellation.  A raised exception is a value; which
  \<^verbatim>\<open>except\<close> clause catches it is a predicate on that value.
\<close>

datatype coda_error =
    ConfigError string
  | AuthError string
  | VPNError string
  | NodeError string
  | HeartbeatRejectedError string
  | ExecutorError string
  | WebhookError string

text \<open>
  \<open>ConnectionErr\<close> stands for \<^verbatim>\<open>ConnectionError\<close>, \<^verbatim>\<open>OSError\<close> and
  \<^verbatim>\<open>redis.ConnectionError\<close>, which every handler of the consumer treats alike;
  \<open>CancelledError\<close> is \<^verbatim>\<open>asyncio.CancelledError\<close>, which is not an \<^verbatim>\<open>Exception\<close>;
  \<open>OtherExc\<close> is any further \<^verbatim>\<open>Exception\<close>, with its message.
\<close>

datatype exc =
    ConnectionErr string
  | ResponseErr string
  | HTTPStatusErr nat string
  | TransportErr string
  | ValidationErr "ir_error list"
  | KeyErr string
  | ValueErr string
  | JobCancelledWhileExecuting
  | CancelledError
  | Coda coda_error
  | OtherExc string

definition is_Exception :: "exc \<Rightarrow> bool" where
  "is_Exception e \<longleftrightarrow> e \<noteq> CancelledError"

definition is_CodaError :: "exc \<Rightarrow> bool" where
  "is_CodaError e \<longleftrightarrow> (\<exists>c. e = Coda c)"

fun is_conn :: "exc \<Rightarrow> bool" where
  "is_conn (ConnectionErr _) = True"
| "is_conn _ = False"

lemma is_conn_iff: "is_conn e \<longleftrightarrow> (\<exists>m. e = ConnectionErr m)"
  by (cases e) auto

lemma is_Exception_simps [simp]:
  "\<not> is_Exception CancelledError" "is_Exception JobCancelledWhileExecuting"
  "is_Exception (ConnectionErr m)" "is_Exception (ResponseErr m)" "is_Exception (HTTPStatusErr n m)"
  "is_Exception (TransportErr m)" "is_Exception (ValidationErr es)" "is_Exception (KeyErr m)"
  "is_Exception (ValueErr m)" "is_Exception (Coda c)" "is_Exception (OtherExc m)"
  by (simp_all add: is_Exception_def)

end
