(* ===== verification/Effects.thy ===== *)
theory Effects
  imports Errors
begin

text \<open>
  Programs with state, exceptions and awaits.  A program maps a state to an outcome and a state;
  the outcome \<open>Stuck\<close> means that the coroutine is still suspended when the fuel of one of its
  unbounded loops is used up, so the state carries what it has done so far.  Exceptions and
  handlers follow Python: \<open>catch\<close> is \<^verbatim>\<open>try/except\<close>, \<open>finally\<close> is
  \<^verbatim>\<open>try/finally\<close>, and a suspended program runs no handler.

  The predicate \<open>wp\<close> is the weakest precondition of a postcondition on outcome and state;
  the collection \<open>wp_simps\<close> computes it through every combinator.
\<close>

datatype 'a outcome = Ret 'a | Raise exc | Stuck

type_synonym ('s, 'a) prog = "'s \<Rightarrow> 'a outcome \<times> 's"

definition ret :: "'a \<Rightarrow> ('s, 'a) prog" where
  "ret a = (\<lambda>s. (Ret a, s))"

definition raise :: "exc \<Rightarrow> ('s, 'a) prog" where
  "raise e = (\<lambda>s. (Raise e, s))"

definition stuck :: "('s, 'a) prog" where
  "stuck = (\<lambda>s. (Stuck, s))"

definition bind :: "('s, 'a) prog \<Rightarrow> ('a \<Rightarrow> ('s, 'b) prog) \<Rightarrow> ('s, 'b) prog" where
  "bind m f = (\<lambda>s. case m s of
     (Ret a, s') \<Rightarrow> f a s' | (Raise e, s') \<Rightarrow> (Raise e, s') | (Stuck, s') \<Rightarrow> (Stuck, s'))"

abbreviation (input) andThen :: "('s, 'a) prog \<Rightarrow> ('s, 'b) prog \<Rightarrow> ('s, 'b) prog" where
  "andThen m n \<equiv> bind m (\<lambda>_. n)"

text \<open>A handler answers \<open>None\<close> for an exception it does not catch.\<close>

definition catch :: "('s, 'a) prog \<Rightarrow> (exc \<Rightarrow> ('s, 'a) prog option) \<Rightarrow> ('s, 'a) prog" where
  "catch m h = (\<lambda>s. case m s of
     (Raise e, s') \<Rightarrow> (case h e of None \<Rightarrow> (Raise e, s') | Some n \<Rightarrow> n s')
   | (Ret a, s') \<Rightarrow> (Ret a, s')
   | (Stuck, s') \<Rightarrow> (Stuck, s'))"

definition finally_do :: "('s, 'a) prog \<Rightarrow> ('s, unit) prog \<Rightarrow> ('s, 'a) prog" where
  "finally_do m c = (\<lambda>s. case m s of
     (Stuck, s') \<Rightarrow> (Stuck, s')
   | (r, s') \<Rightarrow> (case c s' of
        (Ret _, s'') \<Rightarrow> (r, s'') | (Raise e, s'') \<Rightarrow> (Raise e, s'') | (Stuck, s'') \<Rightarrow> (Stuck, s'')))"

definition gets :: "('s \<Rightarrow> 'a) \<Rightarrow> ('s, 'a) prog" where
  "gets f = (\<lambda>s. (Ret (f s), s))"

definition modify :: "('s \<Rightarrow> 's) \<Rightarrow> ('s, unit) prog" where
  "modify f = (\<lambda>s. (Ret (), f s))"

definition of_sum :: "exc + 'a \<Rightarrow> ('s, 'a) prog" where
  "of_sum r = (case r of Inl e \<Rightarrow> raise e | Inr a \<Rightarrow> ret a)"

text \<open>A \<^verbatim>\<open>for\<close> loop over a list whose body only has effects.\<close>

fun for_each :: "'a list \<Rightarrow> ('a \<Rightarrow> ('s, unit) prog) \<Rightarrow> ('s, unit) prog" where
  "for_each [] f = ret ()"
| "for_each (x # xs) f = bind (f x) (\<lambda>_. for_each xs f)"

lemma ret_bind [simp]: "bind (ret a) f = f a"
  by (simp add: bind_def ret_def)

lemma bind_assoc: "bind (bind m f) g = bind m (\<lambda>a. bind (f a) g)"
  by (rule ext) (simp add: bind_def split: prod.split outcome.split)

section \<open>Weakest preconditions\<close>

definition wp :: "('s, 'a) prog \<Rightarrow> ('a outcome \<Rightarrow> 's \<Rightarrow> bool) \<Rightarrow> 's \<Rightarrow> bool" where
  "wp m Q s = (case m s of (r, s') \<Rightarrow> Q r s')"

lemma wp_ret [wp_simps]: "wp (ret a) Q s = Q (Ret a) s"
  by (simp add: wp_def ret_def)

lemma wp_raise [wp_simps]: "wp (raise e) Q s = Q (Raise e) s"
  by (simp add: wp_def raise_def)

lemma wp_stuck [wp_simps]: "wp stuck Q s = Q Stuck s"
  by (simp add: wp_def stuck_def)

lemma wp_bind [wp_simps]:
  "wp (bind m f) Q s =
   wp m (\<lambda>r s'. case r of Ret a \<Rightarrow> wp (f a) Q s' | Raise e \<Rightarrow> Q (Raise e) s' | Stuck \<Rightarrow> Q Stuck s') s"
  by (simp add: wp_def bind_def split: prod.split outcome.split)

lemma wp_catch [wp_simps]:
  "wp (catch m h) Q s =
   wp m (\<lambda>r s'. case r of Ret a \<Rightarrow> Q (Ret a) s'
      | Raise e \<Rightarrow> (case h e of None \<Rightarrow> Q (Raise e) s' | Some n \<Rightarrow> wp n Q s')
      | Stuck \<Rightarrow> Q Stuck s') s"
  by (simp add: wp_def catch_def split: prod.split outcome.split option.split)

lemma wp_finally [wp_simps]:
  "wp (finally_do m c) Q s =
   wp m (\<lambda>r s'. if r = Stuck then Q Stuck s'
      else wp c (\<lambda>r' s''. case r' of Ret _ \<Rightarrow> Q r s'' | Raise e \<Rightarrow> Q (Raise e) s'' | Stuck \<Rightarrow> Q Stuck s'') s') s"
  by (simp add: wp_def finally_do_def split: prod.split outcome.split)

lemma wp_gets [wp_simps]: "wp (gets f) Q s = Q (Ret (f s)) s"
  by (simp add: wp_def gets_def)

lemma wp_modify [wp_simps]: "wp (modify f) Q s = Q (Ret ()) (f s)"
  by (simp add: wp_def modify_def)

lemma wp_of_sum [wp_simps]:
  "wp (of_sum r) Q s = (case r of Inl e \<Rightarrow> Q (Raise e) s | Inr a \<Rightarrow> Q (Ret a) s)"
  by (simp add: wp_def of_sum_def raise_def ret_def split: sum.split)

lemma wp_if [wp_simps]: "wp (if b then m else n) Q s = (if b then wp m Q s else wp n Q s)"
  by simp

lemma wp_mono: "wp m Q s \<Longrightarrow> (\<And>r s'. Q r s' \<Longrightarrow> Q' r s') \<Longrightarrow> wp m Q' s"
  by (auto simp: wp_def)

lemma wp_run: "m s = (r, s') \<Longrightarrow> wp m Q s = Q r s'"
  by (simp add: wp_def)

lemma wpD: "wp m Q s \<Longrightarrow> m s = (r, s') \<Longrightarrow> Q r s'"
  by (simp add: wp_def)

lemma run_eq: "fst (m s) = r \<Longrightarrow> m s = (r, snd (m s))"
  by (simp add: prod_eq_iff)

lemma wp_conj: "wp m (\<lambda>r s'. P r s' \<and> Q r s') s \<longleftrightarrow> wp m P s \<and> wp m Q s"
  by (simp add: wp_def split: prod.split)

lemma wp_ext: "(\<And>Q. wp m Q s = wp n Q s) \<Longrightarrow> m s = n s"
  by (drule meta_spec [of _ "\<lambda>r s'. (r, s') = m s"]) (auto simp: wp_def split: prod.splits)

text \<open>A loop keeps what every execution of its body keeps, on every outcome.\<close>

lemma wp_for_each_inv:
  assumes "\<And>x s. x \<in> set xs \<Longrightarrow> I s \<Longrightarrow> wp (f x) (\<lambda>_. I) s"
  shows "I s \<Longrightarrow> wp (for_each xs f) (\<lambda>_. I) s"
  using assms
proof (induction xs arbitrary: s)
  case (Cons x xs)
  have IH: "wp (for_each xs f) (\<lambda>_. I) s'" if "I s'" for s'
    using that Cons.prems(2) by (intro Cons.IH) auto
  have "wp (f x) (\<lambda>_. I) s" using Cons.prems by simp
  then show ?case
    by (auto simp: wp_simps intro: IH elim!: wp_mono split: outcome.splits)
qed (simp add: wp_simps)

section \<open>Partial correctness\<close>

text \<open>\<open>rets m Q s\<close>: if \<open>m\<close> returns normally from \<open>s\<close>, the value and the final state satisfy \<open>Q\<close>.\<close>

definition rets :: "('s, 'a) prog \<Rightarrow> ('a \<Rightarrow> 's \<Rightarrow> bool) \<Rightarrow> 's \<Rightarrow> bool" where
  "rets m Q s \<longleftrightarrow> wp m (\<lambda>r s'. \<forall>a. r = Ret a \<longrightarrow> Q a s') s"

named_theorems rets_simps \<open>partial-correctness rules of the effect combinators\<close>

lemma rets_ret [rets_simps]: "rets (ret a) Q s = Q a s"
  by (simp add: rets_def wp_ret)

lemma rets_raise [rets_simps]: "rets (raise e) Q s"
  by (simp add: rets_def wp_raise)

lemma rets_stuck [rets_simps]: "rets stuck Q s"
  by (simp add: rets_def wp_stuck)

lemma rets_gets [rets_simps]: "rets (gets f) Q s = Q (f s) s"
  by (simp add: rets_def wp_gets)

lemma rets_modify [rets_simps]: "rets (modify f) Q s = Q () (f s)"
  by (simp add: rets_def wp_modify)

lemma rets_of_sum [rets_simps]: "rets (of_sum r) Q s = (\<forall>a. r = Inr a \<longrightarrow> Q a s)"
  by (cases r) (simp_all add: rets_def wp_of_sum)

lemma rets_bind [rets_simps]: "rets (bind m f) Q s = rets m (\<lambda>a s'. rets (f a) Q s') s"
  by (simp add: rets_def wp_def bind_def split: prod.split outcome.split)

lemma rets_if [rets_simps]: "rets (if b then m else n) Q s = (if b then rets m Q s else rets n Q s)"
  by simp

lemma rets_catch:
  assumes "rets m Q s" and "\<And>e n s'. h e = Some n \<Longrightarrow> rets n Q s'"
  shows "rets (catch m h) Q s"
proof -
  have h: "Q a s2" if "h e = Some n" "n s1 = (Ret a, s2)" for e n a s1 s2
    using assms(2) [OF that(1), of s1] that(2) by (simp add: rets_def wp_def)
  show ?thesis
    using assms(1) by (auto simp: rets_def wp_def catch_def intro: h split: prod.splits outcome.splits option.splits)
qed

lemma rets_mono: "rets m Q s \<Longrightarrow> (\<And>a s'. Q a s' \<Longrightarrow> Q' a s') \<Longrightarrow> rets m Q' s"
  by (auto simp: rets_def wp_def)

lemma rets_conj: "rets m P s \<Longrightarrow> rets m Q s \<Longrightarrow> rets m (\<lambda>a s'. P a s' \<and> Q a s') s"
  by (auto simp: rets_def wp_def split: prod.splits)

lemma rets_True [simp]: "rets m (\<lambda>_ _. True) s"
  by (simp add: rets_def wp_def split: prod.split)

lemma retsD: "rets m Q s \<Longrightarrow> m s = (Ret a, s') \<Longrightarrow> Q a s'"
  by (simp add: rets_def wp_def)

section \<open>Frames\<close>

text \<open>
  \<open>stays le m\<close>: whatever the outcome, \<open>m\<close> moves the state only along \<open>le\<close>.  For a preorder the
  property composes; equality of a part of the state makes it a frame condition, growth of a log a
  history condition.
\<close>

definition stays :: "('s \<Rightarrow> 's \<Rightarrow> bool) \<Rightarrow> ('s, 'a) prog \<Rightarrow> bool" where
  "stays le m \<longleftrightarrow> (\<forall>s. le s (snd (m s)))"

named_theorems stays_rules \<open>composition of frames\<close>

lemma staysD: "stays le m \<Longrightarrow> m s = (r, s') \<Longrightarrow> le s s'"
  by (metis stays_def snd_conv)

lemma stays_rets: "stays le m \<Longrightarrow> rets m (\<lambda>_ s'. le s s') s"
  by (auto simp: rets_def wp_def stays_def split: prod.split dest: spec [of _ s])

lemma stays_modify: "(\<And>s. le s (g s)) \<Longrightarrow> stays le (modify g)"
  by (simp add: stays_def modify_def)

lemma stays_if [stays_rules]: "(b \<Longrightarrow> stays le m) \<Longrightarrow> (\<not> b \<Longrightarrow> stays le n) \<Longrightarrow> stays le (if b then m else n)"
  by simp

lemma stays_case_option [stays_rules]:
  "stays le m \<Longrightarrow> (\<And>x. stays le (n x)) \<Longrightarrow> stays le (case v of None \<Rightarrow> m | Some x \<Rightarrow> n x)"
  by (cases v) simp_all

lemma stays_case_prod [stays_rules]: "(\<And>x y. stays le (m x y)) \<Longrightarrow> stays le (case p of (x, y) \<Rightarrow> m x y)"
  by (cases p) simp

locale step_order =
  fixes le :: "'s \<Rightarrow> 's \<Rightarrow> bool"
  assumes le_refl: "le s s" and le_trans: "le s s' \<Longrightarrow> le s' s'' \<Longrightarrow> le s s''"
begin

lemma stays_ret [stays_rules]: "stays le (ret a)"
  by (simp add: stays_def ret_def le_refl)

lemma stays_raise [stays_rules]: "stays le (raise e)"
  by (simp add: stays_def raise_def le_refl)

lemma stays_stuck [stays_rules]: "stays le stuck"
  by (simp add: stays_def stuck_def le_refl)

lemma stays_gets [stays_rules]: "stays le (gets g)"
  by (simp add: stays_def gets_def le_refl)

lemma stays_of_sum [stays_rules]: "stays le (of_sum r)"
  by (cases r) (simp_all add: stays_def of_sum_def raise_def ret_def le_refl)

lemma stays_bind [stays_rules]: "stays le m \<Longrightarrow> (\<And>a. stays le (n a)) \<Longrightarrow> stays le (bind m n)"
  unfolding stays_def bind_def by (auto split: prod.split outcome.split) (metis snd_conv le_trans)+

lemma stays_catch:
  "stays le m \<Longrightarrow> (\<And>e n. h e = Some n \<Longrightarrow> stays le n) \<Longrightarrow> stays le (catch m h)"
  unfolding stays_def catch_def
  by (auto split: prod.split outcome.split option.split) (metis snd_conv le_trans)+

end

section \<open>Ending\<close>

text \<open>\<open>ends I m\<close>: from no state that satisfies \<open>I\<close> is \<open>m\<close> left suspended, and \<open>I\<close> holds again at its end.\<close>

definition ends :: "('s \<Rightarrow> bool) \<Rightarrow> ('s, 'a) prog \<Rightarrow> bool" where
  "ends I m \<longleftrightarrow> (\<forall>s. I s \<longrightarrow> wp m (\<lambda>r s'. r \<noteq> Stuck \<and> I s') s)"

named_theorems ends_rules \<open>composition of programs that end\<close>

lemma endsI: "(\<And>s. I s \<Longrightarrow> wp m (\<lambda>r s'. r \<noteq> Stuck \<and> I s') s) \<Longrightarrow> ends I m"
  by (simp add: ends_def)

lemma endsD: "ends I m \<Longrightarrow> I s \<Longrightarrow> wp m (\<lambda>r s'. r \<noteq> Stuck \<and> I s') s"
  by (simp add: ends_def)

lemma ends_fst: "ends I m \<Longrightarrow> I s \<Longrightarrow> fst (m s) \<noteq> Stuck"
  by (simp add: ends_def wp_def split_beta)

lemma ends_basic [ends_rules]: "ends I (ret a)" "ends I (raise e)" "ends I (gets f)" "ends I (of_sum r)"
  by (rule endsI, simp add: wp_simps split: sum.split)+

lemma ends_modify: "(\<And>s. I s \<Longrightarrow> I (g s)) \<Longrightarrow> ends I (modify g)"
  by (rule endsI) (simp add: wp_simps)

lemma ends_bind [ends_rules]:
  assumes "ends I m" and "\<And>a. ends I (f a)"
  shows "ends I (bind m f)"
proof (rule endsI, unfold wp_bind)
  fix s assume "I s"
  show "wp m (\<lambda>r s'. case r of Ret a \<Rightarrow> wp (f a) (\<lambda>r s'. r \<noteq> Stuck \<and> I s') s'
      | Raise e \<Rightarrow> (Raise e :: 'c outcome) \<noteq> Stuck \<and> I s' | Stuck \<Rightarrow> (Stuck :: 'c outcome) \<noteq> Stuck \<and> I s') s"
    by (rule wp_mono [OF endsD [OF assms(1) \<open>I s\<close>]]) (auto intro: endsD [OF assms(2)] split: outcome.split)
qed

text \<open>The value a program returns, whatever the state.\<close>

definition yields :: "('a \<Rightarrow> bool) \<Rightarrow> ('s, 'a) prog \<Rightarrow> bool" where
  "yields P m \<longleftrightarrow> (\<forall>s. rets m (\<lambda>a _. P a) s)"

lemma yields_rules:
  "P a \<Longrightarrow> yields P (ret a)" "yields P (raise e)" "(\<And>b. yields P (k b)) \<Longrightarrow> yields P (bind n k)"
  "(b \<Longrightarrow> yields P m) \<Longrightarrow> (\<not> b \<Longrightarrow> yields P m') \<Longrightarrow> yields P (if b then m else m')"
  "(v = None \<Longrightarrow> yields P m) \<Longrightarrow> (\<And>x. v = Some x \<Longrightarrow> yields P (q x)) \<Longrightarrow> yields P (case v of None \<Rightarrow> m | Some x \<Rightarrow> q x)"
  "(\<And>e. yields P (l e)) \<Longrightarrow> (\<And>a. yields P (h a)) \<Longrightarrow> yields P (case r of Inl e \<Rightarrow> l e | Inr a \<Rightarrow> h a)"
  unfolding yields_def by (auto simp: rets_simps intro: rets_mono [OF rets_True] split: option.split sum.split)

lemma ends_bind_yields:
  assumes "ends I m" and "yields P m" and "\<And>a. P a \<Longrightarrow> ends I (f a)"
  shows "ends I (bind m f)"
proof (rule endsI)
  fix s assume "I s"
  then have "wp m (\<lambda>r s'. (r \<noteq> Stuck \<and> I s') \<and> (\<forall>a. r = Ret a \<longrightarrow> P a)) s"
    using assms(1,2) by (simp add: ends_def yields_def rets_def wp_conj)
  then show "wp (bind m f) (\<lambda>r s'. r \<noteq> Stuck \<and> I s') s"
    unfolding wp_bind by (rule wp_mono) (auto intro: endsD [OF assms(3)] split: outcome.split)
qed

lemma ends_catch [ends_rules]:
  assumes "ends I m" and "\<And>e n. h e = Some n \<Longrightarrow> ends I n"
  shows "ends I (catch m h)"
proof (rule endsI, unfold wp_catch)
  fix s assume "I s"
  show "wp m (\<lambda>r s'. case r of Ret a \<Rightarrow> (Ret a :: 'b outcome) \<noteq> Stuck \<and> I s'
      | Raise e \<Rightarrow> (case h e of None \<Rightarrow> (Raise e :: 'b outcome) \<noteq> Stuck \<and> I s' | Some n \<Rightarrow> wp n (\<lambda>r s'. r \<noteq> Stuck \<and> I s') s')
      | Stuck \<Rightarrow> (Stuck :: 'b outcome) \<noteq> Stuck \<and> I s') s"
    by (rule wp_mono [OF endsD [OF assms(1) \<open>I s\<close>]]) (auto intro: endsD [OF assms(2)] split: outcome.split option.split)
qed

lemma ends_finally [ends_rules]:
  assumes "ends I m" and "ends I c"
  shows "ends I (finally_do m c)"
proof (rule endsI, unfold wp_finally)
  fix s assume "I s"
  show "wp m (\<lambda>r s'. if r = Stuck then (Stuck :: 'b outcome) \<noteq> Stuck \<and> I s'
      else wp c (\<lambda>r' s''. case r' of Ret _ \<Rightarrow> r \<noteq> Stuck \<and> I s'' | Raise e \<Rightarrow> (Raise e :: 'b outcome) \<noteq> Stuck \<and> I s''
        | Stuck \<Rightarrow> (Stuck :: 'b outcome) \<noteq> Stuck \<and> I s'') s') s"
    by (rule wp_mono [OF endsD [OF assms(1) \<open>I s\<close>]]) (auto intro!: wp_mono [OF endsD [OF assms(2)]] split: outcome.split)
qed

lemma ends_if [ends_rules]: "(b \<Longrightarrow> ends I m) \<Longrightarrow> (\<not> b \<Longrightarrow> ends I n) \<Longrightarrow> ends I (if b then m else n)"
  by simp

lemma ends_case [ends_rules]:
  "ends I m \<Longrightarrow> (\<And>x. v = Some x \<Longrightarrow> ends I (n x)) \<Longrightarrow> ends I (case v of None \<Rightarrow> m | Some x \<Rightarrow> n x)"
  "(\<And>x y. ends I (k x y)) \<Longrightarrow> ends I (case p of (x, y) \<Rightarrow> k x y)"
  "(\<And>e. ends I (l e)) \<Longrightarrow> (\<And>a. ends I (q a)) \<Longrightarrow> ends I (case r of Inl e \<Rightarrow> l e | Inr a \<Rightarrow> q a)"
  by (auto split: option.split prod.split sum.split)

lemma ends_for_each [ends_rules]: "(\<And>x. ends I (f x)) \<Longrightarrow> ends I (for_each xs f)"
  by (induction xs) (auto intro: ends_rules)

end
