(* ===== verification/Executor.thy ===== *)
theory Executor
  imports Errors
begin

text \<open>
  Execution backends: \<^verbatim>\<open>server/executor.py\<close> and \<^verbatim>\<open>server/device_topology.py\<close>.
  Python objects reached through \<^verbatim>\<open>importlib\<close> are values of a type \<open>'x\<close>; what
  the interpreter says about them (attributes, callability, the result of a call, the installed
  packages) is the record \<open>pyenv\<close>, an argument of the loader.
\<close>

section \<open>Results and the fallback executor\<close>

record exec_result =
  counts :: "(string \<times> int) list"
  execution_time_ms :: pyfloat
  shots_completed :: int

definition noop_run :: "native_gate_ir \<Rightarrow> int \<Rightarrow> exec_result" where
  "noop_run ir shots =
     (let bitstring = replicate (length (ir_measurements ir)) (CHR ''0'')
      in \<lparr>counts = [(bitstring, shots)], execution_time_ms = Finite 0, shots_completed = shots\<rparr>)"

section \<open>Loading\<close>

text \<open>
  \<open>SpecCaught\<close> is a \<^verbatim>\<open>ModuleNotFoundError\<close> or \<^verbatim>\<open>ValueError\<close> of
  \<^verbatim>\<open>importlib.util.find_spec\<close>, \<open>SpecRaise\<close> any other exception.
\<close>

datatype spec_reply = SpecFound | SpecNone | SpecCaught | SpecRaise exc

record 'x pyenv =
  import_module :: "string \<Rightarrow> exc + unit"
  get_attr :: "string \<Rightarrow> string \<Rightarrow> exc + 'x"
  get_attr_opt :: "string \<Rightarrow> string \<Rightarrow> 'x option"
  has_run :: "'x \<Rightarrow> bool"
  is_callable :: "'x \<Rightarrow> bool"
  signature_params :: "'x \<Rightarrow> exc + nat"
  call_settings :: "'x \<Rightarrow> exc + 'x"
  call_plain :: "'x \<Rightarrow> exc + 'x"
  packages :: "string list option"
  find_spec :: "string \<Rightarrow> spec_reply"
  noop_executor :: 'x

text \<open>\<^verbatim>\<open>str.partition(":")\<close>.\<close>

definition partition_colon :: "string \<Rightarrow> string \<times> string \<times> string" where
  "partition_colon s =
     (let a = takeWhile (\<lambda>c. c \<noteq> CHR '':'') s; r = dropWhile (\<lambda>c. c \<noteq> CHR '':'') s
      in (a, take 1 r, drop 1 r))"

definition load_attr :: "'x pyenv \<Rightarrow> string \<Rightarrow> exc + 'x" where
  "load_attr E import_path =
     (case partition_colon import_path of
        (module_name, sep, attr_name) \<Rightarrow>
          if sep = [] \<or> module_name = [] \<or> attr_name = []
          then Inl (Coda (ExecutorError (''CODA_EXECUTOR_FACTORY must look like '' @ [CHR 0x27] @ ''package.module:factory_name'' @ [CHR 0x27])))
          else sbind (import_module E module_name) (\<lambda>_. get_attr E module_name attr_name))"

definition instantiate_factory :: "'x pyenv \<Rightarrow> string \<Rightarrow> exc + 'x" where
  "instantiate_factory E import_path =
     sbind (load_attr E import_path) (\<lambda>t.
       if has_run E t then Inr t
       else if \<not> is_callable E t
       then Inl (Coda (ExecutorError (''Executor target '' @ import_path @ '' is not callable'')))
       else sbind (signature_params E t) (\<lambda>n.
            sbind (if n \<noteq> 0 then call_settings E t else call_plain E t) (\<lambda>x.
              if \<not> has_run E x
              then Inl (Coda (ExecutorError (''Executor factory '' @ import_path @ '' did not return a runner'')))
              else Inr x)))"

definition skip_package :: "string \<Rightarrow> bool" where
  "skip_package pkg \<longleftrightarrow> CHR ''.'' \<in> set pkg \<or> startswith pkg ''_'' \<or> pkg = ''coda_node''"

text \<open>One iteration of the scan: the candidate it appends, if any.\<close>

definition scan_package :: "'x pyenv \<Rightarrow> string \<Rightarrow> exc + string list" where
  "scan_package E pkg =
     (if skip_package pkg then Inr []
      else let module_name = pkg @ ''.executor_factory''
           in case find_spec E module_name of
                SpecRaise e \<Rightarrow> Inl e
              | SpecCaught \<Rightarrow> Inr []
              | SpecNone \<Rightarrow> Inr []
              | SpecFound \<Rightarrow>
                  (case import_module E module_name of
                     Inl e \<Rightarrow> if is_Exception e then Inr [] else Inl e
                   | Inr _ \<Rightarrow>
                       (case get_attr_opt E module_name ''create_executor'' of
                          None \<Rightarrow> Inr []
                        | Some f \<Rightarrow> if is_callable E f then Inr [module_name @ '':create_executor''] else Inr [])))"

definition discover_executor_factories :: "'x pyenv \<Rightarrow> exc + string list" where
  "discover_executor_factories E =
     (case packages E of
        None \<Rightarrow> Inr []
      | Some pkgs \<Rightarrow> sbind (smap (scan_package E) pkgs) (\<lambda>cs. Inr (concat cs)))"

definition load_executor :: "'x pyenv \<Rightarrow> string \<Rightarrow> exc + 'x" where
  "load_executor E executor_factory =
     (if executor_factory \<noteq> [] then instantiate_factory E executor_factory
      else sbind (discover_executor_factories E) (\<lambda>discovered.
             if length discovered = 1 then instantiate_factory E (discovered ! 0)
             else if length discovered > 1 then Inr (noop_executor E)
             else Inr (noop_executor E)))"

section \<open>Device topology\<close>

text \<open>
  A device specification: \<open>directed_edges\<close> is \<open>None\<close> when the attribute is missing or
  \<^verbatim>\<open>None\<close>; \<open>logical_edges\<close> is \<open>None\<close> when the attribute is missing, which
  raises \<^verbatim>\<open>AttributeError\<close>.
\<close>

record device_spec =
  directed_edges :: "int list list option"
  logical_edges :: "int list list option"

definition resolve_connectivity_from_device_spec :: "device_spec option \<Rightarrow> exc + int list list option" where
  "resolve_connectivity_from_device_spec spec =
     (case spec of
        None \<Rightarrow> Inr None
      | Some d \<Rightarrow>
          (case directed_edges d of
             Some (e # es) \<Rightarrow> Inr (Some (e # es))
           | _ \<Rightarrow> (case logical_edges d of
                     None \<Rightarrow> Inl (OtherExc ''AttributeError'')
                   | Some es \<Rightarrow> Inr (Some es))))"

section \<open>Lemmas\<close>

lemma instantiate_factory_has_run: "instantiate_factory E p = Inr x \<Longrightarrow> has_run E x"
  by (auto simp: instantiate_factory_def sbind_eq_Inr split: if_splits)

lemma load_executor_has_run:
  assumes "has_run E (noop_executor E)" and "load_executor E f = Inr x"
  shows "has_run E x"
  using assms
  by (auto simp: load_executor_def sbind_eq_Inr split: if_splits dest: instantiate_factory_has_run)

lemma partition_colon_id:
  "CHR '':'' \<notin> set a \<Longrightarrow> partition_colon (a @ '':'' @ b) = (a, '':'', b)"
proof -
  assume a: "CHR '':'' \<notin> set a"
  then have n: "\<forall>c \<in> set a. c \<noteq> CHR '':''" by blast
  then have "takeWhile (\<lambda>c. c \<noteq> CHR '':'') (a @ '':'' @ b) = a"
    by (subst takeWhile_append2) auto
  moreover have "dropWhile (\<lambda>c. c \<noteq> CHR '':'') (a @ '':'' @ b) = '':'' @ b"
    using n by (subst dropWhile_append2) auto
  ultimately show ?thesis by (simp add: partition_colon_def Let_def)
qed

lemma scan_package_mem:
  assumes "scan_package E pkg = Inr cs" and "c \<in> set cs"
  shows "\<not> skip_package pkg \<and> c = pkg @ ''.executor_factory:create_executor''
     \<and> find_spec E (pkg @ ''.executor_factory'') = SpecFound"
  using assms
  by (auto simp: scan_package_def Let_def split: if_splits spec_reply.splits sum.splits option.splits)

lemma discover_mem:
  assumes "discover_executor_factories E = Inr cs" and "c \<in> set cs"
  shows "\<exists>pkgs pkg. packages E = Some pkgs \<and> pkg \<in> set pkgs \<and> \<not> skip_package pkg
     \<and> c = pkg @ ''.executor_factory:create_executor''
     \<and> find_spec E (pkg @ ''.executor_factory'') = SpecFound"
proof -
  from assms obtain pkgs css where p: "packages E = Some pkgs"
    and l: "list_all2 (\<lambda>x y. scan_package E x = Inr y) pkgs css" and c: "c \<in> set (concat css)"
    by (auto simp: discover_executor_factories_def sbind_eq_Inr smap_eq_Inr split: option.splits)
  from c obtain i where i: "i < length css" "c \<in> set (css ! i)"
    by (metis UN_E in_set_conv_nth set_concat)
  with l have "scan_package E (pkgs ! i) = Inr (css ! i)" and "pkgs ! i \<in> set pkgs"
    by (auto simp: list_all2_conv_all_nth)
  with p i show ?thesis using scan_package_mem by blast
qed

section \<open>Properties\<close>

text \<open>The packages that follow the \<^verbatim>\<open>create_executor\<close> convention, and the import path of their factory.\<close>

definition offers :: "'x pyenv \<Rightarrow> string \<Rightarrow> bool" where
  "offers E pkg \<longleftrightarrow> \<not> skip_package pkg \<and> find_spec E (pkg @ ''.executor_factory'') = SpecFound
     \<and> import_module E (pkg @ ''.executor_factory'') = Inr ()
     \<and> (\<exists>f. get_attr_opt E (pkg @ ''.executor_factory'') ''create_executor'' = Some f \<and> is_callable E f)"

definition factory_path :: "string \<Rightarrow> string" where
  "factory_path pkg = pkg @ ''.executor_factory:create_executor''"

definition installed :: "'x pyenv \<Rightarrow> string list" where
  "installed E = (case packages E of None \<Rightarrow> [] | Some pkgs \<Rightarrow> pkgs)"

lemma scan_package_offers:
  "scan_package E pkg = Inr cs \<Longrightarrow> cs = (if offers E pkg then [factory_path pkg] else [])"
  by (auto simp: scan_package_def offers_def factory_path_def Let_def
      split: if_splits spec_reply.splits sum.splits option.splits)

lemma discover_offers:
  assumes "discover_executor_factories E = Inr cs"
  shows "cs = map factory_path (filter (offers E) (installed E))"
proof (cases "packages E")
  case None
  then show ?thesis using assms by (simp add: discover_executor_factories_def installed_def)
next
  case (Some pkgs)
  then obtain css where css: "smap (scan_package E) pkgs = Inr css" "cs = concat css"
    using assms by (auto simp: discover_executor_factories_def sbind_eq_Inr)
  have "concat css = map factory_path (filter (offers E) pkgs)" using css(1)
  proof (induction pkgs arbitrary: css)
    case (Cons p ps)
    then obtain c cs' where "scan_package E p = Inr c" "smap (scan_package E) ps = Inr cs'" "css = c # cs'"
      by (auto simp: sbind_eq_Inr)
    then show ?case using Cons.IH scan_package_offers [of E p c] by simp
  qed simp
  then show ?thesis using css(2) Some by (simp add: installed_def)
qed

text \<open>
  C25. The resolution order of \<^verbatim>\<open>load_executor\<close>: a configured import path decides; without one, the factory of
  the installed package that follows the convention is used if there is exactly one such package, and the
  fallback executor otherwise.  Whatever is returned can run jobs.
\<close>

theorem executor_resolution:
  assumes "has_run E (noop_executor E)" and "load_executor E f = Inr x"
  shows "has_run E x
     \<and> (if f \<noteq> [] then instantiate_factory E f = Inr x
        else case filter (offers E) (installed E) of
               [pkg] \<Rightarrow> instantiate_factory E (factory_path pkg) = Inr x
             | _ \<Rightarrow> x = noop_executor E)"
proof (intro conjI)
  show "has_run E x" using assms by (rule load_executor_has_run)
  show "if f \<noteq> [] then instantiate_factory E f = Inr x
      else case filter (offers E) (installed E) of
             [pkg] \<Rightarrow> instantiate_factory E (factory_path pkg) = Inr x
           | _ \<Rightarrow> x = noop_executor E"
  proof (cases "f = []")
    case True
    then obtain cs where "discover_executor_factories E = Inr cs" using assms(2) by (auto simp: load_executor_def sbind_eq_Inr)
    with discover_offers [OF this] assms(2) True show ?thesis
      by (auto simp: load_executor_def split: list.split if_splits)
  qed (use assms(2) in \<open>simp add: load_executor_def\<close>)
qed

text \<open>An interpreter with one vendor package whose factory takes no parameter.\<close>

definition vendor_env :: "nat pyenv" where
  "vendor_env =
     \<lparr>import_module = (\<lambda>_. Inr ()), get_attr = (\<lambda>_ _. Inr 1), get_attr_opt = (\<lambda>_ _. Some 1),
      has_run = (\<lambda>x. x \<noteq> 1), is_callable = (\<lambda>x. x = 1), signature_params = (\<lambda>_. Inr 0),
      call_settings = (\<lambda>_. Inr 2), call_plain = (\<lambda>_. Inr 3),
      packages = Some [''vendor'', ''_private'', ''coda_node'', ''a.b''],
      find_spec = (\<lambda>m. if m = ''vendor.executor_factory'' then SpecFound else SpecNone), noop_executor = 0\<rparr>"

theorem executor_resolution_witness:
  "load_executor vendor_env [] = Inr 3 \<and> instantiate_factory vendor_env ''vendor.executor_factory:create_executor'' = Inr 3"
proof -
  have l: "load_executor vendor_env [] = Inr 3" by code_simp
  have "has_run vendor_env (noop_executor vendor_env)" by (simp add: vendor_env_def)
  moreover have "filter (offers vendor_env) (installed vendor_env) = [''vendor'']"
    by (simp add: offers_def installed_def vendor_env_def skip_package_def startswith_def)
  ultimately show ?thesis using executor_resolution [OF _ l] l by (simp add: factory_path_def)
qed

text \<open>
  Every import path that discovery proposes is one that the loader accepts: it names the
  \<^verbatim>\<open>executor_factory\<close> module of an installed top-level package that is not private and not this
  package, and \<^verbatim>\<open>_load_attr\<close> splits it back into that module and \<^verbatim>\<open>create_executor\<close>.
\<close>

theorem discovered_paths_load:
  assumes "discover_executor_factories E = Inr cs" and "c \<in> set cs"
    and "\<And>pkgs pkg. packages E = Some pkgs \<Longrightarrow> pkg \<in> set pkgs \<Longrightarrow> CHR '':'' \<notin> set pkg"
  shows "\<exists>pkg. \<not> skip_package pkg \<and> find_spec E (pkg @ ''.executor_factory'') = SpecFound
     \<and> load_attr E c = sbind (import_module E (pkg @ ''.executor_factory''))
         (\<lambda>_. get_attr E (pkg @ ''.executor_factory'') ''create_executor'')"
proof -
  from discover_mem [OF assms(1,2)] obtain pkgs pkg where p: "packages E = Some pkgs" "pkg \<in> set pkgs"
    "\<not> skip_package pkg" "c = pkg @ ''.executor_factory:create_executor''"
    "find_spec E (pkg @ ''.executor_factory'') = SpecFound" by blast
  have "CHR '':'' \<notin> set (pkg @ ''.executor_factory'')" using assms(3) [OF p(1,2)] by simp
  from partition_colon_id [OF this, of "''create_executor''"] p(4)
  have "partition_colon c = (pkg @ ''.executor_factory'', '':'', ''create_executor'')" by simp
  then have "load_attr E c = sbind (import_module E (pkg @ ''.executor_factory''))
         (\<lambda>_. get_attr E (pkg @ ''.executor_factory'') ''create_executor'')"
    by (simp add: load_attr_def)
  with p show ?thesis by blast
qed

theorem discovered_paths_load_witness:
  "\<exists>pkg. \<not> skip_package pkg \<and> find_spec vendor_env (pkg @ ''.executor_factory'') = SpecFound
     \<and> load_attr vendor_env ''vendor.executor_factory:create_executor''
       = sbind (import_module vendor_env (pkg @ ''.executor_factory''))
         (\<lambda>_. get_attr vendor_env (pkg @ ''.executor_factory'') ''create_executor'')"
proof (rule discovered_paths_load)
  show "discover_executor_factories vendor_env = Inr [''vendor.executor_factory:create_executor'']" by code_simp
qed (auto simp: vendor_env_def)

text \<open>
  The fallback executor reports all requested shots on the all-zero outcome, one character per
  measured qubit.
\<close>

lemma noop_run_spec:
  "\<exists>b. counts (noop_run ir shots) = [(b, shots)] \<and> length b = length (ir_measurements ir)
     \<and> set b \<subseteq> {CHR ''0''} \<and> shots_completed (noop_run ir shots) = shots"
  by (auto simp: noop_run_def Let_def)

end
