(* ===== verification/Auth.thy ===== *)
theory Auth
  imports Errors
begin

text \<open>
  RS256 tokens, \<^verbatim>\<open>server/auth.py\<close>.  PyJWT and the RSA primitives are parameters: an
  encoder from claims, private key and \<^verbatim>\<open>kid\<close> header to text, a reader of the unverified
  header, and a verifying decoder.  Times are seconds since the epoch.
\<close>

record key_pair =
  private_key_pem :: string
  public_key_pem :: string
  kp_key_id :: string

record jwt_claims =
  jc_sub :: string
  jc_iss :: string
  jc_iat :: int
  jc_exp :: int

definition DEFAULT_ISSUER :: string where
  "DEFAULT_ISSUER = ''coda''"

definition DEFAULT_TTL :: int where
  "DEFAULT_TTL = 3600"

text \<open>\<open>gen\<close> is the RSA generator with its PEM serialisation: private and public text.\<close>

definition generate_keypair :: "(unit \<Rightarrow> string \<times> string) \<Rightarrow> string \<Rightarrow> key_pair" where
  "generate_keypair gen key_id =
     (case gen () of (priv, pub) \<Rightarrow> \<lparr>private_key_pem = priv, public_key_pem = pub, kp_key_id = key_id\<rparr>)"

type_synonym jwt_encode = "jwt_claims \<Rightarrow> string \<Rightarrow> string \<Rightarrow> exc + string"

definition token_kid :: "string \<Rightarrow> string option \<Rightarrow> string" where
  "token_kid subject key_id =
     (case key_id of Some k \<Rightarrow> if k \<noteq> [] then k else subject | None \<Rightarrow> subject)"

definition sign_token ::
  "jwt_encode \<Rightarrow> int \<Rightarrow> string \<Rightarrow> string \<Rightarrow> string \<Rightarrow> int \<Rightarrow> string option \<Rightarrow> exc + string" where
  "sign_token enc now subject private_key issuer ttl key_id =
     enc \<lparr>jc_sub = subject, jc_iss = issuer, jc_iat = now, jc_exp = now + ttl\<rparr>
       private_key (token_kid subject key_id)"

text \<open>
  \<open>dec token key issuer\<close> verifies signature, issuer, expiry and the required claims;
  \<open>hdr\<close> answers the \<^verbatim>\<open>kid\<close> of the unverified header, \<open>Inl\<close> for a
  \<^verbatim>\<open>DecodeError\<close>.
\<close>

definition verify_token_with_key ::
  "(string \<Rightarrow> string \<Rightarrow> string \<Rightarrow> exc + jwt_claims) \<Rightarrow> string \<Rightarrow> string \<Rightarrow> string \<Rightarrow> exc + jwt_claims" where
  "verify_token_with_key dec token public_key issuer = dec token public_key issuer"

definition verify_token ::
  "(string \<Rightarrow> exc + string option) \<Rightarrow> (string \<Rightarrow> string \<Rightarrow> string \<Rightarrow> exc + jwt_claims) \<Rightarrow>
   string \<Rightarrow> (string \<Rightarrow> string option) \<Rightarrow> string \<Rightarrow> exc + jwt_claims" where
  "verify_token hdr dec token get_public_key issuer =
     (case hdr token of
        Inl _ \<Rightarrow> Inl (OtherExc ''InvalidTokenError: Malformed token header'')
      | Inr kid \<Rightarrow>
          (case kid of
             None \<Rightarrow> Inl (OtherExc ''InvalidTokenError: Token missing 'kid' header'')
           | Some k \<Rightarrow>
               if k = [] then Inl (OtherExc ''InvalidTokenError: Token missing 'kid' header'')
               else (case get_public_key k of
                       None \<Rightarrow> Inl (OtherExc (''InvalidTokenError: Unknown key_id: '' @ k))
                     | Some pk \<Rightarrow>
                         if pk = [] then Inl (OtherExc (''InvalidTokenError: Unknown key_id: '' @ k))
                         else dec token pk issuer)))"

lemma token_kid_nonempty: "subject \<noteq> [] \<Longrightarrow> token_kid subject key_id \<noteq> []"
  by (auto simp: token_kid_def split: option.splits)


text \<open>An encoder that signs one fixed set of claims shows that the hypotheses can hold.\<close>

definition one_claims :: jwt_claims where
  "one_claims = \<lparr>jc_sub = ''q'', jc_iss = ''coda'', jc_iat = 5, jc_exp = 3605\<rparr>"

definition one_enc :: jwt_encode where
  "one_enc c p k = (if c = one_claims \<and> p = ''priv'' \<and> k = ''k1'' then Inr ''t'' else Inl (ValueErr ''key''))"


end
