(* ===== verification/World.thy ===== *)
theory World
  imports Effects Executor Auth
begin

text \<open>
  The environment of the running node: the Redis server, the execution backend, the Coda cloud
  behind HTTP, clocks and \<^verbatim>\<open>asyncio.sleep\<close>.  None of it is code of the repository, so
  it is a parameter: the record \<open>env\<close> answers every external call with an arbitrary reply
  that may depend on the whole history of earlier calls.  The history is the \<open>trace\<close> of the
  state, newest event first; each event records the request and the reply.  Quantifying over
  \<open>env\<close> therefore covers every behaviour of the cloud (a cancel flag set at any moment) and
  every fault (an exception at any call, including the cancellation of the current task).
\<close>

section \<open>Events and replies\<close>

text \<open>A webhook body: the values \<^verbatim>\<open>WebhookPayload.to_dict\<close> puts in the dictionary.\<close>

datatype payload_value = PVCounts "(string \<times> int) list" | PVFloat pyfloat | PVInt int | PVStr string

type_synonym body = "(string \<times> payload_value) list"

text \<open>The answer to an HTTP POST: a response status, or an exception of the HTTP client.\<close>

datatype http_reply = Response nat | HttpRaise exc

text \<open>A Redis field or value: text, bytes, or another object with its \<^verbatim>\<open>str\<close>.\<close>

datatype redis_val = RStr string | RBytes string | RObj string

type_synonym fields = "(redis_val \<times> redis_val) list"
type_synonym message = "string \<times> fields"
type_synonym job = "native_gate_ir \<times> int"

datatype event =
    EvXgroup "exc option"
  | EvXpending "exc + string list"
  | EvXrange string "exc + message list"
  | EvXread nat "exc + (string \<times> message list) list"
  | EvHset string "(string \<times> string) list" "exc option"
  | EvXack string "exc option"
  | EvGet string "exc + string option"
  | EvHget string string "exc + redis_val option"
  | EvRunStart native_gate_ir int
  | EvWait "exc + (exc + exec_result) option"
  | EvCancelHook "exc option"
  | EvTaskCancel "exc + exec_result"
  | EvTaskAbort
  | EvBatchRun "job list" "exc + exec_result list"
  | EvPost string body "(string \<times> string) list" http_reply
  | EvSleep rat "exc option"

record world =
  trace :: "event list"

type_synonym history = "event list"

record env =
  e_xgroup :: "history \<Rightarrow> exc option"
  e_xpending :: "history \<Rightarrow> exc + string list"
  e_xrange :: "history \<Rightarrow> string \<Rightarrow> exc + message list"
  e_xread :: "history \<Rightarrow> nat \<Rightarrow> exc + (string \<times> message list) list"
  e_hset :: "history \<Rightarrow> string \<Rightarrow> (string \<times> string) list \<Rightarrow> exc option"
  e_xack :: "history \<Rightarrow> string \<Rightarrow> exc option"
  e_get :: "history \<Rightarrow> string \<Rightarrow> exc + string option"
  e_hget :: "history \<Rightarrow> string \<Rightarrow> string \<Rightarrow> exc + redis_val option"
  e_wait :: "history \<Rightarrow> exc + (exc + exec_result) option"
  e_cancel_hook :: "history \<Rightarrow> exc option option"
  e_task_cancel :: "history \<Rightarrow> exc + exec_result"
  e_batch_run :: "history \<Rightarrow> job list \<Rightarrow> (exc + exec_result list) option"
  e_post :: "history \<Rightarrow> string \<Rightarrow> body \<Rightarrow> http_reply"
  e_sleep :: "history \<Rightarrow> rat \<Rightarrow> exc option"
  e_now :: "history \<Rightarrow> string"
  e_clock :: "history \<Rightarrow> int"
  e_monotonic :: "history \<Rightarrow> rat"
  e_stop :: "history \<Rightarrow> bool"
  e_sched :: "history \<Rightarrow> nat"
  e_idle_wait :: "history \<Rightarrow> bool"
  e_drain_timeout :: "history \<Rightarrow> bool"
  e_is_timeout :: "exc \<Rightarrow> bool"
  e_jwt :: jwt_encode
  e_bytes_decode :: "string \<Rightarrow> exc + string"
  e_ir :: "string \<Rightarrow> raw_ir option"
  e_str :: "exc \<Rightarrow> string"

text \<open>
  One concrete environment, used to show that hypotheses on environments can hold: Redis answers
  and knows nothing, the executor returns at once, every POST is answered 200.
\<close>

definition sample_raw :: raw_ir where
  "sample_raw =
     \<lparr>r_version = None, r_target = ''cz'', r_num_qubits = 2,
      r_gates = [\<lparr>rg_gate = ''cz'', rg_qubits = [0, 1], rg_params = None\<rparr>],
      r_measurements = [0, 1], r_source_hash = ''h'', r_compiled_at = ''t'',
      r_compiler_version = None, r_optimization_level = None\<rparr>"

definition sample_result :: exec_result where
  "sample_result = \<lparr>counts = [(''00'', 7)], execution_time_ms = Finite 0, shots_completed = 7\<rparr>"

definition calm_env :: env where
  "calm_env =
     \<lparr>e_xgroup = (\<lambda>_. None), e_xpending = (\<lambda>_. Inr []), e_xrange = (\<lambda>_ _. Inr []),
      e_xread = (\<lambda>_ _. Inr []), e_hset = (\<lambda>_ _ _. None), e_xack = (\<lambda>_ _. None),
      e_get = (\<lambda>_ _. Inr None), e_hget = (\<lambda>_ _ _. Inr None),
      e_wait = (\<lambda>_. Inr (Some (Inr sample_result))), e_cancel_hook = (\<lambda>_. None),
      e_task_cancel = (\<lambda>_. Inl CancelledError),
      e_batch_run = (\<lambda>_ js. Some (Inr (map (\<lambda>_. sample_result) js))),
      e_post = (\<lambda>_ _ _. Response 200), e_sleep = (\<lambda>_ _. None), e_now = (\<lambda>_. ''now''),
      e_clock = (\<lambda>_. 0), e_monotonic = (\<lambda>_. 0), e_stop = (\<lambda>_. False), e_sched = (\<lambda>_. 0),
      e_idle_wait = (\<lambda>_. True), e_drain_timeout = (\<lambda>_. False), e_is_timeout = (\<lambda>_. False),
      e_jwt = (\<lambda>_ _ _. Inr ''token''), e_bytes_decode = Inr, e_ir = (\<lambda>_. Some sample_raw),
      e_str = (\<lambda>_. ''error'')\<rparr>"

section \<open>External calls\<close>

definition emit :: "event \<Rightarrow> ('s world_scheme, unit) prog" where
  "emit ev = modify (trace_update (\<lambda>h. ev # h))"

text \<open>Ask the environment, record request and reply, and continue with the reply.\<close>

definition ask :: "(history \<Rightarrow> 'r) \<Rightarrow> ('r \<Rightarrow> event) \<Rightarrow> ('s world_scheme, 'r) prog" where
  "ask reply ev = bind (gets (\<lambda>s. reply (trace s))) (\<lambda>r. bind (emit (ev r)) (\<lambda>_. ret r))"

definition of_opt :: "exc option \<Rightarrow> ('s, unit) prog" where
  "of_opt r = (case r of None \<Rightarrow> ret () | Some e \<Rightarrow> raise e)"

definition hset :: "env \<Rightarrow> string \<Rightarrow> (string \<times> string) list \<Rightarrow> ('s world_scheme, unit) prog" where
  "hset E key m = bind (ask (\<lambda>h. e_hset E h key m) (EvHset key m)) of_opt"

definition xack :: "env \<Rightarrow> string \<Rightarrow> ('s world_scheme, unit) prog" where
  "xack E mid = bind (ask (\<lambda>h. e_xack E h mid) (EvXack mid)) of_opt"

definition redis_get :: "env \<Rightarrow> string \<Rightarrow> ('s world_scheme, string option) prog" where
  "redis_get E key = bind (ask (\<lambda>h. e_get E h key) (EvGet key)) of_sum"

definition redis_hget :: "env \<Rightarrow> string \<Rightarrow> string \<Rightarrow> ('s world_scheme, redis_val option) prog" where
  "redis_hget E key f = bind (ask (\<lambda>h. e_hget E h key f) (EvHget key f)) of_sum"

definition sleep :: "env \<Rightarrow> rat \<Rightarrow> ('s world_scheme, unit) prog" where
  "sleep E d = bind (ask (\<lambda>h. e_sleep E h d) (EvSleep d)) of_opt"

definition now_iso :: "env \<Rightarrow> ('s world_scheme, string) prog" where
  "now_iso E = gets (\<lambda>s. e_now E (trace s))"

section \<open>Rules\<close>

text \<open>The second state is the first with the events \<open>evs\<close> (newest first) added to its trace.\<close>

definition extends :: "'s world_scheme \<Rightarrow> event list \<Rightarrow> 's world_scheme \<Rightarrow> bool" where
  "extends s evs s' \<longleftrightarrow> s' = trace_update (\<lambda>h. evs @ h) s"

lemma extends_refl [simp]: "extends s [] s"
  by (simp add: extends_def)

lemma extends_step [simp]: "extends s [ev] (trace_update (\<lambda>h. ev # h) s)"
  by (simp add: extends_def)

lemma extends_trans: "extends s e1 s1 \<Longrightarrow> extends s1 e2 s2 \<Longrightarrow> extends s (e2 @ e1) s2"
  by (simp add: extends_def comp_def)

lemma extends_Cons: "extends (trace_update (\<lambda>h. ev # h) s) evs s' \<Longrightarrow> extends s (evs @ [ev]) s'"
  by (simp add: extends_def comp_def)

lemma extends_trace: "extends s evs s' \<Longrightarrow> trace s' = evs @ trace s"
  by (simp add: extends_def)

lemma wp_emit [wp_simps]: "wp (emit ev) Q s = Q (Ret ()) (trace_update (\<lambda>h. ev # h) s)"
  by (simp add: emit_def wp_simps)

lemma wp_ask [wp_simps]:
  "wp (ask reply ev) Q s =
   (let r = reply (trace s) in Q (Ret r) (trace_update (\<lambda>h. ev r # h) s))"
  by (simp add: ask_def wp_simps Let_def)

lemma wp_of_opt [wp_simps]:
  "wp (of_opt r) Q s = (case r of None \<Rightarrow> Q (Ret ()) s | Some e \<Rightarrow> Q (Raise e) s)"
  by (simp add: of_opt_def wp_simps split: option.split)

lemma wp_hset [wp_simps]:
  "wp (hset E key m) Q s =
   (let r = e_hset E (trace s) key m; s' = trace_update (\<lambda>h. EvHset key m r # h) s
    in case r of None \<Rightarrow> Q (Ret ()) s' | Some e \<Rightarrow> Q (Raise e) s')"
  by (simp add: hset_def wp_simps Let_def)

lemma wp_xack [wp_simps]:
  "wp (xack E mid) Q s =
   (let r = e_xack E (trace s) mid; s' = trace_update (\<lambda>h. EvXack mid r # h) s
    in case r of None \<Rightarrow> Q (Ret ()) s' | Some e \<Rightarrow> Q (Raise e) s')"
  by (simp add: xack_def wp_simps Let_def)

lemma wp_redis_get [wp_simps]:
  "wp (redis_get E key) Q s =
   (let r = e_get E (trace s) key; s' = trace_update (\<lambda>h. EvGet key r # h) s
    in case r of Inl e \<Rightarrow> Q (Raise e) s' | Inr v \<Rightarrow> Q (Ret v) s')"
  by (simp add: redis_get_def wp_simps Let_def)

lemma wp_redis_hget [wp_simps]:
  "wp (redis_hget E key f) Q s =
   (let r = e_hget E (trace s) key f; s' = trace_update (\<lambda>h. EvHget key f r # h) s
    in case r of Inl e \<Rightarrow> Q (Raise e) s' | Inr v \<Rightarrow> Q (Ret v) s')"
  by (simp add: redis_hget_def wp_simps Let_def)

lemma wp_sleep [wp_simps]:
  "wp (sleep E d) Q s =
   (let r = e_sleep E (trace s) d; s' = trace_update (\<lambda>h. EvSleep d r # h) s
    in case r of None \<Rightarrow> Q (Ret ()) s' | Some e \<Rightarrow> Q (Raise e) s')"
  by (simp add: sleep_def wp_simps Let_def)

lemma wp_now_iso [wp_simps]: "wp (now_iso E) Q s = Q (Ret (e_now E (trace s))) s"
  by (simp add: now_iso_def wp_simps)

end
