(* ===== verification/Webhook.thy ===== *)
theory Webhook
  imports World
begin

text \<open>
  Webhook delivery, \<^verbatim>\<open>server/webhook.py\<close>: the payload and its dictionary form, and the
  POST with retry.  The theorems bound the number of attempts, say which answers are retried, and
  characterise success by the answer of the last POST.
\<close>

record webhook_payload =
  wp_job_id :: string
  wp_status :: string
  wp_counts :: "(string \<times> int) list option"
  wp_execution_time_ms :: "pyfloat option"
  wp_shots_completed :: "int option"
  wp_error :: "string option"

definition to_dict :: "webhook_payload \<Rightarrow> body" where
  "to_dict p =
     [(''job_id'', PVStr (wp_job_id p)), (''status'', PVStr (wp_status p))] @
     (case wp_counts p of None \<Rightarrow> [] | Some c \<Rightarrow> [(''counts'', PVCounts c)]) @
     (case wp_execution_time_ms p of None \<Rightarrow> [] | Some t \<Rightarrow> [(''execution_time_ms'', PVFloat t)]) @
     (case wp_shots_completed p of None \<Rightarrow> [] | Some n \<Rightarrow> [(''shots_completed'', PVInt n)]) @
     (case wp_error p of None \<Rightarrow> [] | Some e \<Rightarrow> [(''error'', PVStr e)])"

record webhook_client =
  wc_qpu_id :: string
  wc_jwt_private_key :: string
  wc_jwt_key_id :: string
  wc_max_retries :: int
  wc_extra_headers :: "(string \<times> string) list"

definition MAX_RETRIES :: int where
  "MAX_RETRIES = 3"

definition webhook_client_init ::
  "string \<Rightarrow> string \<Rightarrow> string \<Rightarrow> int \<Rightarrow> (string \<times> string) list option \<Rightarrow> webhook_client" where
  "webhook_client_init qpu_id key key_id max_retries extra =
     \<lparr>wc_qpu_id = qpu_id, wc_jwt_private_key = key, wc_jwt_key_id = key_id,
      wc_max_retries = max_retries, wc_extra_headers = (case extra of None \<Rightarrow> [] | Some h \<Rightarrow> h)\<rparr>"

definition client_token :: "env \<Rightarrow> webhook_client \<Rightarrow> ('s world_scheme, string) prog" where
  "client_token E w =
     bind (gets (\<lambda>s. sign_token (e_jwt E) (e_clock E (trace s)) (wc_qpu_id w) (wc_jwt_private_key w)
        DEFAULT_ISSUER DEFAULT_TTL (Some (wc_jwt_key_id w)))) of_sum"

definition auth_headers :: "webhook_client \<Rightarrow> string \<Rightarrow> (string \<times> string) list" where
  "auth_headers w token = dict_merge [(''Authorization'', ''Bearer '' @ token)] (wc_extra_headers w)"

text \<open>\<^verbatim>\<open>client.post(...)\<close> followed by \<^verbatim>\<open>raise_for_status()\<close>.\<close>

definition http_post :: "env \<Rightarrow> string \<Rightarrow> body \<Rightarrow> (string \<times> string) list \<Rightarrow> ('s world_scheme, unit) prog" where
  "http_post E url b hs =
     bind (ask (\<lambda>h. e_post E h url b) (EvPost url b hs)) (\<lambda>r.
       case r of
         HttpRaise e \<Rightarrow> raise e
       | Response st \<Rightarrow> if 200 \<le> st \<and> st < 300 then ret () else raise (HTTPStatusErr st []))"

fun http_caught :: "exc \<Rightarrow> bool" where
  "http_caught (TransportErr _) = True"
| "http_caught (HTTPStatusErr _ _) = True"
| "http_caught _ = False"

fun client_error :: "exc \<Rightarrow> bool" where
  "client_error (HTTPStatusErr st _) \<longleftrightarrow> st < 500"
| "client_error _ \<longleftrightarrow> False"

text \<open>
  The \<^verbatim>\<open>try\<close> statement of one attempt up to the pause: \<open>None\<close> after a 2xx
  answer, the exception after an answer that is retried; everything else is raised.
\<close>

definition post_once :: "env \<Rightarrow> webhook_client \<Rightarrow> string \<Rightarrow> body \<Rightarrow> ('s world_scheme, exc option) prog" where
  "post_once E w url b =
     bind (client_token E w) (\<lambda>token.
       catch (bind (http_post E url b (auth_headers w token)) (\<lambda>_. ret None))
         (\<lambda>e. if http_caught e then Some (if client_error e then raise e else ret (Some e)) else None))"

text \<open>
  The loop \<^verbatim>\<open>for attempt in range(1, max_retries + 1)\<close>: \<open>k\<close> is the attempt,
  \<open>n\<close> the number of attempts left.
\<close>

fun post_attempts :: "env \<Rightarrow> webhook_client \<Rightarrow> string \<Rightarrow> body \<Rightarrow> nat \<Rightarrow> nat \<Rightarrow> exc option \<Rightarrow> ('s world_scheme, unit) prog" where
  "post_attempts E w url b k 0 last_exc = (case last_exc of None \<Rightarrow> ret () | Some e \<Rightarrow> raise e)"
| "post_attempts E w url b k (Suc n) last_exc =
     bind (post_once E w url b) (\<lambda>r.
       case r of
         None \<Rightarrow> ret ()
       | Some e \<Rightarrow> bind (sleep E (2 ^ (k - 1))) (\<lambda>_. post_attempts E w url b (Suc k) n (Some e)))"

definition post_with_retry :: "env \<Rightarrow> webhook_client \<Rightarrow> string \<Rightarrow> body \<Rightarrow> ('s world_scheme, unit) prog" where
  "post_with_retry E w url b = post_attempts E w url b 1 (nat (wc_max_retries w)) None"

definition send_result :: "env \<Rightarrow> webhook_client \<Rightarrow> string \<Rightarrow> webhook_payload \<Rightarrow> ('s world_scheme, unit) prog" where
  "send_result E w url p = post_with_retry E w url (to_dict p)"

definition error_payload :: "string \<Rightarrow> string \<Rightarrow> webhook_payload" where
  "error_payload job_id err =
     \<lparr>wp_job_id = job_id, wp_status = ''failed'', wp_counts = None, wp_execution_time_ms = None,
      wp_shots_completed = None, wp_error = Some err\<rparr>"

definition send_error :: "env \<Rightarrow> webhook_client \<Rightarrow> string \<Rightarrow> string \<Rightarrow> string \<Rightarrow> ('s world_scheme, unit) prog" where
  "send_error E w url job_id err = send_result E w url (error_payload job_id err)"

section \<open>Deliveries in a trace\<close>

fun is_post :: "event \<Rightarrow> bool" where
  "is_post (EvPost _ _ _ _) = True"
| "is_post _ = False"

fun ok_reply :: "http_reply \<Rightarrow> bool" where
  "ok_reply (Response st) \<longleftrightarrow> 200 \<le> st \<and> st < 300"
| "ok_reply (HttpRaise _) \<longleftrightarrow> False"

text \<open>The answers after which the client tries again: a 5xx status or a transport error.\<close>

fun retriable :: "http_reply \<Rightarrow> bool" where
  "retriable (Response st) \<longleftrightarrow> 500 \<le> st"
| "retriable (HttpRaise e) \<longleftrightarrow> http_caught e \<and> \<not> client_error e"

definition post_to :: "string \<Rightarrow> body \<Rightarrow> (http_reply \<Rightarrow> bool) \<Rightarrow> event \<Rightarrow> bool" where
  "post_to url b P ev \<longleftrightarrow> (\<exists>hs r. ev = EvPost url b hs r \<and> P r)"

text \<open>
  What a run of the client adds to the trace: its POSTs go to the given address with the given
  body, all but the newest one were answered by something retriable, and a run that returns after
  a POST ends with a POST that was answered 2xx.
\<close>

definition delivery_log :: "string \<Rightarrow> body \<Rightarrow> unit outcome \<Rightarrow> event list \<Rightarrow> bool" where
  "delivery_log url b r evs \<longleftrightarrow>
     (\<forall>ev \<in> set evs. is_post ev \<and> post_to url b (\<lambda>_. True) ev \<or> (\<exists>d x. ev = EvSleep d x))
     \<and> (\<forall>ev \<in> set (drop 1 (filter is_post evs)). post_to url b retriable ev)
     \<and> (r = Ret () \<longrightarrow> evs \<noteq> [] \<longrightarrow> post_to url b ok_reply (hd evs))"

lemma wp_client_token [wp_simps]:
  "wp (client_token E w) Q s =
   (case sign_token (e_jwt E) (e_clock E (trace s)) (wc_qpu_id w) (wc_jwt_private_key w)
        DEFAULT_ISSUER DEFAULT_TTL (Some (wc_jwt_key_id w)) of
      Inl e \<Rightarrow> Q (Raise e) s | Inr t \<Rightarrow> Q (Ret t) s)"
  by (simp add: client_token_def wp_simps)

lemma wp_http_post [wp_simps]:
  "wp (http_post E url b hs) Q s =
   (let r = e_post E (trace s) url b; s' = trace_update (\<lambda>h. EvPost url b hs r # h) s
    in case r of HttpRaise e \<Rightarrow> Q (Raise e) s'
       | Response st \<Rightarrow> if 200 \<le> st \<and> st < 300 then Q (Ret ()) s' else Q (Raise (HTTPStatusErr st [])) s')"
  by (auto simp: http_post_def wp_simps Let_def split: http_reply.split)

fun reply_exc :: "http_reply \<Rightarrow> exc" where
  "reply_exc (Response st) = HTTPStatusErr st []"
| "reply_exc (HttpRaise e) = e"

lemma wp_post_once [wp_simps]:
  "wp (post_once E w url b) Q s =
   (case sign_token (e_jwt E) (e_clock E (trace s)) (wc_qpu_id w) (wc_jwt_private_key w)
        DEFAULT_ISSUER DEFAULT_TTL (Some (wc_jwt_key_id w)) of
      Inl e \<Rightarrow> Q (Raise e) s
    | Inr t \<Rightarrow>
        (let r = e_post E (trace s) url b;
             s1 = trace_update (\<lambda>h. EvPost url b (auth_headers w t) r # h) s
         in if ok_reply r then Q (Ret None) s1
            else if retriable r then Q (Ret (Some (reply_exc r))) s1
            else Q (Raise (reply_exc r)) s1))"
proof (cases "e_post E (trace s) url b")
  case (Response st)
  then show ?thesis by (auto simp: post_once_def wp_simps Let_def split: sum.split)
next
  case (HttpRaise e)
  then show ?thesis
    by (cases "http_caught e") (auto simp: post_once_def wp_simps Let_def split: sum.split)
qed

text \<open>One attempt, by the answer it gets.\<close>

lemma wp_post_attempts_Suc:
  "wp (post_attempts E w url b k (Suc n) l) Q s =
   (case sign_token (e_jwt E) (e_clock E (trace s)) (wc_qpu_id w) (wc_jwt_private_key w)
        DEFAULT_ISSUER DEFAULT_TTL (Some (wc_jwt_key_id w)) of
      Inl e \<Rightarrow> Q (Raise e) s
    | Inr t \<Rightarrow>
        (let r = e_post E (trace s) url b;
             s1 = trace_update (\<lambda>h. EvPost url b (auth_headers w t) r # h) s
         in if ok_reply r then Q (Ret ()) s1
            else if retriable r then
              (let d = 2 ^ (k - 1); x = e_sleep E (trace s1) d;
                   s2 = trace_update (\<lambda>h. EvSleep d x # h) s1
               in case x of Some e \<Rightarrow> Q (Raise e) s2
                  | None \<Rightarrow> wp (post_attempts E w url b (Suc k) n (Some (reply_exc r))) Q s2)
            else Q (Raise (reply_exc r)) s1))"
  by (auto simp: wp_simps Let_def split: sum.split option.split)

definition attempts_spec :: "string \<Rightarrow> body \<Rightarrow> nat \<Rightarrow> exc option \<Rightarrow> unit outcome \<Rightarrow> event list \<Rightarrow> bool" where
  "attempts_spec url b n l r evs \<longleftrightarrow>
     delivery_log url b r evs \<and> length (filter is_post evs) \<le> n \<and> r \<noteq> Stuck
     \<and> (r = Ret () \<longrightarrow> (evs = [] \<longleftrightarrow> n = 0 \<and> l = None))"

lemma attempts_spec_retry:
  assumes "attempts_spec url b n (Some e) r evs" and "retriable x"
  shows "attempts_spec url b (Suc n) l r (evs @ [EvSleep d None, EvPost url b hs x])"
proof -
  let ?p = "EvPost url b hs x"
  have "set (drop 1 (filter is_post evs @ [?p])) \<subseteq> set (drop 1 (filter is_post evs)) \<union> {?p}"
    by (cases "filter is_post evs") auto
  moreover have "post_to url b retriable ?p" using assms(2) by (auto simp: post_to_def)
  ultimately show ?thesis
    using assms(1) unfolding attempts_spec_def delivery_log_def
    by (auto simp: post_to_def)
qed

lemma post_attempts_log:
  "wp (post_attempts E w url b k n l)
     (\<lambda>r s'. \<exists>evs. extends s evs s' \<and> attempts_spec url b n l r evs) s"
proof (induction n arbitrary: k l s)
  case 0
  show ?case
    by (cases l) (auto simp: wp_simps attempts_spec_def delivery_log_def intro!: exI [of _ "[]"])
next
  case (Suc n)
  let ?Q = "\<lambda>r s'. \<exists>evs. extends s evs s' \<and> attempts_spec url b (Suc n) l r evs"
  define r where "r = e_post E (trace s) url b"
  have one: "?Q q (trace_update (\<lambda>h. EvPost url b hs r # h) s)"
    if "q = Ret () \<longrightarrow> ok_reply r" "q \<noteq> Stuck" for q hs
    using that by (intro exI [of _ "[EvPost url b hs r]"])
      (auto simp: attempts_spec_def delivery_log_def post_to_def)
  have two: "?Q (Raise e) (trace_update (\<lambda>h. EvSleep d (Some e) # h) (trace_update (\<lambda>h. EvPost url b hs r # h) s))"
    for hs d e
    by (intro exI [of _ "[EvSleep d (Some e), EvPost url b hs r]"])
      (auto simp: attempts_spec_def delivery_log_def post_to_def extends_def comp_def)
  have three: "wp (post_attempts E w url b (Suc k) n (Some e)) ?Q s2"
    if "s2 = trace_update (\<lambda>h. EvSleep d None # h) (trace_update (\<lambda>h. EvPost url b hs r # h) s)"
      and "retriable r" for s2 d e hs
  proof (rule wp_mono [OF Suc.IH])
    fix q s' assume "\<exists>evs. extends s2 evs s' \<and> attempts_spec url b n (Some e) q evs"
    then obtain evs where "extends s2 evs s'" and a: "attempts_spec url b n (Some e) q evs" by blast
    then have "extends s (evs @ [EvSleep d None, EvPost url b hs r]) s'"
      using that(1) by (simp add: extends_def comp_def)
    with attempts_spec_retry [OF a that(2)] show "?Q q s'" by blast
  qed
  have zero: "?Q (Raise e) s" for e
    by (intro exI [of _ "[]"]) (auto simp: attempts_spec_def delivery_log_def)
  show ?case
    unfolding wp_post_attempts_Suc Let_def r_def [symmetric]
    by (auto split: sum.split option.split intro!: zero one [simplified] two [simplified] three)
qed

section \<open>Properties\<close>

text \<open>The pauses of a run, oldest first.\<close>

definition sleeps_of :: "event list \<Rightarrow> rat list" where
  "sleeps_of evs = concat (map (\<lambda>ev. case ev of EvSleep d _ \<Rightarrow> [d] | _ \<Rightarrow> []) (rev evs))"


definition sample_body :: body where
  "sample_body = to_dict (error_payload ''j1'' ''boom'')"

definition sample_wc :: webhook_client where
  "sample_wc = webhook_client_init ''q'' ''key'' ''k1'' MAX_RETRIES None"


text \<open>Every answer is of the retried kind, pauses return and tokens can be signed.\<close>

definition unreachable :: "env \<Rightarrow> bool" where
  "unreachable E \<longleftrightarrow> (\<forall>h u b. retriable (e_post E h u b)) \<and> (\<forall>h d. e_sleep E h d = None)
     \<and> (\<forall>c p k. \<exists>t. e_jwt E c p k = Inr t)"

lemma retriable_not_ok: "retriable r \<Longrightarrow> \<not> ok_reply r"
  by (cases r) auto

lemma post_attempts_exhausted:
  assumes "unreachable E" and "1 \<le> k"
  shows "wp (post_attempts E w url b k (Suc n) l)
     (\<lambda>r s'. (\<exists>x. retriable x \<and> r = Raise (reply_exc x)) \<and> (\<exists>evs. extends s evs s'
        \<and> length (filter is_post evs) = Suc n \<and> sleeps_of evs = map (\<lambda>i. 2 ^ i) [k - 1..<k + n])) s"
    (is "wp _ (?Q k n s) s")
  using assms(2)
proof (induction n arbitrary: k l s)
  case 0
  obtain t where t: "sign_token (e_jwt E) (e_clock E (trace s)) (wc_qpu_id w) (wc_jwt_private_key w)
      DEFAULT_ISSUER DEFAULT_TTL (Some (wc_jwt_key_id w)) = Inr t"
    using assms(1) unfolding unreachable_def sign_token_def by blast
  moreover have "[k - 1..<k] = [k - 1]" using 0 by (simp add: upt_conv_Cons)
  ultimately show ?case using assms(1)
    by (auto simp: wp_post_attempts_Suc Let_def unreachable_def retriable_not_ok wp_simps extends_def comp_def
        sleeps_of_def
        intro!: exI [of _ "[EvSleep (2 ^ (k - 1)) None, EvPost url b (auth_headers w t) (e_post E (trace s) url b)]"])
next
  case (Suc n)
  obtain t where t: "sign_token (e_jwt E) (e_clock E (trace s)) (wc_qpu_id w) (wc_jwt_private_key w)
      DEFAULT_ISSUER DEFAULT_TTL (Some (wc_jwt_key_id w)) = Inr t"
    using assms(1) unfolding unreachable_def sign_token_def by blast
  let ?x = "e_post E (trace s) url b"
  let ?s2 = "trace_update (\<lambda>h. EvSleep (2 ^ (k - 1)) None # h)
     (trace_update (\<lambda>h. EvPost url b (auth_headers w t) ?x # h) s)"
  have x: "retriable ?x" using assms(1) by (simp add: unreachable_def)
  have up: "[k - 1..<k + Suc n] = (k - 1) # [k..<k + Suc n]"
    using Suc.prems by (simp add: upt_conv_Cons)
  have "wp (post_attempts E w url b (Suc k) (Suc n) (Some (reply_exc ?x))) (?Q k (Suc n) s) ?s2"
  proof (rule wp_mono [OF Suc.IH [of "Suc k" "Some (reply_exc ?x)" ?s2]])
    fix r s' assume "?Q (Suc k) n ?s2 r s'"
    then obtain y evs where "retriable y" "r = Raise (reply_exc y)" and e: "extends ?s2 evs s'"
      and evs: "length (filter is_post evs) = Suc n" "sleeps_of evs = map (\<lambda>i. 2 ^ i) [k..<k + Suc n]"
      by auto
    moreover have "extends s (evs @ [EvSleep (2 ^ (k - 1)) None, EvPost url b (auth_headers w t) ?x]) s'"
      using e by (simp add: extends_def comp_def)
    moreover have "sleeps_of (evs @ [EvSleep (2 ^ (k - 1)) None, EvPost url b (auth_headers w t) ?x])
        = map (\<lambda>i. 2 ^ i) [k - 1..<k + Suc n]"
      using evs(2) unfolding up by (simp add: sleeps_of_def del: upt_Suc)
    ultimately show "?Q k (Suc n) s r s'"
      by (intro conjI exI [of _ y] exI [of _ "evs @ [EvSleep (2 ^ (k - 1)) None, EvPost url b (auth_headers w t) ?x]"]) auto
  qed simp
  then show ?case
    using t x assms(1) unfolding wp_post_attempts_Suc [where n = "Suc n"] Let_def unreachable_def
    by (simp add: retriable_not_ok del: post_attempts.simps upt_Suc)
qed

text \<open>
  C19. When every answer is a 5xx status or a transport error, the client makes exactly
  \<^verbatim>\<open>max_retries\<close> POSTs, pauses for 1, 2, 4, ... seconds after each of them, the last one included,
  and then raises the exception of an answer.
\<close>

theorem webhook_exhaustion:
  assumes "unreachable E" and "0 < wc_max_retries w" and "post_with_retry E w url b s = (r, s')"
  shows "\<exists>x evs. retriable x \<and> r = Raise (reply_exc x) \<and> extends s evs s'
     \<and> length (filter is_post evs) = nat (wc_max_retries w)
     \<and> sleeps_of evs = map (\<lambda>i. 2 ^ i) [0..<nat (wc_max_retries w)]"
proof -
  from assms(2) obtain n where n: "nat (wc_max_retries w) = Suc n" by (cases "nat (wc_max_retries w)") auto
  from post_attempts_exhausted [OF assms(1) order_refl, of w url b n None s] assms(3) n show ?thesis
    by (auto simp: post_with_retry_def wp_def)
qed

theorem webhook_exhaustion_witness:
  "\<exists>r s' evs. post_with_retry (calm_env\<lparr>e_post := (\<lambda>_ _ _. Response 503)\<rparr>) sample_wc ''u'' sample_body \<lparr>trace = []\<rparr>
      = (r, s') \<and> trace s' = evs \<and> length (filter is_post evs) = 3 \<and> sleeps_of evs = [1, 2, 4]"
proof -
  let ?E = "calm_env\<lparr>e_post := (\<lambda>_ _ _. Response 503)\<rparr>"
  have u: "unreachable ?E" by (simp add: unreachable_def calm_env_def)
  have m: "wc_max_retries sample_wc = 3"
    by (simp add: sample_wc_def webhook_client_init_def MAX_RETRIES_def)
  obtain r s' where r: "post_with_retry ?E sample_wc ''u'' sample_body \<lparr>trace = []\<rparr> = (r, s')" by fastforce
  have "map (\<lambda>i. 2 ^ i) [0..<nat 3] = [1, 2, 4 :: rat]" by code_simp
  with webhook_exhaustion [OF u _ r] r m show ?thesis by (auto simp: extends_def)
qed

end
