(* ===== verification/Consumer.thy ===== *)
theory Consumer
  imports Webhook
begin

text \<open>
  The single-message path of \<^verbatim>\<open>server/consumer.py\<close>: the state of \<^verbatim>\<open>RedisConsumer\<close>,
  the safe Redis helpers, cancellation polling around the executor
  (\<^verbatim>\<open>_run_job_with_cancellation\<close>), \<^verbatim>\<open>_process_message\<close> and
  \<^verbatim>\<open>recover_pending\<close>.

  The polling loop has no bound of its own (it runs until the executor answers or the cloud
  cancels), so it takes fuel: the number of polls the model follows.  Running out of fuel is the
  outcome \<open>Stuck\<close>: the coroutine is still suspended and no handler has run.
\<close>

section \<open>State\<close>

text \<open>
  A background delivery task: not yet awaited, with the jobs and results it delivers, or finished
  with its outcome.
\<close>

type_synonym parsed_job = "string \<times> string \<times> string \<times> native_gate_ir \<times> int"

datatype delivery_task =
    Delivering "parsed_job list" "exec_result list"
  | Delivered "unit outcome"

record consumer = world +
  c_webhook :: webhook_client
  c_qpu_id :: string
  c_consumer_name :: string
  c_crash_recovery_threshold_ms :: int
  c_can_batch :: bool
  c_stream :: string
  c_group :: string
  c_running :: bool
  c_idle_event :: bool
  c_pending_batch_delivery :: "delivery_task option"
  current_job_id :: "string option"
  last_job_at :: "string option"
  redis_healthy :: bool

definition consumer_init :: "webhook_client \<Rightarrow> string \<Rightarrow> bool \<Rightarrow> consumer" where
  "consumer_init w qpu_id can_batch =
     \<lparr>trace = [], c_webhook = w, c_qpu_id = qpu_id, c_consumer_name = ''worker-0'',
      c_crash_recovery_threshold_ms = 60000, c_can_batch = can_batch,
      c_stream = ''qpu:'' @ qpu_id @ '':jobs'', c_group = ''qpu:'' @ qpu_id @ '':workers'',
      c_running = False, c_idle_event = True, c_pending_batch_delivery = None,
      current_job_id = None, last_job_at = None, redis_healthy = True\<rparr>"

section \<open>Field decoding\<close>

definition decode_val :: "env \<Rightarrow> redis_val \<Rightarrow> exc + string" where
  "decode_val E v = (case v of RStr t \<Rightarrow> Inr t | RBytes t \<Rightarrow> e_bytes_decode E t | RObj t \<Rightarrow> Inr t)"

definition decode_fields :: "env \<Rightarrow> fields \<Rightarrow> exc + (string \<times> string) list" where
  "decode_fields E fs =
     sbind (smap (\<lambda>(k, v). sbind (decode_val E k) (\<lambda>k'. sbind (decode_val E v) (\<lambda>v'. Inr (k', v')))) fs)
       (\<lambda>kvs. Inr (dict_merge [] kvs))"

text \<open>\<^verbatim>\<open>d[key]\<close>.\<close>

definition dict_get :: "(string \<times> string) list \<Rightarrow> string \<Rightarrow> exc + string" where
  "dict_get d k = (case map_of d k of None \<Rightarrow> Inl (KeyErr k) | Some v \<Rightarrow> Inr v)"

section \<open>Redis helpers\<close>

definition status_key :: "string \<Rightarrow> string" where
  "status_key job_id = ''qpu:job:'' @ job_id @ '':status''"

definition cancel_key :: "string \<Rightarrow> string" where
  "cancel_key job_id = ''qpu:job:cancelled:'' @ job_id"

definition safe_hset :: "env \<Rightarrow> string \<Rightarrow> (string \<times> string) list \<Rightarrow> ('s world_scheme, bool) prog" where
  "safe_hset E key m =
     catch (bind (hset E key m) (\<lambda>_. ret True)) (\<lambda>e. if is_conn e then Some (ret False) else None)"

definition safe_xack :: "env \<Rightarrow> string \<Rightarrow> ('s world_scheme, bool) prog" where
  "safe_xack E mid =
     catch (bind (xack E mid) (\<lambda>_. ret True)) (\<lambda>e. if is_conn e then Some (ret False) else None)"

definition has_cancel_signal :: "env \<Rightarrow> string \<Rightarrow> ('s world_scheme, bool) prog" where
  "has_cancel_signal E job_id = bind (redis_get E (cancel_key job_id)) (\<lambda>v. ret (v \<noteq> None))"

definition get_job_status :: "env \<Rightarrow> string \<Rightarrow> ('s world_scheme, string option) prog" where
  "get_job_status E job_id =
     bind (redis_hget E (status_key job_id) ''state'') (\<lambda>v.
       case v of None \<Rightarrow> ret None | Some x \<Rightarrow> bind (of_sum (decode_val E x)) (\<lambda>t. ret (Some t)))"

definition mark_job_cancelled :: "env \<Rightarrow> string \<Rightarrow> string \<Rightarrow> ('s consumer_scheme, unit) prog" where
  "mark_job_cancelled E job_id mid =
     bind (now_iso E) (\<lambda>t. bind (gets c_qpu_id) (\<lambda>q.
       bind (safe_hset E (status_key job_id)
          [(''state'', ''cancelled''), (''cancelled_at'', t), (''message_id'', mid), (''qpu_id'', q)])
         (\<lambda>_. ret ())))"

definition request_runner_cancel :: "env \<Rightarrow> ('s world_scheme, unit) prog" where
  "request_runner_cancel E =
     bind (gets (\<lambda>s. e_cancel_hook E (trace s))) (\<lambda>hook.
       case hook of
         None \<Rightarrow> ret ()
       | Some r \<Rightarrow>
           bind (emit (EvCancelHook r)) (\<lambda>_.
             catch (of_opt r) (\<lambda>e. if is_Exception e then Some (ret ()) else None)))"

section \<open>Running a job\<close>

text \<open>Whether the task started last is done, read off the trace.\<close>

fun task_done :: "history \<Rightarrow> bool" where
  "task_done [] = False"
| "task_done (ev # h) =
     (case ev of
        EvWait (Inr (Some _)) \<Rightarrow> True
      | EvTaskCancel _ \<Rightarrow> True
      | EvRunStart _ _ \<Rightarrow> False
      | _ \<Rightarrow> task_done h)"

text \<open>
  The body of \<^verbatim>\<open>while True\<close>.  After a cancel signal the task is cancelled and awaited;
  whatever it then raises or returns is dropped.
\<close>

fun poll_loop :: "env \<Rightarrow> nat \<Rightarrow> string \<Rightarrow> ('s world_scheme, exec_result) prog" where
  "poll_loop E 0 job_id = stuck"
| "poll_loop E (Suc fuel) job_id =
     bind (bind (ask (e_wait E) EvWait) of_sum) (\<lambda>done.
       case done of
         Some r \<Rightarrow>
           bind (of_sum r) (\<lambda>result.
             bind (has_cancel_signal E job_id) (\<lambda>c.
               if c then raise JobCancelledWhileExecuting else ret result))
       | None \<Rightarrow>
           bind (has_cancel_signal E job_id) (\<lambda>c.
             if c then
               bind (request_runner_cancel E) (\<lambda>_.
                 bind (ask (e_task_cancel E) EvTaskCancel) (\<lambda>_.
                   raise JobCancelledWhileExecuting))
             else poll_loop E fuel job_id))"

definition run_job_with_cancellation ::
  "env \<Rightarrow> nat \<Rightarrow> string \<Rightarrow> native_gate_ir \<Rightarrow> int \<Rightarrow> ('s world_scheme, exec_result) prog" where
  "run_job_with_cancellation E fuel job_id ir shots =
     bind (emit (EvRunStart ir shots)) (\<lambda>_.
       finally_do (poll_loop E fuel job_id)
         (bind (gets (\<lambda>s. task_done (trace s))) (\<lambda>d. if d then ret () else emit EvTaskAbort)))"

section \<open>One message\<close>

definition completed_payload :: "string \<Rightarrow> exec_result \<Rightarrow> webhook_payload" where
  "completed_payload job_id res =
     \<lparr>wp_job_id = job_id, wp_status = ''completed'', wp_counts = Some (counts res),
      wp_execution_time_ms = Some (execution_time_ms res),
      wp_shots_completed = Some (shots_completed res), wp_error = None\<rparr>"

definition parse_job :: "env \<Rightarrow> (string \<times> string) list \<Rightarrow> exc + job" where
  "parse_job E d =
     sbind (dict_get d ''ir_json'') (\<lambda>j.
     sbind (case from_json (e_ir E) j of Inl es \<Rightarrow> Inl (ValidationErr es) | Inr ir \<Rightarrow> Inr ir) (\<lambda>ir.
     sbind (dict_get d ''shots'') (\<lambda>t.
       case py_int t of None \<Rightarrow> Inl (ValueErr t) | Some n \<Rightarrow> Inr (ir, n))))"

definition check_cancel :: "env \<Rightarrow> string \<Rightarrow> ('s world_scheme, unit) prog" where
  "check_cancel E job_id =
     bind (has_cancel_signal E job_id) (\<lambda>c. if c then raise JobCancelledWhileExecuting else ret ())"

text \<open>The \<^verbatim>\<open>try\<close> body of \<^verbatim>\<open>_process_message\<close>.\<close>

definition execute_and_report ::
  "env \<Rightarrow> nat \<Rightarrow> string \<Rightarrow> string \<Rightarrow> (string \<times> string) list \<Rightarrow> ('s consumer_scheme, unit) prog" where
  "execute_and_report E fuel job_id url d =
     bind (of_sum (parse_job E d)) (\<lambda>(ir, shots).
     bind (run_job_with_cancellation E fuel job_id ir shots) (\<lambda>res.
     bind (check_cancel E job_id) (\<lambda>_.
     bind (now_iso E) (\<lambda>t.
     bind (safe_hset E (status_key job_id) [(''state'', ''completed''), (''completed_at'', t)]) (\<lambda>_.
     bind (check_cancel E job_id) (\<lambda>_.
     bind (gets c_webhook) (\<lambda>w.
     bind (send_result E w url (completed_payload job_id res)) (\<lambda>_.
     bind (now_iso E) (\<lambda>t'. modify (\<lambda>s. s\<lparr>last_job_at := Some t'\<rparr>))))))))))"

text \<open>The clause \<^verbatim>\<open>except Exception as exc\<close>.\<close>

definition report_failure ::
  "env \<Rightarrow> string \<Rightarrow> string \<Rightarrow> string \<Rightarrow> exc \<Rightarrow> ('s consumer_scheme, unit) prog" where
  "report_failure E mid job_id url e =
     bind (has_cancel_signal E job_id) (\<lambda>c.
       if c then mark_job_cancelled E job_id mid
       else
         bind (now_iso E) (\<lambda>t.
         bind (safe_hset E (status_key job_id)
            [(''state'', ''failed''), (''error'', take 500 (e_str E e)), (''failed_at'', t)]) (\<lambda>_.
         bind (gets c_webhook) (\<lambda>w.
           catch (send_error E w url job_id (take 500 (e_str E e)))
             (\<lambda>e'. if is_Exception e' then Some (ret ()) else None)))))"

definition run_handlers ::
  "env \<Rightarrow> string \<Rightarrow> string \<Rightarrow> string \<Rightarrow> exc \<Rightarrow> ('s consumer_scheme, unit) prog option" where
  "run_handlers E mid job_id url e =
     (if e = JobCancelledWhileExecuting then Some (mark_job_cancelled E job_id mid)
      else if is_Exception e then Some (report_failure E mid job_id url e)
      else None)"

text \<open>The \<^verbatim>\<open>try\<close> statement with its two \<^verbatim>\<open>except\<close> clauses.\<close>

definition guarded_job ::
  "env \<Rightarrow> nat \<Rightarrow> string \<Rightarrow> string \<Rightarrow> string \<Rightarrow> (string \<times> string) list \<Rightarrow> ('s consumer_scheme, unit) prog" where
  "guarded_job E fuel mid job_id url d =
     catch (execute_and_report E fuel job_id url d) (run_handlers E mid job_id url)"

definition release :: "env \<Rightarrow> string \<Rightarrow> ('s consumer_scheme, unit) prog" where
  "release E mid =
     bind (safe_xack E mid) (\<lambda>_.
       modify (\<lambda>s. s\<lparr>current_job_id := None, c_idle_event := True\<rparr>))"

text \<open>The part after the skip checks: from \<^verbatim>\<open>_idle_event.clear()\<close> to the end.\<close>

definition start_job ::
  "env \<Rightarrow> nat \<Rightarrow> string \<Rightarrow> string \<Rightarrow> string \<Rightarrow> (string \<times> string) list \<Rightarrow> ('s consumer_scheme, unit) prog" where
  "start_job E fuel mid job_id url d =
     bind (modify (\<lambda>s. s\<lparr>c_idle_event := False, current_job_id := Some job_id\<rparr>)) (\<lambda>_.
     bind (now_iso E) (\<lambda>t. bind (gets c_qpu_id) (\<lambda>q.
     bind (safe_hset E (status_key job_id)
        [(''state'', ''executing''), (''started_at'', t), (''message_id'', mid), (''qpu_id'', q)]) (\<lambda>_.
       finally_do (guarded_job E fuel mid job_id url d) (release E mid)))))"

definition process_message :: "env \<Rightarrow> nat \<Rightarrow> string \<Rightarrow> fields \<Rightarrow> ('s consumer_scheme, unit) prog" where
  "process_message E fuel mid fs =
     bind (of_sum (decode_fields E fs)) (\<lambda>d.
       case sbind (dict_get d ''job_id'') (\<lambda>j. sbind (dict_get d ''callback_url'') (\<lambda>u. Inr (j, u))) of
         Inl _ \<Rightarrow> bind (safe_xack E mid) (\<lambda>_. ret ())
       | Inr (job_id, url) \<Rightarrow>
           bind (get_job_status E job_id) (\<lambda>status.
             if status = Some ''completed'' \<or> status = Some ''cancelled''
             then bind (safe_xack E mid) (\<lambda>_. ret ())
             else bind (has_cancel_signal E job_id) (\<lambda>c.
               if c then bind (mark_job_cancelled E job_id mid) (\<lambda>_.
                           bind (safe_xack E mid) (\<lambda>_. ret ()))
               else start_job E fuel mid job_id url d)))"

section \<open>Crash recovery\<close>

text \<open>Entries come one page of at most 100 at a time; the count of reprocessed messages is returned.\<close>

fun recover_entries :: "env \<Rightarrow> nat \<Rightarrow> string list \<Rightarrow> nat \<Rightarrow> ('s consumer_scheme, nat) prog" where
  "recover_entries E fuel [] n = ret n"
| "recover_entries E fuel (mid # mids) n =
     bind (bind (ask (\<lambda>h. e_xrange E h mid) (EvXrange mid)) of_sum) (\<lambda>msgs.
       case msgs of
         [] \<Rightarrow> recover_entries E fuel mids n
       | m # _ \<Rightarrow> bind (process_message E fuel mid (snd m)) (\<lambda>_. recover_entries E fuel mids (Suc n)))"

definition recover_pending :: "env \<Rightarrow> nat \<Rightarrow> ('s consumer_scheme, nat) prog" where
  "recover_pending E fuel =
     bind (bind (ask (e_xpending E) EvXpending) of_sum) (\<lambda>mids. recover_entries E fuel mids 0)"

section \<open>Rules\<close>

lemma wp_safe_hset [wp_simps]:
  "wp (safe_hset E key m) Q s =
   (let r = e_hset E (trace s) key m; s' = trace_update (\<lambda>h. EvHset key m r # h) s
    in case r of None \<Rightarrow> Q (Ret True) s' | Some e \<Rightarrow> if is_conn e then Q (Ret False) s' else Q (Raise e) s')"
  by (auto simp: safe_hset_def wp_simps Let_def split: option.split)

lemma wp_safe_xack [wp_simps]:
  "wp (safe_xack E mid) Q s =
   (let r = e_xack E (trace s) mid; s' = trace_update (\<lambda>h. EvXack mid r # h) s
    in case r of None \<Rightarrow> Q (Ret True) s' | Some e \<Rightarrow> if is_conn e then Q (Ret False) s' else Q (Raise e) s')"
  by (auto simp: safe_xack_def wp_simps Let_def split: option.split)

lemma wp_has_cancel_signal [wp_simps]:
  "wp (has_cancel_signal E j) Q s =
   (let r = e_get E (trace s) (cancel_key j); s' = trace_update (\<lambda>h. EvGet (cancel_key j) r # h) s
    in case r of Inl e \<Rightarrow> Q (Raise e) s' | Inr v \<Rightarrow> Q (Ret (v \<noteq> None)) s')"
  by (simp add: has_cancel_signal_def wp_simps Let_def split: sum.split)

section \<open>A concrete job\<close>

text \<open>One message and one consumer, and an environment in which the cloud cancels late.\<close>

definition sample_client :: webhook_client where
  "sample_client = webhook_client_init ''q'' ''key'' ''k1'' MAX_RETRIES None"

definition sample_fields :: fields where
  "sample_fields = [(RStr ''job_id'', RStr ''j1''), (RStr ''callback_url'', RStr ''u''),
     (RStr ''ir_json'', RStr ''{}''), (RStr ''shots'', RStr ''7'')]"

definition sample_dict :: "(string \<times> string) list" where
  "sample_dict = [(''job_id'', ''j1''), (''callback_url'', ''u''), (''ir_json'', ''{}''), (''shots'', ''7'')]"

definition sample_consumer :: consumer where
  "sample_consumer = consumer_init sample_client ''q'' True"

definition late_cancel_env :: env where
  "late_cancel_env = calm_env\<lparr>e_get := (\<lambda>h _. Inr (if 6 < length h then Some ''1'' else None))\<rparr>"

definition late_cancel_run :: "unit outcome \<times> consumer" where
  "late_cancel_run = process_message late_cancel_env 9 ''1-0'' sample_fields sample_consumer"

definition calm_run :: "unit outcome \<times> consumer" where
  "calm_run = process_message calm_env 9 ''1-0'' sample_fields sample_consumer"

lemma late_cancel_run_eq:
  "process_message late_cancel_env 9 ''1-0'' sample_fields sample_consumer = (Ret (), snd late_cancel_run)"
  by (subst run_eq [of _ _ "Ret ()"]) (code_simp, simp add: late_cancel_run_def)

lemma calm_run_eq:
  "process_message calm_env 9 ''1-0'' sample_fields sample_consumer = (Ret (), snd calm_run)"
  by (subst run_eq [of _ _ "Ret ()"]) (code_simp, simp add: calm_run_def)

lemma sample_facts:
  "decode_fields calm_env sample_fields = Inr sample_dict"
  "decode_fields late_cancel_env sample_fields = Inr sample_dict"
  "map_of sample_dict ''job_id'' = Some ''j1''" "map_of sample_dict ''callback_url'' = Some ''u''"
  "0 < wc_max_retries (c_webhook sample_consumer)"
  "trace sample_consumer = []" "c_idle_event sample_consumer" "current_job_id sample_consumer = None"
  by code_simp+

end
