(* ===== verification/Consumer_Batch.thy ===== *)
theory Consumer_Batch
  imports Consumer
begin

text \<open>
  The batch path and the main loop of \<^verbatim>\<open>server/consumer.py\<close>: \<^verbatim>\<open>_process_batch\<close> with its
  nested delivery coroutines, \<^verbatim>\<open>setup\<close>, \<^verbatim>\<open>consume_loop\<close>, \<^verbatim>\<open>stop\<close> and \<^verbatim>\<open>drain\<close>.

  Deliveries of one batch run concurrently under \<^verbatim>\<open>asyncio.gather\<close>.  Each is a coroutine with
  a program counter \<open>dpc\<close>; one \<open>deliver_step\<close> runs it from one await to the next, and
  \<open>gather_run\<close> lets the scheduler of the environment choose whose turn it is.  The first
  delivery that raises decides the outcome of \<^verbatim>\<open>gather\<close> (which then sets the idle event); the
  others go on, as \<^verbatim>\<open>gather\<close> does not cancel them.  A delivery task runs when it is awaited:
  between its creation and the await the loop performs a single \<^verbatim>\<open>XREADGROUP\<close>, and the two
  share no state.
\<close>

section \<open>Deliveries\<close>

datatype dpc =
    CheckFirst
  | SetCompleted
  | CheckSecond
  | Posting nat nat
  | Pausing nat nat exc
  | MarkCancelled
  | Acking
  | DeliveryDone
  | DeliveryFailed exc

type_synonym delivery = "string \<times> string \<times> string \<times> exec_result"

text \<open>\<^verbatim>\<open>_deliver_single_batch_result\<close> as one sequential coroutine.\<close>

definition cancel_and_ack :: "env \<Rightarrow> string \<Rightarrow> string \<Rightarrow> ('s consumer_scheme, unit) prog" where
  "cancel_and_ack E job_id mid =
     bind (mark_job_cancelled E job_id mid) (\<lambda>_. bind (safe_xack E mid) (\<lambda>_. ret ()))"

definition deliver_single_batch_result ::
  "env \<Rightarrow> string \<Rightarrow> delivery \<Rightarrow> ('s consumer_scheme, unit) prog" where
  "deliver_single_batch_result E completed_at dl =
     (case dl of (mid, job_id, url, res) \<Rightarrow>
       bind (has_cancel_signal E job_id) (\<lambda>c.
         if c then cancel_and_ack E job_id mid
         else
           bind (safe_hset E (status_key job_id)
              [(''state'', ''completed''), (''completed_at'', completed_at)]) (\<lambda>_.
           bind (has_cancel_signal E job_id) (\<lambda>c'.
             if c' then cancel_and_ack E job_id mid
             else
               bind (gets c_webhook) (\<lambda>w.
               bind (catch (send_result E w url (completed_payload job_id res))
                       (\<lambda>e. if is_Exception e then Some (ret ()) else None)) (\<lambda>_.
               bind (safe_xack E mid) (\<lambda>_. ret ())))))))"

text \<open>The same coroutine, one await at a time.\<close>

definition start_posting :: "webhook_client \<Rightarrow> dpc" where
  "start_posting w = (if wc_max_retries w \<le> 0 then Acking else Posting 1 (nat (wc_max_retries w)))"

definition log_and_ack :: "('s, dpc) prog \<Rightarrow> ('s, dpc) prog" where
  "log_and_ack m = catch m (\<lambda>e. if is_Exception e then Some (ret Acking) else None)"

definition deliver_await :: "env \<Rightarrow> string \<Rightarrow> delivery \<Rightarrow> dpc \<Rightarrow> ('s consumer_scheme, dpc) prog" where
  "deliver_await E completed_at dl pc =
     (case dl of (mid, job_id, url, res) \<Rightarrow>
      case pc of
        CheckFirst \<Rightarrow>
          bind (has_cancel_signal E job_id) (\<lambda>c. ret (if c then MarkCancelled else SetCompleted))
      | SetCompleted \<Rightarrow>
          bind (safe_hset E (status_key job_id)
             [(''state'', ''completed''), (''completed_at'', completed_at)]) (\<lambda>_. ret CheckSecond)
      | CheckSecond \<Rightarrow>
          bind (has_cancel_signal E job_id) (\<lambda>c.
          bind (gets c_webhook) (\<lambda>w. ret (if c then MarkCancelled else start_posting w)))
      | Posting k n \<Rightarrow>
          bind (gets c_webhook) (\<lambda>w.
            log_and_ack (bind (post_once E w url (to_dict (completed_payload job_id res))) (\<lambda>r.
              ret (case r of None \<Rightarrow> Acking | Some e \<Rightarrow> Pausing k (n - 1) e))))
      | Pausing k n e \<Rightarrow>
          log_and_ack (bind (sleep E (2 ^ (k - 1))) (\<lambda>_.
            ret (if n = 0 then Acking else Posting (Suc k) n)))
      | MarkCancelled \<Rightarrow> bind (mark_job_cancelled E job_id mid) (\<lambda>_. ret Acking)
      | Acking \<Rightarrow> bind (safe_xack E mid) (\<lambda>_. ret DeliveryDone)
      | _ \<Rightarrow> ret pc)"

definition deliver_step :: "env \<Rightarrow> string \<Rightarrow> delivery \<Rightarrow> dpc \<Rightarrow> ('s consumer_scheme, dpc) prog" where
  "deliver_step E completed_at dl pc =
     catch (deliver_await E completed_at dl pc) (\<lambda>e. Some (ret (DeliveryFailed e)))"

fun finished :: "dpc \<Rightarrow> bool" where
  "finished DeliveryDone = True"
| "finished (DeliveryFailed _) = True"
| "finished _ = False"

text \<open>An upper bound on the awaits a delivery still has to make.\<close>

fun awaits_left :: "nat \<Rightarrow> dpc \<Rightarrow> nat" where
  "awaits_left m CheckFirst = 2 * m + 6"
| "awaits_left m SetCompleted = 2 * m + 5"
| "awaits_left m CheckSecond = 2 * m + 4"
| "awaits_left m (Posting k n) = 2 * (n - 1) + 3"
| "awaits_left m (Pausing k n e) = 2 * n + 2"
| "awaits_left m MarkCancelled = 2"
| "awaits_left m Acking = 1"
| "awaits_left m DeliveryDone = 0"
| "awaits_left m (DeliveryFailed e) = 0"

definition runnable :: "dpc list \<Rightarrow> nat list" where
  "runnable pcs = filter (\<lambda>i. \<not> finished (pcs ! i)) [0..<length pcs]"

text \<open>The first exception of a delivery ends \<^verbatim>\<open>gather\<close>, whose \<^verbatim>\<open>finally\<close> clause runs at once.\<close>

definition note_failure :: "exc option \<Rightarrow> dpc \<Rightarrow> ('s consumer_scheme, exc option) prog" where
  "note_failure first pc =
     (case (first, pc) of
        (None, DeliveryFailed e) \<Rightarrow> bind (modify (\<lambda>s. s\<lparr>c_idle_event := True\<rparr>)) (\<lambda>_. ret (Some e))
      | _ \<Rightarrow> ret first)"

fun gather_run ::
  "env \<Rightarrow> nat \<Rightarrow> string \<Rightarrow> delivery list \<Rightarrow> dpc list \<Rightarrow> exc option \<Rightarrow> ('s consumer_scheme, exc option) prog" where
  "gather_run E fuel t dls pcs first =
     (if runnable pcs = [] then ret first
      else case fuel of
        0 \<Rightarrow> stuck
      | Suc fuel' \<Rightarrow>
          bind (gets (\<lambda>s. e_sched E (trace s))) (\<lambda>k.
            let i = runnable pcs ! (k mod length (runnable pcs)) in
            bind (deliver_step E t (dls ! i) (pcs ! i)) (\<lambda>pc.
            bind (note_failure first pc) (\<lambda>first'.
              gather_run E fuel' t dls (pcs[i := pc]) first'))))"

declare gather_run.simps [simp del]

definition gather_fuel :: "webhook_client \<Rightarrow> dpc list \<Rightarrow> nat" where
  "gather_fuel w pcs = sum_list (map (awaits_left (nat (wc_max_retries w))) pcs)"

text \<open>
  \<^verbatim>\<open>_deliver_batch_results\<close>.  \<^verbatim>\<open>zip(strict=True)\<close> raises while the arguments of \<^verbatim>\<open>gather\<close>
  are built, before any delivery has started.
\<close>

definition deliveries :: "parsed_job list \<Rightarrow> exec_result list \<Rightarrow> delivery list" where
  "deliveries parsed results = map (\<lambda>((mid, job_id, url, _, _), res). (mid, job_id, url, res)) (zip parsed results)"

definition gather_deliveries ::
  "env \<Rightarrow> string \<Rightarrow> parsed_job list \<Rightarrow> exec_result list \<Rightarrow> ('s consumer_scheme, unit) prog" where
  "gather_deliveries E t parsed results =
     (if length parsed \<noteq> length results then raise (ValueErr ''zip'')
      else
        let dls = deliveries parsed results; pcs = map (\<lambda>_. CheckFirst) dls in
        bind (gets c_webhook) (\<lambda>w.
        bind (gather_run E (gather_fuel w pcs) t dls pcs None) (\<lambda>first.
          case first of None \<Rightarrow> ret () | Some e \<Rightarrow> raise e)))"

definition deliver_batch_results ::
  "env \<Rightarrow> parsed_job list \<Rightarrow> exec_result list \<Rightarrow> ('s consumer_scheme, unit) prog" where
  "deliver_batch_results E parsed results =
     bind (now_iso E) (\<lambda>t.
       finally_do
         (bind (gather_deliveries E t parsed results) (\<lambda>_. modify (\<lambda>s. s\<lparr>last_job_at := Some t\<rparr>)))
         (modify (\<lambda>s. s\<lparr>c_idle_event := True\<rparr>)))"

section \<open>A batch\<close>

text \<open>One round of the parsing loop: the job, or \<open>None\<close> after a \<^verbatim>\<open>continue\<close>.\<close>

definition parse_message :: "env \<Rightarrow> message \<Rightarrow> ('s consumer_scheme, parsed_job option) prog" where
  "parse_message E m =
     (case m of (mid, fs) \<Rightarrow>
       let skip = bind (safe_xack E mid) (\<lambda>_. ret None) in
       bind (of_sum (decode_fields E fs)) (\<lambda>d.
         case sbind (dict_get d ''job_id'') (\<lambda>j. sbind (dict_get d ''callback_url'') (\<lambda>u. Inr (j, u))) of
           Inl _ \<Rightarrow> skip
         | Inr (job_id, url) \<Rightarrow>
             bind (get_job_status E job_id) (\<lambda>status.
               if status = Some ''completed'' \<or> status = Some ''cancelled'' then skip
               else bind (has_cancel_signal E job_id) (\<lambda>c.
                 if c then bind (mark_job_cancelled E job_id mid) (\<lambda>_. skip)
                 else case parse_job E d of
                     Inl _ \<Rightarrow> skip
                   | Inr (ir, shots) \<Rightarrow> ret (Some (mid, job_id, url, ir, shots))))))"

fun parse_batch :: "env \<Rightarrow> message list \<Rightarrow> ('s consumer_scheme, parsed_job list) prog" where
  "parse_batch E [] = ret []"
| "parse_batch E (m # ms) =
     bind (parse_message E m) (\<lambda>p. bind (parse_batch E ms) (\<lambda>ps.
       ret (case p of None \<Rightarrow> ps | Some x \<Rightarrow> x # ps)))"

definition mark_executing :: "env \<Rightarrow> parsed_job \<Rightarrow> ('s consumer_scheme, unit) prog" where
  "mark_executing E p =
     (case p of (_, job_id, _, _, _) \<Rightarrow>
       bind (now_iso E) (\<lambda>t. bind (gets c_qpu_id) (\<lambda>q.
       bind (safe_hset E (status_key job_id)
          [(''state'', ''executing''), (''started_at'', t), (''qpu_id'', q)]) (\<lambda>_. ret ()))))"

definition process_each :: "env \<Rightarrow> nat \<Rightarrow> message list \<Rightarrow> ('s consumer_scheme, unit) prog" where
  "process_each E fuel ms = for_each ms (\<lambda>(mid, fs). process_message E fuel mid fs)"

text \<open>The tail of \<^verbatim>\<open>_process_batch\<close>, for a non-empty list of parsed jobs.\<close>

definition run_batch :: "env \<Rightarrow> nat \<Rightarrow> message list \<Rightarrow> parsed_job list \<Rightarrow> ('s consumer_scheme, delivery_task option) prog" where
  "run_batch E fuel ms parsed =
     (let jobs = map (\<lambda>(_, _, _, ir, shots). (ir, shots)) parsed;
          fallback = bind (process_each E fuel ms) (\<lambda>_. ret None) in
      bind (modify (\<lambda>s. s\<lparr>c_idle_event := False\<rparr>)) (\<lambda>_.
      bind (for_each parsed (mark_executing E)) (\<lambda>_.
      bind (gets (\<lambda>s. e_batch_run E (trace s) jobs)) (\<lambda>br.
        case br of
          None \<Rightarrow> fallback
        | Some reply \<Rightarrow>
            bind (emit (EvBatchRun jobs reply)) (\<lambda>_.
              case reply of
                Inr results \<Rightarrow> ret (Some (Delivering parsed results))
              | Inl e \<Rightarrow> if is_Exception e then fallback else raise e)))))"

definition process_batch :: "env \<Rightarrow> nat \<Rightarrow> message list \<Rightarrow> ('s consumer_scheme, delivery_task option) prog" where
  "process_batch E fuel ms =
     bind (parse_batch E ms) (\<lambda>parsed. if parsed = [] then ret None else run_batch E fuel ms parsed)"

section \<open>The main loop\<close>

definition setup_group :: "env \<Rightarrow> ('s world_scheme, unit) prog" where
  "setup_group E =
     catch (bind (ask (e_xgroup E) EvXgroup) of_opt)
       (\<lambda>e. case e of ResponseErr msg \<Rightarrow> if str_in ''BUSYGROUP'' msg then Some (ret ()) else None | _ \<Rightarrow> None)"

text \<open>\<^verbatim>\<open>await self._pending_batch_delivery\<close> and, if that returns, resetting the field.\<close>

definition run_delivery :: "env \<Rightarrow> delivery_task \<Rightarrow> ('s consumer_scheme, unit) prog" where
  "run_delivery E task = (\<lambda>s.
     case (case task of
             Delivering parsed results \<Rightarrow> deliver_batch_results E parsed results s
           | Delivered r \<Rightarrow> (r, s)) of
       (r, s') \<Rightarrow> (r, s'\<lparr>c_pending_batch_delivery := Some (Delivered r)\<rparr>))"

definition await_delivery :: "env \<Rightarrow> ('s consumer_scheme, unit) prog" where
  "await_delivery E =
     bind (gets c_pending_batch_delivery) (\<lambda>p.
       case p of
         None \<Rightarrow> ret ()
       | Some task \<Rightarrow>
           bind (run_delivery E task) (\<lambda>_. modify (\<lambda>s. s\<lparr>c_pending_batch_delivery := None\<rparr>)))"

text \<open>The local variables of \<^verbatim>\<open>consume_loop\<close>.\<close>

record loop_state = consumer +
  consecutive_failures :: nat
  last_pending_check :: rat

definition PENDING_RECHECK_SECS :: rat where "PENDING_RECHECK_SECS = 60"
definition BACKOFF_BASE :: rat where "BACKOFF_BASE = 1"
definition BACKOFF_FACTOR :: rat where "BACKOFF_FACTOR = 2"
definition BACKOFF_MAX :: rat where "BACKOFF_MAX = 60"
definition BATCH_READ_COUNT :: nat where "BATCH_READ_COUNT = 100"

definition read_count :: "'s consumer_scheme \<Rightarrow> nat" where
  "read_count s = (if c_can_batch s then BATCH_READ_COUNT else 1)"

definition backoff :: "nat \<Rightarrow> rat" where
  "backoff failures = min (BACKOFF_BASE * BACKOFF_FACTOR ^ (failures - 1)) BACKOFF_MAX"

definition idle_recheck :: "env \<Rightarrow> nat \<Rightarrow> ('s loop_state_scheme, unit) prog" where
  "idle_recheck E fuel =
     bind (gets (\<lambda>s. (e_monotonic E (trace s), last_pending_check s))) (\<lambda>(now, last).
       if PENDING_RECHECK_SECS \<le> now - last then
         bind (recover_pending E fuel) (\<lambda>_. modify (\<lambda>s. s\<lparr>last_pending_check := now\<rparr>))
       else ret ())"

definition dispatch :: "env \<Rightarrow> nat \<Rightarrow> string \<times> message list \<Rightarrow> ('s consumer_scheme, unit) prog" where
  "dispatch E fuel sm =
     bind (gets c_can_batch) (\<lambda>can_batch.
       if can_batch \<and> 1 < length (snd sm) then
         bind (process_batch E fuel (snd sm)) (\<lambda>delivery.
           case delivery of
             None \<Rightarrow> ret ()
           | Some task \<Rightarrow> modify (\<lambda>s. s\<lparr>c_pending_batch_delivery := Some task\<rparr>))
       else process_each E fuel (snd sm))"

definition iteration_body :: "env \<Rightarrow> nat \<Rightarrow> ('s loop_state_scheme, unit) prog" where
  "iteration_body E fuel =
     bind (gets read_count) (\<lambda>n.
     bind (bind (ask (\<lambda>h. e_xread E h n) (EvXread n)) of_sum) (\<lambda>messages.
     bind (modify (\<lambda>s. s\<lparr>redis_healthy := True, consecutive_failures := 0\<rparr>)) (\<lambda>_.
     bind (await_delivery E) (\<lambda>_.
       if messages = [] then idle_recheck E fuel
       else for_each messages (dispatch E fuel)))))"

definition on_loop_error :: "env \<Rightarrow> exc \<Rightarrow> ('s loop_state_scheme, unit) prog option" where
  "on_loop_error E e =
     (if is_conn e then
        Some (bind (modify (\<lambda>s. s\<lparr>redis_healthy := False,
                               consecutive_failures := consecutive_failures s + 1\<rparr>)) (\<lambda>_.
              bind (gets (\<lambda>s. backoff (consecutive_failures s))) (sleep E)))
      else if is_Exception e then Some (sleep E 1)
      else None)"

definition consume_iteration :: "env \<Rightarrow> nat \<Rightarrow> ('s loop_state_scheme, unit) prog" where
  "consume_iteration E fuel = catch (iteration_body E fuel) (on_loop_error E)"

definition stop :: "('s consumer_scheme, unit) prog" where
  "stop = modify (\<lambda>s. s\<lparr>c_running := False\<rparr>)"

text \<open>
  The loop \<^verbatim>\<open>while self._running\<close>, followed for \<open>n\<close> iterations.  \<^verbatim>\<open>stop\<close> is called by
  another task: the environment says whether it has been called by now.
\<close>

fun consume_while :: "env \<Rightarrow> nat \<Rightarrow> nat \<Rightarrow> ('s loop_state_scheme, unit) prog" where
  "consume_while E fuel n =
     bind (gets (\<lambda>s. e_stop E (trace s))) (\<lambda>stopped.
     bind (if stopped then stop else ret ()) (\<lambda>_.
     bind (gets c_running) (\<lambda>running.
       if \<not> running then ret ()
       else case n of
         0 \<Rightarrow> stuck
       | Suc n' \<Rightarrow> bind (consume_iteration E fuel) (\<lambda>_. consume_while E fuel n'))))"

declare consume_while.simps [simp del]

definition consume_loop :: "env \<Rightarrow> nat \<Rightarrow> nat \<Rightarrow> ('s loop_state_scheme, unit) prog" where
  "consume_loop E fuel n =
     bind (modify (\<lambda>s. s\<lparr>c_running := True\<rparr>)) (\<lambda>_.
     bind (setup_group E) (\<lambda>_.
     bind (recover_pending E fuel) (\<lambda>_.
     bind (gets (\<lambda>s. e_monotonic E (trace s))) (\<lambda>now.
     bind (modify (\<lambda>s. s\<lparr>consecutive_failures := 0, last_pending_check := now\<rparr>)) (\<lambda>_.
       consume_while E fuel n)))))"

text \<open>
  \<^verbatim>\<open>drain\<close>, called by the shutdown code: \<open>e_idle_wait\<close> says whether the idle event is set
  before the timeout, \<open>e_drain_timeout\<close> whether the delivery outlives its timeout, in which case
  \<^verbatim>\<open>wait_for\<close> cancels it.
\<close>

definition drain :: "env \<Rightarrow> ('s consumer_scheme, bool) prog" where
  "drain E =
     bind stop (\<lambda>_.
     bind (gets (\<lambda>s. c_idle_event s \<or> e_idle_wait E (trace s))) (\<lambda>idle.
       if \<not> idle then ret False
       else
         bind (gets (\<lambda>s. (c_pending_batch_delivery s, e_drain_timeout E (trace s)))) (\<lambda>(p, late).
           case p of
             None \<Rightarrow> ret True
           | Some task \<Rightarrow>
               if late \<and> (case task of Delivering _ _ \<Rightarrow> True | Delivered _ \<Rightarrow> False) then
                 bind (modify (\<lambda>s. s\<lparr>c_pending_batch_delivery := Some (Delivered (Raise CancelledError))\<rparr>))
                   (\<lambda>_. ret False)
               else
                 catch (bind (await_delivery E) (\<lambda>_. ret True))
                   (\<lambda>e. if e_is_timeout E e then Some (ret False) else None))))"

end
