(* ===== verification/Monitors.thy ===== *)
theory Monitors
  imports World
begin

text \<open>
  Reasoning about what a program adds to the trace.  A monitor folds the new events, oldest first,
  into a summary value; \<open>mtriple J mon q m Post\<close> says that \<open>m\<close>, started in any state
  that satisfies \<open>J\<close> with summary \<open>q\<close>, keeps \<open>J\<close> and ends in an outcome and a
  summary that satisfy \<open>Post\<close>, whatever the environment replies.  The rules below compute
  such triples backwards through a program, one per combinator; the set is closed under
  composition, so a component's proof is a run of \<open>mtriple_intros\<close> with the specifications of
  its loops.
\<close>

definition mtriple ::
  "('s world_scheme \<Rightarrow> bool) \<Rightarrow> (event \<Rightarrow> 'q \<Rightarrow> 'q) \<Rightarrow> 'q \<Rightarrow> ('s world_scheme, 'a) prog \<Rightarrow>
   ('a outcome \<Rightarrow> 'q \<Rightarrow> bool) \<Rightarrow> bool" where
  "mtriple J mon q m Post \<longleftrightarrow>
     (\<forall>s. J s \<longrightarrow> wp m (\<lambda>r s'. J s' \<and> (\<exists>evs. trace s' = evs @ trace s \<and> Post r (foldr mon evs q))) s)"

lemma mtripleI:
  "(\<And>s. J s \<Longrightarrow> wp m (\<lambda>r s'. J s' \<and> (\<exists>evs. trace s' = evs @ trace s \<and> Post r (foldr mon evs q))) s)
   \<Longrightarrow> mtriple J mon q m Post"
  by (simp add: mtriple_def)

lemma mtripleD:
  assumes "mtriple J mon q m Post" and "J s" and "m s = (r, s')"
  shows "J s' \<and> (\<exists>evs. trace s' = evs @ trace s \<and> Post r (foldr mon evs q))"
  using assms by (auto simp: mtriple_def wp_def)

lemma mtriple_conseq:
  assumes "mtriple J mon q m R" and "\<And>r q'. R r q' \<Longrightarrow> Post r q'"
  shows "mtriple J mon q m Post"
  using assms by (fastforce simp: mtriple_def wp_def)

lemma mtriple_ret: "Post (Ret a) q \<Longrightarrow> mtriple J mon q (ret a) Post"
  by (auto simp: mtriple_def wp_simps)

lemma mtriple_raise: "Post (Raise e) q \<Longrightarrow> mtriple J mon q (raise e) Post"
  by (auto simp: mtriple_def wp_simps)

lemma mtriple_stuck: "Post Stuck q \<Longrightarrow> mtriple J mon q stuck Post"
  by (auto simp: mtriple_def wp_simps)

lemma mtriple_bind:
  assumes "mtriple J mon q m (\<lambda>r q'. case r of
     Ret a \<Rightarrow> mtriple J mon q' (f a) Post | Raise e \<Rightarrow> Post (Raise e) q' | Stuck \<Rightarrow> Post Stuck q')"
  shows "mtriple J mon q (bind m f) Post"
proof (rule mtripleI)
  fix s assume s: "J s"
  obtain r s' where m: "m s = (r, s')" by fastforce
  from mtripleD [OF assms s m] obtain evs where J: "J s'" and t: "trace s' = evs @ trace s"
    and P: "case r of Ret a \<Rightarrow> mtriple J mon (foldr mon evs q) (f a) Post
       | Raise e \<Rightarrow> Post (Raise e) (foldr mon evs q) | Stuck \<Rightarrow> Post Stuck (foldr mon evs q)" by blast
  show "wp (bind m f) (\<lambda>r s'. J s' \<and> (\<exists>evs. trace s' = evs @ trace s \<and> Post r (foldr mon evs q))) s"
  proof (cases r)
    case (Ret a)
    obtain r2 s2 where f: "f a s' = (r2, s2)" by fastforce
    from P Ret have "mtriple J mon (foldr mon evs q) (f a) Post" by simp
    from mtripleD [OF this J f] obtain evs2 where "J s2" "trace s2 = evs2 @ trace s'"
      "Post r2 (foldr mon evs2 (foldr mon evs q))" by blast
    with t show ?thesis
      by (auto simp: wp_def bind_def catch_def finally_do_def m Ret f intro!: exI [of _ "evs2 @ evs"])
  qed (use P J t in \<open>auto simp: wp_def bind_def catch_def finally_do_def m\<close>)
qed

lemma mtriple_catch:
  assumes "mtriple J mon q m (\<lambda>r q'. case r of
     Raise e \<Rightarrow> (case h e of None \<Rightarrow> Post (Raise e) q' | Some n \<Rightarrow> mtriple J mon q' n Post)
   | Ret a \<Rightarrow> Post (Ret a) q' | Stuck \<Rightarrow> Post Stuck q')"
  shows "mtriple J mon q (catch m h) Post"
proof (rule mtripleI)
  fix s assume s: "J s"
  obtain r s' where m: "m s = (r, s')" by fastforce
  from mtripleD [OF assms s m] obtain evs where J: "J s'" and t: "trace s' = evs @ trace s"
    and P: "case r of
     Raise e \<Rightarrow> (case h e of None \<Rightarrow> Post (Raise e) (foldr mon evs q)
        | Some n \<Rightarrow> mtriple J mon (foldr mon evs q) n Post)
   | Ret a \<Rightarrow> Post (Ret a) (foldr mon evs q) | Stuck \<Rightarrow> Post Stuck (foldr mon evs q)" by blast
  show "wp (catch m h) (\<lambda>r s'. J s' \<and> (\<exists>evs. trace s' = evs @ trace s \<and> Post r (foldr mon evs q))) s"
  proof (cases "\<exists>e n. r = Raise e \<and> h e = Some n")
    case True
    then obtain e n where e: "r = Raise e" "h e = Some n" by blast
    obtain r2 s2 where n: "n s' = (r2, s2)" by fastforce
    from P e have "mtriple J mon (foldr mon evs q) n Post" by simp
    from mtripleD [OF this J n] obtain evs2 where "J s2" "trace s2 = evs2 @ trace s'"
      "Post r2 (foldr mon evs2 (foldr mon evs q))" by blast
    with t show ?thesis
      by (auto simp: wp_def bind_def catch_def finally_do_def m e n intro!: exI [of _ "evs2 @ evs"])
  next
    case False
    with P J t show ?thesis
      by (auto simp: wp_def bind_def catch_def finally_do_def m split: outcome.splits option.splits)
  qed
qed

lemma mtriple_finally:
  assumes "mtriple J mon q m (\<lambda>r q'. if r = Stuck then Post Stuck q' else
     mtriple J mon q' c (\<lambda>r' q''. case r' of Ret _ \<Rightarrow> Post r q'' | Raise e \<Rightarrow> Post (Raise e) q'' | Stuck \<Rightarrow> Post Stuck q''))"
  shows "mtriple J mon q (finally_do m c) Post"
proof (rule mtripleI)
  fix s assume s: "J s"
  obtain r s' where m: "m s = (r, s')" by fastforce
  from mtripleD [OF assms s m] obtain evs where J: "J s'" and t: "trace s' = evs @ trace s"
    and P: "if r = Stuck then Post Stuck (foldr mon evs q) else
     mtriple J mon (foldr mon evs q) c (\<lambda>r' q''. case r' of Ret _ \<Rightarrow> Post r q'' | Raise e \<Rightarrow> Post (Raise e) q'' | Stuck \<Rightarrow> Post Stuck q'')"
    by blast
  obtain r2 s2 where c: "c s' = (r2, s2)" by fastforce
  show "wp (finally_do m c) (\<lambda>r s'. J s' \<and> (\<exists>evs. trace s' = evs @ trace s \<and> Post r (foldr mon evs q))) s"
  proof (cases "r = Stuck")
    case True
    with P J t show ?thesis by (auto simp: wp_def bind_def catch_def finally_do_def m)
  next
    case False
    with P have "mtriple J mon (foldr mon evs q) c (\<lambda>r' q''. case r' of Ret _ \<Rightarrow> Post r q'' | Raise e \<Rightarrow> Post (Raise e) q'' | Stuck \<Rightarrow> Post Stuck q'')"
      by simp
    from mtripleD [OF this J c] obtain evs2 where "J s2" "trace s2 = evs2 @ trace s'"
      "case r2 of Ret _ \<Rightarrow> Post r (foldr mon (evs2 @ evs) q) | Raise e \<Rightarrow> Post (Raise e) (foldr mon (evs2 @ evs) q)
       | Stuck \<Rightarrow> Post Stuck (foldr mon (evs2 @ evs) q)"
      unfolding foldr_append comp_def by blast
    with t False show ?thesis
      by (auto simp: wp_def bind_def catch_def finally_do_def m c split: outcome.splits
          intro!: exI [of _ "evs2 @ evs"])
  qed
qed

lemma mtriple_gets: "(\<And>s. J s \<Longrightarrow> Post (Ret (f s)) q) \<Longrightarrow> mtriple J mon q (gets f) Post"
  by (auto simp: mtriple_def wp_simps)

lemma mtriple_modify:
  "(\<And>s. J s \<Longrightarrow> J (f s) \<and> trace (f s) = trace s) \<Longrightarrow> Post (Ret ()) q \<Longrightarrow> mtriple J mon q (modify f) Post"
  by (auto simp: mtriple_def wp_simps)

lemma mtriple_of_sum:
  "(\<And>e. r = Inl e \<Longrightarrow> Post (Raise e) q) \<Longrightarrow> (\<And>a. r = Inr a \<Longrightarrow> Post (Ret a) q) \<Longrightarrow>
   mtriple J mon q (of_sum r) Post"
  by (cases r) (auto simp: of_sum_def mtriple_ret mtriple_raise)

lemma mtriple_of_opt:
  "(\<And>e. r = Some e \<Longrightarrow> Post (Raise e) q) \<Longrightarrow> (r = None \<Longrightarrow> Post (Ret ()) q) \<Longrightarrow>
   mtriple J mon q (of_opt r) Post"
  by (cases r) (auto simp: of_opt_def mtriple_ret mtriple_raise)

lemma mtriple_if:
  "(b \<Longrightarrow> mtriple J mon q m Post) \<Longrightarrow> (\<not> b \<Longrightarrow> mtriple J mon q n Post) \<Longrightarrow>
   mtriple J mon q (if b then m else n) Post"
  by simp

text \<open>The invariant \<open>J\<close> may not depend on the trace.\<close>

definition traceless :: "('s world_scheme \<Rightarrow> bool) \<Rightarrow> bool" where
  "traceless J \<longleftrightarrow> (\<forall>s f. J (trace_update f s) = J s)"

lemma mtriple_emit: "traceless J \<Longrightarrow> Post (Ret ()) (mon ev q) \<Longrightarrow> mtriple J mon q (emit ev) Post"
  by (auto simp: mtriple_def wp_simps traceless_def intro!: exI [of _ "[ev]"])

lemma mtriple_ask:
  "traceless J \<Longrightarrow> (\<And>r. Post (Ret r) (mon (ev r) q)) \<Longrightarrow> mtriple J mon q (ask reply ev) Post"
  by (auto simp: mtriple_def wp_simps traceless_def Let_def)

lemma mtriple_now_iso: "(\<And>t. Post (Ret t) q) \<Longrightarrow> mtriple J mon q (now_iso E) Post"
  by (auto simp: now_iso_def intro!: mtriple_gets)

lemma mtriple_hset:
  assumes "traceless J" and "\<And>e. Post (Raise e) (mon (EvHset key m (Some e)) q)"
    and "Post (Ret ()) (mon (EvHset key m None) q)"
  shows "mtriple J mon q (hset E key m) Post"
  unfolding hset_def
  by (rule mtriple_bind, rule mtriple_ask [OF assms(1)]) (auto intro!: mtriple_of_opt assms)

lemma mtriple_xack:
  assumes "traceless J" and "\<And>e. Post (Raise e) (mon (EvXack mid (Some e)) q)"
    and "Post (Ret ()) (mon (EvXack mid None) q)"
  shows "mtriple J mon q (xack E mid) Post"
  unfolding xack_def
  by (rule mtriple_bind, rule mtriple_ask [OF assms(1)]) (auto intro!: mtriple_of_opt assms)

lemma mtriple_redis_get:
  assumes "traceless J" and "\<And>e. Post (Raise e) (mon (EvGet key (Inl e)) q)"
    and "\<And>v. Post (Ret v) (mon (EvGet key (Inr v)) q)"
  shows "mtriple J mon q (redis_get E key) Post"
  unfolding redis_get_def
  by (rule mtriple_bind, rule mtriple_ask [OF assms(1)]) (auto intro!: mtriple_of_sum assms)

lemma mtriple_redis_hget:
  assumes "traceless J" and "\<And>e. Post (Raise e) (mon (EvHget key f (Inl e)) q)"
    and "\<And>v. Post (Ret v) (mon (EvHget key f (Inr v)) q)"
  shows "mtriple J mon q (redis_hget E key f) Post"
  unfolding redis_hget_def
  by (rule mtriple_bind, rule mtriple_ask [OF assms(1)]) (auto intro!: mtriple_of_sum assms)

lemma mtriple_sleep:
  assumes "traceless J" and "\<And>e. Post (Raise e) (mon (EvSleep d (Some e)) q)"
    and "Post (Ret ()) (mon (EvSleep d None) q)"
  shows "mtriple J mon q (sleep E d) Post"
  unfolding sleep_def
  by (rule mtriple_bind, rule mtriple_ask [OF assms(1)]) (auto intro!: mtriple_of_opt assms)

lemmas mtriple_intros =
  mtriple_ret mtriple_raise mtriple_stuck mtriple_bind mtriple_catch mtriple_finally mtriple_gets
  mtriple_of_sum mtriple_of_opt mtriple_emit mtriple_ask mtriple_now_iso mtriple_hset mtriple_xack
  mtriple_redis_get mtriple_redis_hget mtriple_sleep

end
