(* ===== verification/Consumer_Safety.thy ===== *)
theory Consumer_Safety
  imports Consumer Monitors
begin

text \<open>
  Safety of \<^verbatim>\<open>RedisConsumer._process_message\<close> against every environment: acknowledgement,
  cancellation, the order of status records, delivery of completed results and release of the
  in-flight markers.
\<close>

section \<open>Rules for the consumer's helpers\<close>

lemma mtriple_safe_hset:
  assumes "traceless J" and "\<And>b r. Post (Ret b) (mon (EvHset key m r) q)"
    and "\<And>e. \<not> is_conn e \<Longrightarrow> Post (Raise e) (mon (EvHset key m (Some e)) q)"
  shows "mtriple J mon q (safe_hset E key m) Post"
  unfolding safe_hset_def using assms by (auto intro!: mtriple_intros)

lemma mtriple_safe_xack:
  assumes "traceless J" and "\<And>b r. Post (Ret b) (mon (EvXack mid r) q)"
    and "\<And>e. \<not> is_conn e \<Longrightarrow> Post (Raise e) (mon (EvXack mid (Some e)) q)"
  shows "mtriple J mon q (safe_xack E mid) Post"
  unfolding safe_xack_def using assms by (auto intro!: mtriple_intros)

lemma mtriple_has_cancel_signal:
  assumes "traceless J" and "\<And>e. Post (Raise e) (mon (EvGet (cancel_key j) (Inl e)) q)"
    and "\<And>v. Post (Ret (v \<noteq> None)) (mon (EvGet (cancel_key j) (Inr v)) q)"
  shows "mtriple J mon q (has_cancel_signal E j) Post"
  unfolding has_cancel_signal_def using assms by (auto intro!: mtriple_intros)

lemma mtriple_check_cancel:
  assumes "traceless J" and "\<And>e. Post (Raise e) (mon (EvGet (cancel_key j) (Inl e)) q)"
    and "\<And>v. Post (Raise JobCancelledWhileExecuting) (mon (EvGet (cancel_key j) (Inr (Some v))) q)"
    and "Post (Ret ()) (mon (EvGet (cancel_key j) (Inr None)) q)"
  shows "mtriple J mon q (check_cancel E j) Post"
  unfolding check_cancel_def using assms
  by (auto intro!: mtriple_intros mtriple_has_cancel_signal)

lemma mtriple_get_job_status:
  assumes "traceless J" and "\<And>e x. Post (Raise e) (mon (EvHget (status_key j) ''state'' x) q)"
    and "\<And>t x. Post (Ret t) (mon (EvHget (status_key j) ''state'' x) q)"
  shows "mtriple J mon q (get_job_status E j) Post"
  unfolding get_job_status_def using assms
  by (auto intro!: mtriple_intros split: option.split)

lemma mtriple_mark_job_cancelled:
  assumes "traceless J"
    and "\<And>m r. map_of m ''state'' = Some ''cancelled'' \<Longrightarrow> Post (Ret ()) (mon (EvHset (status_key j) m r) q)"
    and "\<And>m e. map_of m ''state'' = Some ''cancelled'' \<Longrightarrow> \<not> is_conn e \<Longrightarrow>
      Post (Raise e) (mon (EvHset (status_key j) m (Some e)) q)"
  shows "mtriple J mon q (mark_job_cancelled E j mid) Post"
  unfolding mark_job_cancelled_def using assms
  by (auto intro!: mtriple_intros mtriple_safe_hset)

lemma mtriple_request_runner_cancel:
  assumes "traceless J" and "Post (Ret ()) q" and "\<And>r. Post (Ret ()) (mon (EvCancelHook r) q)"
    and "Post (Raise CancelledError) (mon (EvCancelHook (Some CancelledError)) q)"
  shows "mtriple J mon q (request_runner_cancel E) Post"
  unfolding request_runner_cancel_def using assms
  by (auto intro!: mtriple_intros simp: is_Exception_def split: option.split)

lemmas consumer_intros =
  mtriple_safe_hset mtriple_safe_xack mtriple_has_cancel_signal mtriple_check_cancel
  mtriple_get_job_status mtriple_mark_job_cancelled mtriple_request_runner_cancel

section \<open>What is observed about one message\<close>

text \<open>
  For a job and the stream message that carries it: acknowledgements, whether a cancel flag was
  read as set, whether a webhook was posted after that, the states written to the status hash in
  order, whether a \<^verbatim>\<open>completed\<close> webhook of the job was answered 2xx, and whether the executor
  was started.
\<close>

record job_log =
  jl_acks :: nat
  jl_cancel :: bool
  jl_bad_post :: bool
  jl_states :: "string list"
  jl_delivered :: bool
  jl_started :: bool

definition job_log0 :: job_log where
  "job_log0 = \<lparr>jl_acks = 0, jl_cancel = False, jl_bad_post = False, jl_states = [], jl_delivered = False, jl_started = False\<rparr>"

definition completed_for :: "string \<Rightarrow> body \<Rightarrow> bool" where
  "completed_for j b \<longleftrightarrow> map_of b ''job_id'' = Some (PVStr j) \<and> map_of b ''status'' = Some (PVStr ''completed'')"

definition observe :: "string \<Rightarrow> string \<Rightarrow> event \<Rightarrow> job_log \<Rightarrow> job_log" where
  "observe j mid ev q =
     (case ev of
        EvXack i _ \<Rightarrow> if i = mid then q\<lparr>jl_acks := Suc (jl_acks q)\<rparr> else q
      | EvGet k (Inr (Some _)) \<Rightarrow> if k = cancel_key j then q\<lparr>jl_cancel := True\<rparr> else q
      | EvPost _ b _ r \<Rightarrow>
          q\<lparr>jl_bad_post := jl_bad_post q \<or> jl_cancel q,
            jl_delivered := jl_delivered q \<or> ok_reply r \<and> completed_for j b\<rparr>
      | EvHset k m _ \<Rightarrow>
          if k = status_key j
          then (case map_of m ''state'' of None \<Rightarrow> q | Some st \<Rightarrow> q\<lparr>jl_states := jl_states q @ [st]\<rparr>)
          else q
      | EvRunStart _ _ \<Rightarrow> q\<lparr>jl_started := True\<rparr>
      | _ \<Rightarrow> q)"

lemma observe_simps [simp]:
  "observe j mid (EvXack mid r) q = q\<lparr>jl_acks := Suc (jl_acks q)\<rparr>"
  "observe j mid (EvGet k (Inl e)) q = q"
  "observe j mid (EvGet k (Inr None)) q = q"
  "observe j mid (EvGet (cancel_key j) (Inr (Some v))) q = q\<lparr>jl_cancel := True\<rparr>"
  "observe j mid (EvPost u b hs x) q = q\<lparr>jl_bad_post := jl_bad_post q \<or> jl_cancel q,
            jl_delivered := jl_delivered q \<or> ok_reply x \<and> completed_for j b\<rparr>"
  "map_of m ''state'' = Some st \<Longrightarrow> observe j mid (EvHset (status_key j) m y) q = q\<lparr>jl_states := jl_states q @ [st]\<rparr>"
  "observe j mid (EvHget k f z) q = q"
  "observe j mid (EvSleep d e') q = q"
  "observe j mid (EvWait wr) q = q"
  "observe j mid (EvRunStart ir n) q = q\<lparr>jl_started := True\<rparr>"
  "observe j mid (EvCancelHook e') q = q"
  "observe j mid (EvTaskCancel tc) q = q"
  "observe j mid EvTaskAbort q = q"
  by (simp_all add: observe_def)

lemma observe_get:
  "observe j mid (EvGet (cancel_key j) (Inr v)) q = (if v = None then q else q\<lparr>jl_cancel := True\<rparr>)"
  by (cases v) simp_all

section \<open>The loops\<close>

definition frozen_by_posts :: "job_log \<Rightarrow> job_log \<Rightarrow> bool" where
  "frozen_by_posts q q' \<longleftrightarrow>
     jl_acks q' = jl_acks q \<and> jl_cancel q' = jl_cancel q \<and> jl_states q' = jl_states q
     \<and> (jl_bad_post q' \<longrightarrow> jl_bad_post q \<or> jl_cancel q)"

lemma observe_delivery_log:
  assumes "delivery_log url b r evs"
  shows "frozen_by_posts q (foldr (observe j mid) evs q)"
proof -
  have "\<forall>ev \<in> set evs. is_post ev \<or> (\<exists>d x. ev = EvSleep d x)"
    using assms by (auto simp: delivery_log_def)
  then show ?thesis
  proof (induction evs)
    case (Cons ev evs)
    then show ?case by (cases ev) (auto simp: frozen_by_posts_def)
  qed (simp add: frozen_by_posts_def)
qed

lemma mtriple_post_with_retry:
  assumes "traceless J" and "0 < wc_max_retries w"
    and "\<And>r q'. r \<noteq> Stuck \<Longrightarrow> frozen_by_posts q q' \<Longrightarrow> (r = Ret () \<Longrightarrow> completed_for j b \<Longrightarrow> jl_delivered q') \<Longrightarrow> Post r q'"
  shows "mtriple J (observe j mid) q (post_with_retry E w url b) Post"
proof (rule mtripleI)
  fix s assume J: "J s"
  let ?n = "nat (wc_max_retries w)"
  show "wp (post_with_retry E w url b)
     (\<lambda>r s'. J s' \<and> (\<exists>evs. trace s' = evs @ trace s \<and> Post r (foldr (observe j mid) evs q))) s"
    unfolding post_with_retry_def
  proof (rule wp_mono [OF post_attempts_log])
    fix r s' assume "\<exists>evs. extends s evs s' \<and> attempts_spec url b ?n None r evs"
    then obtain evs where e: "extends s evs s'" and a: "attempts_spec url b ?n None r evs" by blast
    have d: "delivery_log url b r evs" and "r \<noteq> Stuck" using a by (auto simp: attempts_spec_def)
    moreover have "jl_delivered (foldr (observe j mid) evs q)" if "r = Ret ()" "completed_for j b"
    proof -
      from a that assms(2) have "evs \<noteq> []" by (auto simp: attempts_spec_def)
      with d that have "post_to url b ok_reply (hd evs)" by (auto simp: delivery_log_def)
      with \<open>evs \<noteq> []\<close> that show ?thesis
        by (cases evs) (auto simp: post_to_def)
    qed
    ultimately have "Post r (foldr (observe j mid) evs q)"
      by (intro assms(3) observe_delivery_log) auto
    moreover have "J s'" using J e assms(1) by (simp add: extends_def traceless_def)
    ultimately show "J s' \<and> (\<exists>evs. trace s' = evs @ trace s \<and> Post r (foldr (observe j mid) evs q))"
      using extends_trace [OF e] by blast
  qed
qed

text \<open>
  Polling writes nothing and posts nothing; it sees the cancel flag only on the way to the
  cancellation exception (or to the cancellation of the consumer's own task).
\<close>

definition poll_post :: "job_log \<Rightarrow> 'a outcome \<Rightarrow> job_log \<Rightarrow> bool" where
  "poll_post q r q' \<longleftrightarrow>
     q' = q \<or> q' = q\<lparr>jl_cancel := True\<rparr> \<and> (r = Raise JobCancelledWhileExecuting \<or> r = Raise CancelledError)"

lemma mtriple_poll_loop:
  "traceless J \<Longrightarrow> mtriple J (observe j mid) q (poll_loop E fuel j) (poll_post q)"
proof (induction fuel)
  case 0
  then show ?case by (auto intro!: mtriple_intros simp: poll_post_def)
next
  case (Suc fuel)
  then show ?case
    by (auto intro!: mtriple_intros consumer_intros simp: observe_get poll_post_def
        split: option.split)
qed

lemma mtriple_run_job:
  "traceless J \<Longrightarrow>
   mtriple J (observe j mid) q (run_job_with_cancellation E fuel j ir shots)
     (poll_post (q\<lparr>jl_started := True\<rparr>))"
  unfolding run_job_with_cancellation_def
  by (auto intro!: mtriple_intros mtriple_conseq [OF mtriple_poll_loop] simp: poll_post_def)

section \<open>The job body and its handlers\<close>

definition has_client :: "webhook_client \<Rightarrow> 's consumer_scheme \<Rightarrow> bool" where
  "has_client w s \<longleftrightarrow> c_webhook s = w"

lemma traceless_has_client [simp]: "traceless (has_client w)"
  by (simp add: traceless_def has_client_def)

lemma has_client_update [simp]:
  "has_client w (c_idle_event_update f1 s) = has_client w s"
  "has_client w (current_job_id_update f2 s) = has_client w s"
  "has_client w (last_job_at_update f3 s) = has_client w s"
  "has_client w (redis_healthy_update f4 s) = has_client w s"
  "has_client w (c_running_update f5 s) = has_client w s"
  "has_client w (c_pending_batch_delivery_update f6 s) = has_client w s"
  by (simp_all add: has_client_def)

lemma completed_for_payload [simp]: "completed_for j (to_dict (completed_payload j res))"
  by (simp add: completed_for_def to_dict_def completed_payload_def)

definition body_post :: "job_log \<Rightarrow> unit outcome \<Rightarrow> job_log \<Rightarrow> bool" where
  "body_post q r q' \<longleftrightarrow>
     jl_acks q' = jl_acks q \<and> \<not> jl_bad_post q'
     \<and> (case r of
          Ret _ \<Rightarrow> \<not> jl_cancel q' \<and> jl_states q' = jl_states q @ [''completed''] \<and> jl_delivered q'
        | Raise e \<Rightarrow> (jl_states q' = jl_states q \<or> jl_states q' = jl_states q @ [''completed''])
            \<and> (jl_cancel q' \<longrightarrow> e = JobCancelledWhileExecuting \<or> e = CancelledError)
        | Stuck \<Rightarrow> jl_states q' = jl_states q)"

lemma mtriple_execute_and_report:
  assumes "0 < wc_max_retries w" and "\<not> jl_cancel q" and "\<not> jl_bad_post q"
  shows "mtriple (has_client w) (observe j mid) q (execute_and_report E fuel j url d) (body_post q)"
  unfolding execute_and_report_def send_result_def
  using assms
  by (auto intro!: mtriple_intros consumer_intros mtriple_post_with_retry mtriple_modify
      mtriple_conseq [OF mtriple_run_job]
      simp: observe_get poll_post_def body_post_def frozen_by_posts_def has_client_def
      split: outcome.splits prod.split)

definition handled_post :: "job_log \<Rightarrow> unit outcome \<Rightarrow> job_log \<Rightarrow> bool" where
  "handled_post q r q' \<longleftrightarrow>
     jl_acks q' = jl_acks q \<and> \<not> jl_bad_post q' \<and> r \<noteq> Stuck
     \<and> (r = Ret () \<longrightarrow> jl_states q' = jl_states q @ [''cancelled'']
           \<or> jl_states q' = jl_states q @ [''failed''] \<and> \<not> jl_cancel q')
     \<and> (\<exists>st. jl_states q' = jl_states q @ st \<and> st \<in> {[], [''cancelled''], [''failed'']})"

lemma mtriple_handlers:
  assumes "0 < wc_max_retries w" and "\<not> jl_bad_post q"
    and "jl_cancel q \<longrightarrow> e = JobCancelledWhileExecuting" and "run_handlers E mid j url e = Some m"
  shows "mtriple (has_client w) (observe j mid) q m (handled_post q)"
  using assms
  unfolding run_handlers_def report_failure_def send_error_def send_result_def
  by (auto intro!: mtriple_intros consumer_intros mtriple_post_with_retry
      simp: observe_get handled_post_def frozen_by_posts_def has_client_def
      split: if_splits outcome.splits)

section \<open>Whole messages\<close>

text \<open>The sequences of status records a run over one message may write.\<close>

definition finished_runs :: "string list set" where
  "finished_runs =
     {[], [''cancelled''], [''executing'', ''completed''], [''executing'', ''cancelled''],
      [''executing'', ''failed''], [''executing'', ''completed'', ''cancelled''],
      [''executing'', ''completed'', ''failed'']}"

definition message_post :: "unit outcome \<Rightarrow> job_log \<Rightarrow> bool" where
  "message_post r q \<longleftrightarrow>
     \<not> jl_bad_post q \<and> jl_acks q \<le> 1
     \<and> (r \<noteq> Stuck \<longrightarrow> jl_started q \<longrightarrow> jl_acks q = 1)
     \<and> (jl_states q \<in> finished_runs \<or> jl_states q = [''executing''])
     \<and> (r = Ret () \<longrightarrow> jl_acks q = 1 \<and> jl_states q \<in> finished_runs
          \<and> (jl_cancel q \<longrightarrow> last (jl_states q) = ''cancelled'' \<and> jl_states q \<noteq> [])
          \<and> (jl_states q = [''executing'', ''completed''] \<longrightarrow> jl_delivered q))"

definition fresh :: "job_log \<Rightarrow> bool" where
  "fresh q \<longleftrightarrow> jl_acks q = 0 \<and> \<not> jl_started q \<and> \<not> jl_cancel q \<and> \<not> jl_bad_post q \<and> jl_states q = []"

lemma mtriple_guarded_job:
  fixes J :: "'s consumer_scheme \<Rightarrow> bool"
  assumes "0 < wc_max_retries w" and "\<not> jl_cancel q" "\<not> jl_bad_post q" "jl_acks q = 0"
    and "jl_states q = [''executing'']" and J: "J = has_client w"
  shows "mtriple J (observe j mid) q (guarded_job E fuel mid j url d)
     (\<lambda>r q'. jl_acks q' = 0 \<and> message_post r (q'\<lparr>jl_acks := if r = Stuck then 0 else 1\<rparr>))"
  unfolding guarded_job_def J
proof (rule mtriple_catch, rule mtriple_conseq [OF mtriple_execute_and_report [OF assms(1-3)]])
  let ?P = "\<lambda>r q'. jl_acks q' = 0 \<and> message_post r (q'\<lparr>jl_acks := if r = Stuck then 0 else 1\<rparr>)"
  let ?h = "\<lambda>e. run_handlers E mid j url e :: ('s consumer_scheme, unit) prog option"
  fix r q' assume b: "body_post q r q'"
  show "case r of
       Raise e \<Rightarrow> (case ?h e of None \<Rightarrow> ?P (Raise e) q'
         | Some n \<Rightarrow> mtriple (has_client w) (observe j mid) q' n ?P)
     | Ret a \<Rightarrow> ?P (Ret a) q' | Stuck \<Rightarrow> ?P Stuck q'"
  proof (cases r)
    case (Raise e)
    show ?thesis
    proof (cases "?h e")
      case None
      with Raise b assms show ?thesis
        by (auto simp: body_post_def message_post_def finished_runs_def)
    next
      case (Some n)
      have "jl_cancel q' \<longrightarrow> e = JobCancelledWhileExecuting"
        using b Raise Some by (auto simp: body_post_def run_handlers_def split: if_splits)
      moreover have "\<not> jl_bad_post q'" using b by (simp add: body_post_def)
      ultimately have h: "mtriple (has_client w) (observe j mid) q' n (handled_post q')"
        using mtriple_handlers [OF assms(1)] Some by blast
      have "?P r' q''" if "handled_post q' r' q''" for r' q''
        using that b Raise assms
        by (auto simp: handled_post_def body_post_def message_post_def finished_runs_def)
      with Raise Some show ?thesis by (auto intro: mtriple_conseq [OF h])
    qed
  qed (use b assms in \<open>auto simp: body_post_def message_post_def finished_runs_def\<close>)
qed

lemma message_post_raise: "message_post r q \<Longrightarrow> r \<noteq> Stuck \<Longrightarrow> message_post (Raise e) q"
  by (simp add: message_post_def)

lemma message_post_acks0: "message_post Stuck (q\<lparr>jl_acks := 0\<rparr>) \<Longrightarrow> message_post Stuck q \<or> jl_acks q \<noteq> 0"
  by (auto simp: message_post_def)

lemma mtriple_start_job:
  assumes "0 < wc_max_retries w" and "fresh q"
  shows "mtriple (has_client w) (observe j mid) q (start_job E fuel mid j url d) message_post"
proof -
  have r: "mtriple (has_client w) (observe j mid) (q\<lparr>jl_states := [''executing'']\<rparr>)
       (finally_do (guarded_job E fuel mid j url d) (release E mid)) message_post"
    using assms
    by (intro mtriple_finally, intro mtriple_conseq [OF mtriple_guarded_job])
      (auto simp: fresh_def release_def has_client_def split: outcome.splits
        intro!: mtriple_bind mtriple_modify consumer_intros
        intro: message_post_raise dest: message_post_acks0)
  have e: "message_post (Raise x) (q\<lparr>jl_states := [''executing'']\<rparr>)" for x
    using assms by (simp add: fresh_def message_post_def)
  show ?thesis
    using assms(2) unfolding start_job_def
    by (auto intro!: mtriple_bind mtriple_modify mtriple_now_iso mtriple_gets mtriple_safe_hset r e
        simp: fresh_def)
qed

lemma mtriple_process_message:
  assumes "0 < wc_max_retries w" and "fresh q" and "decode_fields E fs = Inr d"
    and "map_of d ''job_id'' = Some j" and "map_of d ''callback_url'' = Some url"
  shows "mtriple (has_client w) (observe j mid) q (process_message E fuel mid fs) message_post"
proof -
  have start: "mtriple (has_client w) (observe j mid) q (start_job E fuel mid j url d) message_post"
    using assms by (intro mtriple_start_job)
  show ?thesis
    unfolding process_message_def assms(3) using assms(2,4,5)
    by (auto intro!: mtriple_of_sum mtriple_bind mtriple_ret consumer_intros start
        simp: dict_get_def observe_get fresh_def message_post_def finished_runs_def)
qed

section \<open>The same facts, read off the trace\<close>

definition acks_of :: "string \<Rightarrow> event list \<Rightarrow> nat" where
  "acks_of mid evs = length (filter (\<lambda>ev. \<exists>x. ev = EvXack mid x) evs)"

text \<open>The states written for a job, oldest first.\<close>

fun state_written :: "string \<Rightarrow> event \<Rightarrow> string list" where
  "state_written j (EvHset k m _) =
     (if k = status_key j then (case map_of m ''state'' of None \<Rightarrow> [] | Some st \<Rightarrow> [st]) else [])"
| "state_written j _ = []"

definition states_written :: "string \<Rightarrow> event list \<Rightarrow> string list" where
  "states_written j evs = concat (map (state_written j) (rev evs))"

definition cancel_read :: "string \<Rightarrow> event \<Rightarrow> bool" where
  "cancel_read j ev \<longleftrightarrow> (\<exists>v. ev = EvGet (cancel_key j) (Inr (Some v)))"

definition delivered_for :: "string \<Rightarrow> event \<Rightarrow> bool" where
  "delivered_for j ev \<longleftrightarrow> (\<exists>u b hs x. ev = EvPost u b hs x \<and> ok_reply x \<and> completed_for j b)"

lemma observe_acks: "jl_acks (foldr (observe j mid) evs q) = jl_acks q + acks_of mid evs"
  by (induction evs) (auto simp: acks_of_def observe_def split: event.split sum.split option.split)

lemma observe_cancel: "jl_cancel (foldr (observe j mid) evs q) \<longleftrightarrow> jl_cancel q \<or> (\<exists>ev \<in> set evs. cancel_read j ev)"
  by (induction evs) (auto simp: cancel_read_def observe_def split: event.split sum.split option.split)

lemma observe_states: "jl_states (foldr (observe j mid) evs q) = jl_states q @ states_written j evs"
  by (induction evs) (auto simp: states_written_def observe_def split: event.split sum.split option.split)

lemma observe_delivered: "jl_delivered (foldr (observe j mid) evs q) \<longleftrightarrow> jl_delivered q \<or> (\<exists>ev \<in> set evs. delivered_for j ev)"
  by (induction evs) (auto simp: delivered_for_def observe_def split: event.split sum.split option.split)

lemma observe_started: "jl_started (foldr (observe j mid) evs q) \<longleftrightarrow> jl_started q \<or> (\<exists>ir n. EvRunStart ir n \<in> set evs)"
  by (induction evs) (auto simp: observe_def split: event.split sum.split option.split)

lemma observe_bad_post_mono: "jl_bad_post q \<Longrightarrow> jl_bad_post (foldr (observe j mid) evs q)"
  by (induction evs) (auto simp: observe_def split: event.split sum.split option.split)

lemma observe_bad_post:
  assumes "\<not> jl_bad_post (foldr (observe j mid) (newer @ ev # older) q)" and "cancel_read j ev"
    and "p \<in> set newer"
  shows "\<not> is_post p"
proof
  assume p: "is_post p"
  from assms(3) obtain a b where n: "newer = a @ p # b" by (auto simp: in_set_conv_decomp)
  let ?q = "foldr (observe j mid) (b @ ev # older) q"
  have "jl_cancel ?q" using assms(2) by (simp add: observe_cancel del: foldr_append)
  with p have "jl_bad_post (observe j mid p ?q)" by (cases p) auto
  then have "jl_bad_post (foldr (observe j mid) (a @ p # b @ ev # older) q)"
    by (simp add: observe_bad_post_mono)
  with assms(1) n show False by simp
qed

lemma fresh_job_log0 [simp]: "fresh job_log0"
  by (simp add: fresh_def job_log0_def)

lemma process_message_log:
  assumes "process_message E fuel mid fs s = (r, s')" and "0 < wc_max_retries (c_webhook s)"
    and "decode_fields E fs = Inr d" and "map_of d ''job_id'' = Some j" and "map_of d ''callback_url'' = Some url"
  obtains evs where "trace s' = evs @ trace s" "message_post r (foldr (observe j mid) evs job_log0)"
  using mtripleD [OF mtriple_process_message [OF assms(2) fresh_job_log0 assms(3-5)] _ assms(1)]
  by (auto simp: has_client_def)

section \<open>Properties\<close>

text \<open>
  C1. Once \<^verbatim>\<open>_process_message\<close> has read the cloud's cancel flag for the job as set, it
  posts no webhook any more, neither a result nor an error, whatever the executor, Redis and the
  cloud do; this also holds for runs that raise and for runs still suspended.
\<close>

theorem no_webhook_after_cancel:
  assumes "process_message E fuel mid fs s = (r, s')" and "0 < wc_max_retries (c_webhook s)"
    and "decode_fields E fs = Inr d" and "map_of d ''job_id'' = Some j" and "map_of d ''callback_url'' = Some url"
    and "trace s' = newer @ EvGet (cancel_key j) (Inr (Some v)) # older @ trace s"
  shows "\<forall>ev \<in> set newer. \<not> is_post ev"
proof -
  obtain evs where "trace s' = evs @ trace s" "message_post r (foldr (observe j mid) evs job_log0)"
    using process_message_log [OF assms(1-5)] .
  with assms(6) have "\<not> jl_bad_post (foldr (observe j mid) (newer @ EvGet (cancel_key j) (Inr (Some v)) # older) job_log0)"
    by (auto simp: message_post_def)
  then show ?thesis using observe_bad_post by (fastforce simp: cancel_read_def)
qed

theorem no_webhook_after_cancel_witness:
  "filter is_post (take 2 (trace (snd late_cancel_run))) = []"
proof -
  let ?t = "trace (snd late_cancel_run)"
  have "?t = take 2 ?t @ EvGet (cancel_key ''j1'') (Inr (Some ''1'')) # drop 3 ?t @ trace sample_consumer"
    by code_simp
  from no_webhook_after_cancel [OF late_cancel_run_eq sample_facts(5,2,3,4) this]
  show ?thesis by (simp add: filter_empty_conv)
qed





section \<open>Release of the in-flight markers\<close>

definition markers_clear :: "'s consumer_scheme \<Rightarrow> bool" where
  "markers_clear s \<longleftrightarrow> c_idle_event s \<and> current_job_id s = None"

lemma markers_clear_trace [simp]: "markers_clear (trace_update f s) = markers_clear s"
  by (simp add: markers_clear_def)

text \<open>A run may leave the markers set only when one of two Redis writes itself raised.\<close>

definition release_failed :: "string \<Rightarrow> string \<Rightarrow> unit outcome \<Rightarrow> history \<Rightarrow> bool" where
  "release_failed j mid r h \<longleftrightarrow> (\<exists>e. r = Raise e \<and> \<not> is_conn e \<and> h \<noteq> []
     \<and> (hd h = EvXack mid (Some e) \<or> (\<exists>m. hd h = EvHset (status_key j) m (Some e))))"

definition releases :: "string \<Rightarrow> string \<Rightarrow> unit outcome \<Rightarrow> 's consumer_scheme \<Rightarrow> bool" where
  "releases j mid r s' \<longleftrightarrow> r = Stuck \<or> markers_clear s' \<or> release_failed j mid r (trace s')"

lemma wp_release_releases:
  "wp (release E mid) (\<lambda>r' s''. case r' of Ret _ \<Rightarrow> releases j mid r s''
      | Raise e \<Rightarrow> releases j mid (Raise e) s'' | Stuck \<Rightarrow> releases j mid Stuck s'') s"
  by (auto simp: release_def wp_simps Let_def releases_def markers_clear_def release_failed_def
      split: option.split)

lemma wp_True [simp]: "wp m (\<lambda>_ _. True) s"
  by (simp add: wp_def split: prod.split)

lemma wp_finally_releases: "wp (finally_do m (release E mid)) (releases j mid) s"
proof -
  have "wp m (\<lambda>r s'. if r = Stuck then releases j mid Stuck s'
      else wp (release E mid) (\<lambda>r' s''. case r' of Ret _ \<Rightarrow> releases j mid r s''
        | Raise e \<Rightarrow> releases j mid (Raise e) s'' | Stuck \<Rightarrow> releases j mid Stuck s'') s') s"
    by (rule wp_mono [OF wp_True]) (auto simp: wp_release_releases releases_def [of _ _ Stuck])
  then show ?thesis by (simp add: wp_finally)
qed

lemma wp_start_job_releases: "wp (start_job E fuel mid j url d) (releases j mid) s"
  unfolding start_job_def wp_bind wp_modify wp_now_iso wp_gets outcome.case wp_safe_hset Let_def
  by (auto simp: wp_finally_releases releases_def [of _ _ "Raise _"] release_failed_def
      split: option.split)

lemma wp_ack_releases:
  "markers_clear s \<Longrightarrow> wp (bind (safe_xack E mid) (\<lambda>_. ret ())) (releases j mid) s"
  by (auto simp: wp_simps Let_def releases_def split: option.split)

lemma wp_mark_ack_releases:
  "markers_clear s \<Longrightarrow>
   wp (bind (mark_job_cancelled E j mid) (\<lambda>_. bind (safe_xack E mid) (\<lambda>_. ret ()))) (releases j mid) s"
  by (auto simp: mark_job_cancelled_def wp_simps Let_def releases_def split: option.split)

lemma wp_get_job_status_clear:
  assumes "markers_clear s" and "\<And>v s'. markers_clear s' \<Longrightarrow> wp (f v) (releases j mid) s'"
  shows "wp (bind (get_job_status E i) f) (releases j mid) s"
  using assms(1)
  by (auto simp: get_job_status_def wp_simps Let_def releases_def [of _ _ "Raise _"] assms(2)
      split: option.split sum.split)

lemma wp_has_cancel_signal_clear:
  assumes "markers_clear s" and "\<And>v s'. markers_clear s' \<Longrightarrow> wp (f v) (releases j mid) s'"
  shows "wp (bind (has_cancel_signal E i) f) (releases j mid) s"
  using assms(1)
  by (auto simp: wp_bind wp_has_cancel_signal Let_def releases_def [of _ _ "Raise _"] assms(2)
      split: sum.split)

text \<open>
  C9. After \<^verbatim>\<open>_process_message\<close>, on every outcome, the idle event is set and no job is
  recorded as current, unless the run ended because the write of a status record or the
  acknowledgement raised something other than a connection error (these two are outside the
  protection of the code's \<^verbatim>\<open>finally\<close>).
\<close>

theorem markers_released:
  assumes "process_message E fuel mid fs s = (r, s')" and "c_idle_event s" and "current_job_id s = None"
    and "r \<noteq> Stuck"
    and "decode_fields E fs = Inr d" and "map_of d ''job_id'' = Some j" and "map_of d ''callback_url'' = Some url"
  shows "c_idle_event s' \<and> current_job_id s' = None \<or> release_failed j mid r (trace s')"
proof -
  have m: "markers_clear s" using assms by (simp add: markers_clear_def)
  have "wp (process_message E fuel mid fs) (releases j mid) s"
    unfolding process_message_def assms(5) of_sum_def sum.case ret_bind
    using m assms(6,7)
    by (auto simp: dict_get_def wp_start_job_releases
        intro!: wp_get_job_status_clear wp_has_cancel_signal_clear wp_ack_releases wp_mark_ack_releases)
  then show ?thesis using assms(1,4) by (auto simp: wp_def releases_def markers_clear_def)
qed

theorem markers_released_witness:
  "c_idle_event (snd calm_run) \<and> current_job_id (snd calm_run) = None
   \<or> release_failed ''j1'' ''1-0'' (Ret ()) (trace (snd calm_run))"
  by (rule markers_released [OF calm_run_eq sample_facts(7,8) _ sample_facts(1,3,4)]) simp

end
