(* ===== verification/Batch_Safety.thy ===== *)
theory Batch_Safety
  imports Consumer_Batch Consumer_Safety
begin

text \<open>
  Properties of the batch path and the main loop: every interleaving of the deliveries of a batch
  respects late cancellation and acknowledges each message once, the interleaved machine run alone
  is the sequential coroutine, \<^verbatim>\<open>gather\<close> always comes to an end, the backoff of the loop is bounded,
  and a delivery task that raised stops the consumer for good.
\<close>

section \<open>Progress of deliveries\<close>

lemma deliver_await_decreases:
  assumes "\<not> finished pc" and "m = nat (wc_max_retries (c_webhook s))"
  shows "wp (deliver_await E t (mid, j, url, res) pc)
     (\<lambda>r s'. c_webhook s' = c_webhook s \<and> c_running s' = c_running s \<and> r \<noteq> Stuck \<and> (\<forall>pc'. r = Ret pc' \<longrightarrow> awaits_left m pc' < awaits_left m pc)) s"
  using assms
  by (cases pc)
    (auto simp: deliver_await_def wp_simps Let_def start_posting_def log_and_ack_def mark_job_cancelled_def
      split: option.split sum.split)

lemma deliver_step_decreases:
  assumes "\<not> finished pc" and "m = nat (wc_max_retries (c_webhook s))"
  shows "wp (deliver_step E t dl pc)
     (\<lambda>r s'. c_webhook s' = c_webhook s \<and> c_running s' = c_running s \<and> (\<exists>pc'. r = Ret pc' \<and> awaits_left m pc' < awaits_left m pc)) s"
proof -
  obtain mid j url res where dl: "dl = (mid, j, url, res)" by (cases dl) auto
  have "0 < awaits_left m pc" using assms(1) by (cases pc) auto
  then show ?thesis
    unfolding deliver_step_def wp_catch dl
    by (intro wp_mono [OF deliver_await_decreases [OF assms]]) (auto simp: wp_simps split: outcome.split)
qed

lemma runnable_nth: "runnable pcs \<noteq> [] \<Longrightarrow> runnable pcs ! (k mod length (runnable pcs)) \<in> set (runnable pcs)"
  by simp

lemma set_runnable: "set (runnable pcs) = {i. i < length pcs \<and> \<not> finished (pcs ! i)}"
  by (auto simp: runnable_def)

lemma runnable_empty: "runnable pcs = [] \<Longrightarrow> \<forall>pc \<in> set pcs. finished pc"
  using set_runnable [of pcs] by (auto simp: in_set_conv_nth)

lemma gather_fuel_update:
  assumes "i < length pcs" and "awaits_left (nat (wc_max_retries w)) pc < awaits_left (nat (wc_max_retries w)) (pcs ! i)"
  shows "gather_fuel w (pcs[i := pc]) < gather_fuel w pcs"
  using assms
proof (induction pcs arbitrary: i)
  case (Cons a pcs)
  then show ?case by (cases i) (auto simp: gather_fuel_def)
qed simp

text \<open>The scheduler never runs out of its fuel, and ends only when every delivery has.\<close>

lemma wp_note_failure [wp_simps]:
  "wp (note_failure first pc) Q s =
   (case pc of DeliveryFailed e \<Rightarrow> if first = None then Q (Ret (Some e)) (s\<lparr>c_idle_event := True\<rparr>) else Q (Ret first) s
      | _ \<Rightarrow> Q (Ret first) s)"
  by (auto simp: note_failure_def wp_simps split: option.split dpc.split)

text \<open>One turn of \<open>gather_run\<close>: the chosen delivery, its step and the rest of the run.\<close>

lemma gather_run_turn:
  assumes "runnable pcs \<noteq> []"
  obtains i pc s1 f s2 where "i < length pcs" "\<not> finished (pcs ! i)"
    "deliver_step E t (dls ! i) (pcs ! i) s = (Ret pc, s1)" "c_webhook s1 = c_webhook s" "c_running s1 = c_running s"
    "gather_fuel (c_webhook s) (pcs[i := pc]) < gather_fuel (c_webhook s) pcs"
    "s2 = s1 \<or> s2 = s1\<lparr>c_idle_event := True\<rparr>" "note_failure first pc s1 = (Ret f, s2)"
    "\<And>fuel. gather_run E (Suc fuel) t dls pcs first s = gather_run E fuel t dls (pcs[i := pc]) f s2"
proof -
  define i where "i = runnable pcs ! (e_sched E (trace s) mod length (runnable pcs))"
  have i: "i < length pcs" "\<not> finished (pcs ! i)"
    using runnable_nth [OF assms] unfolding i_def set_runnable by auto
  obtain pc s1 where st: "deliver_step E t (dls ! i) (pcs ! i) s = (Ret pc, s1)" "c_webhook s1 = c_webhook s"
      "c_running s1 = c_running s" "awaits_left (nat (wc_max_retries (c_webhook s))) pc < awaits_left (nat (wc_max_retries (c_webhook s))) (pcs ! i)"
    using deliver_step_decreases [OF i(2) refl, where s = s and E = E and t = t and dl = "dls ! i"] by (auto simp: wp_def split: prod.splits)
  obtain f s2 where n: "note_failure first pc s1 = (Ret f, s2)" "s2 = s1 \<or> s2 = s1\<lparr>c_idle_event := True\<rparr>"
    by (cases first; cases pc) (auto simp: note_failure_def bind_def modify_def ret_def)
  have "gather_run E (Suc fuel) t dls pcs first s = gather_run E fuel t dls (pcs[i := pc]) f s2" for fuel
    using assms st(1) n(1)
    by (subst gather_run.simps) (simp add: bind_def gets_def Let_def i_def [symmetric])
  with that i st n gather_fuel_update [OF i(1) st(4)] show thesis by blast
qed

lemma gather_run_total:
  assumes "gather_fuel (c_webhook s) pcs \<le> fuel"
  shows "\<exists>x s'. gather_run E fuel t dls pcs first s = (Ret x, s')"
  using assms
proof (induction fuel arbitrary: pcs first s)
  case 0
  have "runnable pcs = []"
  proof (rule ccontr)
    assume "runnable pcs \<noteq> []"
    then obtain i where i: "i < length pcs" "\<not> finished (pcs ! i)"
      using set_runnable [of pcs] by (cases "runnable pcs") auto
    then have "0 < awaits_left (nat (wc_max_retries (c_webhook s))) (pcs ! i)" by (cases "pcs ! i") auto
    with 0 i show False by (auto simp: gather_fuel_def)
  qed
  then show ?case by (simp add: gather_run.simps ret_def)
next
  case (Suc fuel)
  show ?case
  proof (cases "runnable pcs = []")
    case True
    then show ?thesis by (simp add: gather_run.simps ret_def)
  next
    case False
    then obtain i pc s1 f s2 where "c_webhook s1 = c_webhook s" "s2 = s1 \<or> s2 = s1\<lparr>c_idle_event := True\<rparr>"
      "gather_fuel (c_webhook s) (pcs[i := pc]) < gather_fuel (c_webhook s) pcs"
      and run: "gather_run E (Suc fuel) t dls pcs first s = gather_run E fuel t dls (pcs[i := pc]) f s2"
      using gather_run_turn [where pcs = pcs and E = E and t = t and dls = dls and s = s and first = first] by metis
    then have "gather_fuel (c_webhook s2) (pcs[i := pc]) \<le> fuel" using Suc.prems by auto
    from Suc.IH [OF this] show ?thesis unfolding run by blast
  qed
qed

lemma gather_run_running:
  "gather_run E fuel t dls pcs first s = (r, s') \<Longrightarrow> c_running s' = c_running s"
proof (induction fuel arbitrary: pcs first s)
  case 0
  then show ?case by (auto simp: gather_run.simps ret_def stuck_def split: if_splits)
next
  case (Suc fuel)
  show ?case
  proof (cases "runnable pcs = []")
    case True
    then show ?thesis using Suc.prems by (simp add: gather_run.simps ret_def)
  next
    case False
    then obtain i pc s1 f s2 where "c_running s1 = c_running s" "s2 = s1 \<or> s2 = s1\<lparr>c_idle_event := True\<rparr>"
      and run: "gather_run E (Suc fuel) t dls pcs first s = gather_run E fuel t dls (pcs[i := pc]) f s2"
      using gather_run_turn [where pcs = pcs and E = E and t = t and dls = dls and s = s and first = first] by metis
    moreover have "c_running s' = c_running s2" using Suc.IH Suc.prems run by metis
    ultimately show ?thesis by auto
  qed
qed

lemma wp_gather_run: "wp (gather_run E (gather_fuel (c_webhook s) pcs) t dls pcs first) (\<lambda>r s'. \<exists>x. r = Ret x) s"
  using gather_run_total [OF order_refl, where s = s and pcs = pcs and E = E and t = t and dls = dls and first = first] by (auto simp: wp_def)

lemma wp_deliver_batch_results:
  "wp (deliver_batch_results E parsed results) (\<lambda>r s'. r \<noteq> Stuck \<and> c_idle_event s') s"
proof -
  have g: "wp (gather_deliveries E t parsed results) (\<lambda>r s'. r \<noteq> Stuck) s" for t
    unfolding gather_deliveries_def Let_def
    by (auto simp: wp_if wp_bind wp_gets wp_raise intro!: wp_mono [OF wp_gather_run]
        simp: wp_simps split: option.split outcome.split)
  show ?thesis
    unfolding deliver_batch_results_def wp_bind wp_now_iso wp_finally outcome.case
    by (rule wp_mono [OF g]) (auto simp: wp_modify split: outcome.split)
qed

text \<open>
  C8. The background task of a batch always comes to an end (the deliveries of any batch, under any
  scheduling and any answers, need at most the awaits the model allows), and when it ends the idle
  event is set, whether it returned or raised.
\<close>

theorem batch_delivery_ends:
  "\<exists>r s'. deliver_batch_results E parsed results s = (r, s') \<and> r \<noteq> Stuck \<and> c_idle_event s'"
  using wp_deliver_batch_results [of E parsed results s] by (auto simp: wp_def split: prod.splits)

section \<open>One delivery alone\<close>

text \<open>What the coroutine still has to do at each of its awaits.\<close>

definition ack_rest :: "env \<Rightarrow> string \<Rightarrow> ('s consumer_scheme, unit) prog" where
  "ack_rest E mid = bind (safe_xack E mid) (\<lambda>_. ret ())"

definition posting_rest :: "env \<Rightarrow> string \<Rightarrow> ('s consumer_scheme, unit) prog \<Rightarrow> ('s consumer_scheme, unit) prog" where
  "posting_rest E mid m =
     bind (catch m (\<lambda>e. if is_Exception e then Some (ret ()) else None)) (\<lambda>_. ack_rest E mid)"

definition second_check_rest :: "env \<Rightarrow> delivery \<Rightarrow> ('s consumer_scheme, unit) prog" where
  "second_check_rest E dl =
     (case dl of (mid, j, url, res) \<Rightarrow>
       bind (has_cancel_signal E j) (\<lambda>c.
         if c then cancel_and_ack E j mid
         else bind (gets c_webhook) (\<lambda>w.
           posting_rest E mid (send_result E w url (completed_payload j res)))))"

fun delivery_rest :: "env \<Rightarrow> string \<Rightarrow> delivery \<Rightarrow> dpc \<Rightarrow> ('s consumer_scheme, unit) prog" where
  "delivery_rest E t dl CheckFirst = deliver_single_batch_result E t dl"
| "delivery_rest E t (mid, j, url, res) SetCompleted =
     bind (safe_hset E (status_key j) [(''state'', ''completed''), (''completed_at'', t)]) (\<lambda>_.
       second_check_rest E (mid, j, url, res))"
| "delivery_rest E t dl CheckSecond = second_check_rest E dl"
| "delivery_rest E t (mid, j, url, res) (Posting k n) =
     bind (gets c_webhook) (\<lambda>w.
       posting_rest E mid (post_attempts E w url (to_dict (completed_payload j res)) k n None))"
| "delivery_rest E t (mid, j, url, res) (Pausing k n e) =
     bind (gets c_webhook) (\<lambda>w. posting_rest E mid (bind (sleep E (2 ^ (k - 1)))
       (\<lambda>_. post_attempts E w url (to_dict (completed_payload j res)) (Suc k) n (Some e))))"
| "delivery_rest E t (mid, j, url, res) MarkCancelled = cancel_and_ack E j mid"
| "delivery_rest E t (mid, j, url, res) Acking = ack_rest E mid"
| "delivery_rest E t dl DeliveryDone = ret ()"
| "delivery_rest E t dl (DeliveryFailed e) = raise e"

fun sound_pc :: "dpc \<Rightarrow> bool" where
  "sound_pc (Posting k n) \<longleftrightarrow> 0 < n"
| "sound_pc (Pausing k n e) \<longleftrightarrow> is_Exception e"
| "sound_pc _ \<longleftrightarrow> True"

lemma retriable_is_Exception: "retriable r \<Longrightarrow> is_Exception (reply_exc r)"
  by (cases r) (auto simp: is_Exception_def)

lemma post_attempts_positive:
  "0 < n \<Longrightarrow> post_attempts E w url b k n l = post_attempts E w url b k n l'"
  by (cases n) simp_all

lemma deliver_single_unfold:
  "deliver_single_batch_result E t (mid, j, url, res) =
   bind (has_cancel_signal E j) (\<lambda>c.
     if c then cancel_and_ack E j mid else delivery_rest E t (mid, j, url, res) SetCompleted)"
  unfolding deliver_single_batch_result_def delivery_rest.simps second_check_rest_def posting_rest_def
    ack_rest_def prod.case ..

lemma delivery_rest_step:
  assumes "\<not> finished pc" and "sound_pc pc"
  shows "delivery_rest E t dl pc s = bind (deliver_await E t dl pc) (delivery_rest E t dl) s"
proof (rule wp_ext)
  fix Q
  obtain mid j url res where dl: "dl = (mid, j, url, res)" by (cases dl) auto
  show "wp (delivery_rest E t dl pc) Q s = wp (bind (deliver_await E t dl pc) (delivery_rest E t dl)) Q s"
  proof (cases pc)
    case (Posting k n)
    then obtain n' where "n = Suc n'" using assms(2) by (cases n) auto
    then show ?thesis using Posting dl
      by (auto simp: deliver_await_def log_and_ack_def posting_rest_def ack_rest_def wp_simps Let_def retriable_is_Exception
          split: sum.split option.split)
  next
    case (Pausing k n e)
    show ?thesis
    proof (cases n)
      case 0
      then show ?thesis using Pausing dl assms(2)
        by (auto simp: deliver_await_def log_and_ack_def posting_rest_def ack_rest_def wp_simps Let_def
            split: option.split)
    next
      case (Suc n')
      have p: "post_attempts E w url b (Suc k) (Suc n') (Some e) = post_attempts E w url b (Suc k) (Suc n') None" for w b
        by (rule post_attempts_positive) simp
      show ?thesis using Pausing dl Suc
        by (auto simp: p deliver_await_def log_and_ack_def posting_rest_def ack_rest_def wp_simps Let_def
            simp del: post_attempts.simps split: option.split)
    qed
  next
    case CheckFirst
    then show ?thesis
      by (simp add: dl deliver_single_unfold deliver_await_def wp_bind wp_has_cancel_signal wp_ret Let_def
          del: delivery_rest.simps(2) split: sum.split)
  next
    case SetCompleted
    then show ?thesis
      by (simp add: dl deliver_await_def wp_bind wp_safe_hset wp_ret Let_def split: option.split)
  next
    case CheckSecond
    then show ?thesis
      by (auto simp: dl deliver_await_def second_check_rest_def wp_bind wp_has_cancel_signal wp_ret wp_gets
          Let_def start_posting_def send_result_def post_with_retry_def posting_rest_def wp_catch
          split: sum.split)
  next
    case MarkCancelled
    then show ?thesis by (simp add: dl deliver_await_def cancel_and_ack_def ack_rest_def bind_assoc)
  next
    case Acking
    then show ?thesis by (simp add: dl deliver_await_def ack_rest_def bind_assoc)
  qed (use assms(1) in simp_all)
qed

lemma deliver_await_sound_pc:
  "wp (deliver_await E t (mid, j, url, res) pc) (\<lambda>r s'. \<forall>pc'. r = Ret pc' \<longrightarrow> \<not> finished pc \<longrightarrow> sound_pc pc' \<and> (\<forall>e. pc' \<noteq> DeliveryFailed e)) s"
  by (cases pc)
    (auto simp: deliver_await_def wp_simps Let_def start_posting_def log_and_ack_def mark_job_cancelled_def
      retriable_is_Exception split: option.split sum.split)

text \<open>The outcome of \<^verbatim>\<open>gather\<close> for a coroutine that ends with the given outcome.\<close>

definition gathered :: "unit outcome \<times> 's consumer_scheme \<Rightarrow> exc option outcome \<times> 's consumer_scheme" where
  "gathered rs =
     (case rs of
        (Ret _, s') \<Rightarrow> (Ret None, s')
      | (Raise e, s') \<Rightarrow> (Ret (Some e), s'\<lparr>c_idle_event := True\<rparr>)
      | (Stuck, s') \<Rightarrow> (Stuck, s'))"

lemma runnable_single: "runnable [pc] = (if finished pc then [] else [0])"
  by (simp add: runnable_def)

lemma gather_run_single:
  assumes "awaits_left (nat (wc_max_retries (c_webhook s))) pc \<le> fuel" and "sound_pc pc"
    and "\<forall>e. pc \<noteq> DeliveryFailed e"
  shows "gather_run E fuel t [dl] [pc] None s = gathered (delivery_rest E t dl pc s)"
  using assms
proof (induction fuel arbitrary: pc s)
  case 0
  then have "pc = DeliveryDone" by (cases pc) auto
  then show ?case by (simp add: gather_run.simps runnable_single gathered_def ret_def)
next
  case (Suc fuel)
  show ?case
  proof (cases "finished pc")
    case True
    then have "pc = DeliveryDone" using Suc.prems by (cases pc) auto
    then show ?thesis by (simp add: gather_run.simps runnable_single gathered_def ret_def)
  next
    case False
    obtain mid j url res where dl: "dl = (mid, j, url, res)" by (cases dl) auto
    obtain r s1 where st: "deliver_await E t dl pc s = (r, s1)" by fastforce
    have d: "c_webhook s1 = c_webhook s" "r \<noteq> Stuck"
        "r = Ret pc' \<Longrightarrow> awaits_left (nat (wc_max_retries (c_webhook s))) pc' < awaits_left (nat (wc_max_retries (c_webhook s))) pc"
        "r = Ret pc' \<Longrightarrow> sound_pc pc' \<and> (\<forall>e. pc' \<noteq> DeliveryFailed e)" for pc'
      using wpD [OF deliver_await_decreases [OF False refl] st [unfolded dl]]
        wpD [OF deliver_await_sound_pc st [unfolded dl]] False by auto
    note rest = delivery_rest_step [OF False Suc.prems(2), of E t dl s]
    show ?thesis
    proof (cases r)
      case (Ret pc')
      have "gather_run E fuel t [dl] [pc'] None s1 = gathered (delivery_rest E t dl pc' s1)"
        using d Ret Suc.prems by (intro Suc.IH) auto
      moreover have "note_failure None pc' s1 = (Ret None, s1)"
        using d(4) Ret by (cases pc') (auto simp: note_failure_def ret_def)
      ultimately show ?thesis using rest st Ret False
        by (subst gather_run.simps)
          (simp add: runnable_single bind_def gets_def Let_def deliver_step_def catch_def)
    next
      case (Raise e)
      then show ?thesis using rest st False
        by (subst gather_run.simps)
          (simp add: runnable_single bind_def gets_def Let_def deliver_step_def catch_def
            note_failure_def modify_def ret_def gathered_def gather_run.simps)
    qed (use d in simp)
  qed
qed


section \<open>Deliveries interleaved\<close>

text \<open>
  Events that concern another job and another message.  The rule \<open>other\<close> below lets the rest of
  the program run between the steps of the deliveries as long as it leaves their jobs alone.
\<close>

definition post_of :: "string \<Rightarrow> event \<Rightarrow> bool" where
  "post_of j ev \<longleftrightarrow> (\<exists>u b hs x. ev = EvPost u b hs x \<and> map_of b ''job_id'' = Some (PVStr j))"

definition foreign :: "string \<Rightarrow> string \<Rightarrow> event \<Rightarrow> bool" where
  "foreign j mid ev \<longleftrightarrow>
     \<not> post_of j ev \<and> (\<forall>x. ev \<noteq> EvXack mid x) \<and> (\<forall>m x. ev \<noteq> EvHset (status_key j) m x)
     \<and> (\<forall>x. ev \<noteq> EvGet (cancel_key j) x)"

definition dl_mid :: "delivery \<Rightarrow> string" where "dl_mid dl = fst dl"
definition dl_job :: "delivery \<Rightarrow> string" where "dl_job dl = fst (snd dl)"

inductive batch_step ::
  "env \<Rightarrow> string \<Rightarrow> delivery list \<Rightarrow> dpc list \<times> 's consumer_scheme \<Rightarrow> dpc list \<times> 's consumer_scheme \<Rightarrow> bool"
  for E t dls where
  turn: "\<lbrakk>i < length pcs; \<not> finished (pcs ! i); deliver_step E t (dls ! i) (pcs ! i) s = (Ret pc, s')\<rbrakk>
     \<Longrightarrow> batch_step E t dls (pcs, s) (pcs[i := pc], s')"
| other: "\<lbrakk>trace s' = evs @ trace s; c_webhook s' = c_webhook s;
      \<forall>ev \<in> set evs. \<forall>dl \<in> set dls. foreign (dl_job dl) (dl_mid dl) ev\<rbrakk>
     \<Longrightarrow> batch_step E t dls (pcs, s) (pcs, s')"

text \<open>What is observed about one delivery; POSTs of other jobs do not count.\<close>

definition own :: "string \<Rightarrow> string \<Rightarrow> event \<Rightarrow> job_log \<Rightarrow> job_log" where
  "own j mid ev q = (if is_post ev \<and> \<not> post_of j ev then q else observe j mid ev q)"

definition settled :: "job_log \<Rightarrow> bool" where
  "settled q \<longleftrightarrow>
     (if jl_cancel q then jl_states q \<in> {[''cancelled''], [''completed'', ''cancelled'']}
      else jl_states q = [''completed''])"

fun task_inv :: "dpc \<Rightarrow> job_log \<Rightarrow> bool" where
  "task_inv CheckFirst q \<longleftrightarrow> \<not> jl_bad_post q \<and> jl_acks q = 0 \<and> \<not> jl_cancel q \<and> jl_states q = []"
| "task_inv SetCompleted q \<longleftrightarrow> \<not> jl_bad_post q \<and> jl_acks q = 0 \<and> \<not> jl_cancel q \<and> jl_states q = []"
| "task_inv MarkCancelled q \<longleftrightarrow>
     \<not> jl_bad_post q \<and> jl_acks q = 0 \<and> jl_cancel q \<and> jl_states q \<in> {[], [''completed'']}"
| "task_inv Acking q \<longleftrightarrow> \<not> jl_bad_post q \<and> jl_acks q = 0 \<and> settled q"
| "task_inv DeliveryDone q \<longleftrightarrow> \<not> jl_bad_post q \<and> jl_acks q = 1 \<and> settled q"
| "task_inv (DeliveryFailed e) q \<longleftrightarrow> \<not> jl_bad_post q \<and> jl_acks q \<le> 1"
| "task_inv pc q \<longleftrightarrow> \<not> jl_bad_post q \<and> jl_acks q = 0 \<and> \<not> jl_cancel q \<and> jl_states q = [''completed'']"

lemma own_simps [simp]:
  "\<not> is_post ev \<Longrightarrow> own j mid ev q = observe j mid ev q"
  "own j mid (EvPost u (to_dict (completed_payload j res)) hs x) q =
   observe j mid (EvPost u (to_dict (completed_payload j res)) hs x) q"
  by (simp_all add: own_def post_of_def to_dict_def completed_payload_def)

lemma mtriple_post_once:
  assumes "traceless J" and "\<And>e. Post (Raise e) q"
    and "\<And>hs x r. r \<noteq> Stuck \<Longrightarrow> Post r (mon (EvPost url b hs x) q)"
  shows "mtriple J mon q (post_once E w url b) Post"
  using assms
  by (auto simp: mtriple_def wp_post_once Let_def traceless_def split: sum.split
      intro: exI [of _ "[]"])

lemma mtriple_deliver_step:
  assumes "task_inv pc q" and "\<not> finished pc"
  shows "mtriple (has_client w) (own j mid) q (deliver_step E t (mid, j, url, res) pc)
     (\<lambda>r q'. case r of Ret pc' \<Rightarrow> task_inv pc' q' | _ \<Rightarrow> False)"
  using assms
  by (cases pc)
    (auto simp: deliver_step_def deliver_await_def log_and_ack_def start_posting_def observe_get settled_def
      intro!: mtriple_intros consumer_intros mtriple_post_once split: outcome.splits option.splits)

lemma key_inj [simp]:
  "status_key j = status_key j' \<longleftrightarrow> j = j'" "cancel_key j = cancel_key j' \<longleftrightarrow> j = j'"
  by (simp_all add: status_key_def cancel_key_def)

lemma post_of_payload [simp]:
  "post_of j' (EvPost u (to_dict (completed_payload j res)) hs x) \<longleftrightarrow> j = j'"
  by (simp add: post_of_def to_dict_def completed_payload_def)

lemma foreign_simps [simp]:
  "foreign j mid (EvXack m x) \<longleftrightarrow> m \<noteq> mid"
  "foreign j mid (EvHset (status_key j') f x) \<longleftrightarrow> j' \<noteq> j"
  "foreign j mid (EvGet (cancel_key j') v) \<longleftrightarrow> j' \<noteq> j"
  "foreign j mid (EvPost u b hs y) \<longleftrightarrow> \<not> post_of j (EvPost u b hs y)"
  "foreign j mid (EvSleep d x)"
  by (auto simp: foreign_def post_of_def)

lemma mtriple_deliver_foreign:
  assumes "j \<noteq> j'" and "mid \<noteq> mid'" and "\<not> finished pc" and q
  shows "mtriple (has_client w) (\<lambda>ev b. b \<and> foreign j' mid' ev) q (deliver_step E t (mid, j, url, res) pc)
     (\<lambda>_ b. b)"
  using assms
  by (cases pc)
    (auto simp: deliver_step_def deliver_await_def log_and_ack_def
      intro!: mtriple_intros consumer_intros mtriple_post_once split: outcome.splits option.splits)

lemma task_inv_started [simp]: "task_inv pc (q\<lparr>jl_started := b\<rparr>) = task_inv pc q"
  by (cases pc) (simp_all add: settled_def)

lemma foreign_unobserved:
  assumes "foreign j mid ev"
  shows "own j mid ev q = q \<or> own j mid ev q = q\<lparr>jl_started := True\<rparr>"
  using assms by (cases ev) (auto simp: own_def observe_def foreign_def split: sum.split option.split)

lemma foreign_task_inv:
  "\<forall>ev \<in> set evs. foreign j mid ev \<Longrightarrow> task_inv pc (foldr (own j mid) evs q) = task_inv pc q"
proof (induction evs)
  case (Cons ev evs)
  then show ?case using foreign_unobserved [of j mid ev "foldr (own j mid) evs q"] by auto
qed simp

lemma foldr_conj: "foldr (\<lambda>ev b. b \<and> P ev) evs q \<longleftrightarrow> q \<and> (\<forall>ev \<in> set evs. P ev)"
  by (induction evs) auto

definition batch_inv :: "delivery list \<Rightarrow> history \<Rightarrow> dpc list \<times> 's consumer_scheme \<Rightarrow> bool" where
  "batch_inv dls h0 c \<longleftrightarrow>
     length (fst c) = length dls \<and>
     (\<exists>evs. trace (snd c) = evs @ h0 \<and>
        (\<forall>i < length dls. task_inv (fst c ! i) (foldr (own (dl_job (dls ! i)) (dl_mid (dls ! i))) evs job_log0)))"

lemma batch_inv_step:
  assumes "batch_step E t dls c c'" and "batch_inv dls h0 c"
    and "distinct (map dl_job dls)" and "distinct (map dl_mid dls)"
  shows "batch_inv dls h0 c'"
  using assms(1)
proof cases
  case (turn i pcs s pc s')
  from assms(2) turn(1) obtain evs where len: "length pcs = length dls" and tr: "trace s = evs @ h0"
    and inv: "\<And>k. k < length dls \<Longrightarrow> task_inv (pcs ! k) (foldr (own (dl_job (dls ! k)) (dl_mid (dls ! k))) evs job_log0)"
    by (auto simp: batch_inv_def)
  obtain mid j url res where dl: "dls ! i = (mid, j, url, res)" by (cases "dls ! i") auto
  have i: "i < length dls" using turn len by simp
  note st = turn(5) [unfolded dl]
  have J: "has_client (c_webhook s) s" by (simp add: has_client_def)
  from mtripleD [OF mtriple_deliver_step [OF inv [OF i, unfolded dl dl_job_def dl_mid_def fst_conv snd_conv] turn(4)] J st]
  obtain new where new: "trace s' = new @ trace s"
    and own: "task_inv pc (foldr (own j mid) new (foldr (own j mid) evs job_log0))" by auto
  have "task_inv (pcs[i := pc] ! k) (foldr (own (dl_job (dls ! k)) (dl_mid (dls ! k))) (new @ evs) job_log0)"
    if k: "k < length dls" for k
  proof (cases "k = i")
    case True
    then show ?thesis using own dl i len by (simp add: dl_job_def dl_mid_def)
  next
    case False
    then have "dl_job (dls ! i) \<noteq> dl_job (dls ! k)" "dl_mid (dls ! i) \<noteq> dl_mid (dls ! k)"
      using nth_eq_iff_index_eq [OF assms(3)] nth_eq_iff_index_eq [OF assms(4)] k i by auto
    then have "j \<noteq> dl_job (dls ! k)" "mid \<noteq> dl_mid (dls ! k)"
      using dl by (simp_all add: dl_job_def dl_mid_def)
    from mtripleD [OF mtriple_deliver_foreign [OF this turn(4) TrueI] J st]
    have "\<forall>ev \<in> set new. foreign (dl_job (dls ! k)) (dl_mid (dls ! k)) ev"
      using new by (auto simp: foldr_conj)
    then show ?thesis using False inv [OF k] by (simp add: foreign_task_inv)
  qed
  then show ?thesis using len new tr turn(2) by (auto simp: batch_inv_def intro!: exI [of _ "new @ evs"])
next
  case (other s' new s pcs)
  from assms(2) other(1) obtain evs where len: "length pcs = length dls" and tr: "trace s = evs @ h0"
    and inv: "\<And>k. k < length dls \<Longrightarrow> task_inv (pcs ! k) (foldr (own (dl_job (dls ! k)) (dl_mid (dls ! k))) evs job_log0)"
    by (auto simp: batch_inv_def)
  then show ?thesis
    using other by (auto simp: batch_inv_def foreign_task_inv intro!: exI [of _ "new @ evs"])
qed

lemma batch_inv_reachable:
  assumes "(batch_step E t dls)\<^sup>*\<^sup>* (map (\<lambda>_. CheckFirst) dls, s) c"
    and "distinct (map dl_job dls)" and "distinct (map dl_mid dls)"
  shows "batch_inv dls (trace s) c"
  using assms(1)
proof (induction rule: rtranclp_induct)
  case base
  show ?case by (auto simp: batch_inv_def job_log0_def)
next
  case (step c c')
  then show ?case using batch_inv_step assms(2,3) by blast
qed

lemma own_acks: "jl_acks (foldr (own j mid) evs q) = jl_acks q + acks_of mid evs"
  by (induction evs) (auto simp: acks_of_def own_def observe_def split: event.split sum.split option.split)

lemma own_cancel: "jl_cancel (foldr (own j mid) evs q) \<longleftrightarrow> jl_cancel q \<or> (\<exists>ev \<in> set evs. cancel_read j ev)"
  by (induction evs) (auto simp: cancel_read_def own_def observe_def split: event.split sum.split option.split)

lemma own_states: "jl_states (foldr (own j mid) evs q) = jl_states q @ states_written j evs"
  by (induction evs) (auto simp: states_written_def own_def observe_def split: event.split sum.split option.split)

lemma own_bad_post_mono: "jl_bad_post q \<Longrightarrow> jl_bad_post (foldr (own j mid) evs q)"
  by (induction evs) (auto simp: own_def observe_def split: event.split sum.split option.split)

lemma own_bad_post:
  assumes "\<not> jl_bad_post (foldr (own j mid) (newer @ ev # older) q)" and "cancel_read j ev"
    and "p \<in> set newer"
  shows "\<not> post_of j p"
proof
  assume p: "post_of j p"
  from assms(3) obtain a b where n: "newer = a @ p # b" by (auto simp: in_set_conv_decomp)
  let ?q = "foldr (own j mid) (b @ ev # older) q"
  have "jl_cancel ?q" using assms(2) by (simp add: own_cancel del: foldr_append)
  with p have "jl_bad_post (own j mid p ?q)" by (auto simp: post_of_def own_def)
  then have "jl_bad_post (foldr (own j mid) (a @ p # b @ ev # older) q)"
    by (simp add: own_bad_post_mono)
  with assms(1) n show False by simp
qed

lemma task_inv_no_bad_post: "task_inv pc q \<Longrightarrow> \<not> jl_bad_post q \<and> jl_acks q \<le> 1"
  by (cases pc) auto

lemma settled_trace:
  "settled (foldr (own j mid) evs job_log0) \<longleftrightarrow>
     (if \<exists>ev \<in> set evs. cancel_read j ev
      then states_written j evs = [''cancelled''] \<or> states_written j evs = [''completed'', ''cancelled'']
      else states_written j evs = [''completed''])"
  by (simp add: settled_def own_cancel own_states job_log0_def)

lemma task_inv_done:
  "task_inv DeliveryDone (foldr (own j mid) evs job_log0) \<Longrightarrow>
   acks_of mid evs = 1 \<and> settled (foldr (own j mid) evs job_log0)"
  by (simp add: own_acks job_log0_def)

text \<open>The executable scheduler only produces interleavings of the step relation.\<close>

fun failed :: "dpc \<Rightarrow> bool" where
  "failed (DeliveryFailed _) = True"
| "failed _ = False"

lemma note_failure_None:
  "note_failure first pc s1 = (Ret None, s2) \<Longrightarrow> first = None \<and> \<not> failed pc"
  by (cases first; cases pc) (auto simp: note_failure_def bind_def modify_def ret_def)

definition run_reaches ::
  "env \<Rightarrow> string \<Rightarrow> delivery list \<Rightarrow> dpc list \<Rightarrow> 's consumer_scheme \<Rightarrow> exc option outcome \<Rightarrow> 's consumer_scheme \<Rightarrow> dpc list \<Rightarrow> bool" where
  "run_reaches E t dls pcs s r s' pcs' \<longleftrightarrow>
     (batch_step E t dls)\<^sup>*\<^sup>* (pcs, s) (pcs', s') \<and> length pcs' = length pcs
     \<and> (r \<noteq> Stuck \<longrightarrow> list_all finished pcs')
     \<and> (r = Ret None \<longrightarrow> list_all (\<lambda>pc. \<not> failed pc) pcs \<longrightarrow> list_all (\<lambda>pc. \<not> failed pc) pcs')"

lemma gather_run_reaches:
  assumes "gather_run E fuel t dls pcs first s = (r, s')"
  shows "(r = Ret None \<longrightarrow> first = None) \<and> (\<exists>pcs'. run_reaches E t dls pcs s r s' pcs')"
  using assms
proof (induction fuel arbitrary: pcs first s)
  case 0
  then show ?case
    by (auto simp: run_reaches_def gather_run.simps ret_def stuck_def list_all_iff dest!: runnable_empty split: if_splits)
next
  case (Suc fuel)
  show ?case
  proof (cases "runnable pcs = []")
    case True
    then show ?thesis using Suc.prems runnable_empty [OF True]
      by (auto simp: run_reaches_def gather_run.simps ret_def list_all_iff)
  next
    case False
    obtain i pc s1 f s2 where st: "i < length pcs" "\<not> finished (pcs ! i)"
      "deliver_step E t (dls ! i) (pcs ! i) s = (Ret pc, s1)" and "c_webhook s1 = c_webhook s"
      and s2: "s2 = s1 \<or> s2 = s1\<lparr>c_idle_event := True\<rparr>" and nf: "note_failure first pc s1 = (Ret f, s2)"
      and run: "gather_run E (Suc fuel) t dls pcs first s = gather_run E fuel t dls (pcs[i := pc]) f s2"
      using gather_run_turn [OF False, where E = E and t = t and dls = dls and s = s and first = first] by metis
    have "batch_step E t dls (pcs, s) (pcs[i := pc], s1)" using st by (rule batch_step.turn)
    moreover have "batch_step E t dls (pcs[i := pc], s1) (pcs[i := pc], s2)"
      using s2 by (intro batch_step.other [where evs = "[]"]) auto
    moreover obtain pcs' where r: "run_reaches E t dls (pcs[i := pc]) s2 r s' pcs'" "r = Ret None \<longrightarrow> f = None"
      using Suc.IH [OF Suc.prems [unfolded run]] by auto
    moreover have "list_all (\<lambda>pc. \<not> failed pc) (pcs[i := pc])"
      if "r = Ret None" "list_all (\<lambda>pc. \<not> failed pc) pcs"
    proof -
      have "\<not> failed pc" using that r(2) nf note_failure_None [of first pc s1 s2] by simp
      then show ?thesis
        using that(2) set_update_subset_insert [of pcs i pc] by (auto simp: list_all_iff)
    qed
    ultimately have "run_reaches E t dls pcs s r s' pcs'"
      unfolding run_reaches_def by (auto intro: converse_rtranclp_into_rtranclp)
    then show ?thesis using r(2) nf note_failure_None by blast
  qed
qed

text \<open>
  C2. However the deliveries of a batch are interleaved with each other and with the rest of the
  program, for every delivery of jobs and messages that are pairwise distinct: once the cancel flag
  of its job was read as set, no webhook of that job is posted; its message is acknowledged at most
  once, and exactly once when the delivery is done; and a delivery that is done wrote
  \<^verbatim>\<open>completed\<close> only, or, if it saw the cancel flag, \<^verbatim>\<open>cancelled\<close> as the last state.
\<close>

theorem interleaved_deliveries_safe:
  assumes "(batch_step E t dls)\<^sup>*\<^sup>* (map (\<lambda>_. CheckFirst) dls, s) (pcs, s')"
    and "distinct (map dl_job dls)" and "distinct (map dl_mid dls)"
    and "i < length dls" and "dls ! i = (mid, j, url, res)" and "trace s' = evs @ trace s"
  shows "(\<forall>newer v older. evs = newer @ EvGet (cancel_key j) (Inr (Some v)) # older
             \<longrightarrow> (\<forall>ev \<in> set newer. \<not> post_of j ev))
     \<and> acks_of mid evs \<le> 1
     \<and> (pcs ! i = DeliveryDone \<longrightarrow> acks_of mid evs = 1
          \<and> (if \<exists>ev \<in> set evs. cancel_read j ev
             then states_written j evs \<noteq> [] \<and> last (states_written j evs) = ''cancelled''
             else states_written j evs = [''completed'']))"
proof -
  let ?q = "foldr (own j mid) evs job_log0"
  have inv: "task_inv (pcs ! i) ?q"
    using batch_inv_reachable [OF assms(1-3)] assms(4-6) by (auto simp: batch_inv_def dl_job_def dl_mid_def)
  have "\<not> post_of j p" if "evs = newer @ EvGet (cancel_key j) (Inr (Some v)) # older" "p \<in> set newer"
    for newer v older p
    using own_bad_post [OF _ _ that(2)] task_inv_no_bad_post [OF inv, unfolded that(1)]
    by (metis cancel_read_def)
  moreover have "acks_of mid evs \<le> 1"
    using task_inv_no_bad_post [OF inv] by (simp add: own_acks job_log0_def)
  moreover have "acks_of mid evs = 1 \<and> settled ?q" if "pcs ! i = DeliveryDone"
    using inv that task_inv_done by simp
  ultimately show ?thesis by (auto simp: settled_trace split: if_splits)
qed

text \<open>Two deliveries under a scheduler that alternates; the cloud cancels the first job late.\<close>

definition sample_pair :: "delivery list" where
  "sample_pair = [(''1-0'', ''j1'', ''u'', sample_result), (''2-0'', ''j2'', ''u'', sample_result)]"

definition pair_env :: env where
  "pair_env = calm_env\<lparr>e_sched := length,
     e_get := (\<lambda>h k. Inr (if 3 < length h \<and> k = cancel_key ''j1'' then Some ''1'' else None))\<rparr>"

definition pair_run :: "exc option outcome \<times> consumer" where
  "pair_run = gather_run pair_env 24 ''t'' sample_pair [CheckFirst, CheckFirst] None sample_consumer"

theorem interleaved_deliveries_safe_witness: "acks_of ''1-0'' (trace (snd pair_run)) \<le> 1"
proof -
  have run: "gather_run pair_env 24 ''t'' sample_pair [CheckFirst, CheckFirst] None sample_consumer
      = (fst pair_run, snd pair_run)" by (simp add: pair_run_def)
  have start: "map (\<lambda>_. CheckFirst) sample_pair = [CheckFirst, CheckFirst]" by (simp add: sample_pair_def)
  from gather_run_reaches [OF run] obtain pcs where
    "(batch_step pair_env ''t'' sample_pair)\<^sup>*\<^sup>* (map (\<lambda>_. CheckFirst) sample_pair, sample_consumer) (pcs, snd pair_run)"
    unfolding run_reaches_def start by blast
  from interleaved_deliveries_safe [OF this, of 0 "''1-0''" "''j1''" "''u''" sample_result "trace (snd pair_run)"]
  show ?thesis by (simp add: sample_pair_def dl_job_def dl_mid_def sample_facts)
qed


definition sample_ir :: native_gate_ir where
  "sample_ir = \<lparr>ir_version = ''1.0'', ir_target = ''cz'', ir_num_qubits = 2,
     ir_gates = [\<lparr>op_gate = CZ, op_qubits = [0, 1], op_params = []\<rparr>], ir_measurements = [0, 1],
     ir_metadata = \<lparr>source_hash = ''h'', compiled_at = ''t'', compiler_version = ''0.1.0'', optimization_level = 2\<rparr>\<rparr>"

definition sample_batch :: "parsed_job list" where
  "sample_batch = [(''1-0'', ''j1'', ''u'', sample_ir, 7), (''2-0'', ''j2'', ''u'', sample_ir, 7)]"

definition batch_delivery_run :: "unit outcome \<times> consumer" where
  "batch_delivery_run = deliver_batch_results pair_env sample_batch [sample_result, sample_result] sample_consumer"


end
