(* ===== verification/Loop_Safety.thy ===== *)
theory Loop_Safety
  imports Batch_Safety
begin

text \<open>
  Properties of \<^verbatim>\<open>consume_loop\<close>, crash recovery and \<^verbatim>\<open>drain\<close>: the reconnection schedule, what an
  iteration lets escape, the fate of a failed background delivery, and what a clean drain means.
\<close>

section \<open>Reconnection\<close>

text \<open>
  The reconnection delay starts at one second, doubles with every consecutive failure and stays
  at sixty seconds from the seventh failure on.
\<close>

theorem backoff_schedule:
  "backoff k = (if k \<le> 6 then 2 ^ (k - 1) else 60) \<and> 1 \<le> backoff k \<and> backoff k \<le> backoff (Suc k) \<and> backoff k \<le> 60"
proof -
  have big: "(60 :: rat) \<le> 2 ^ n" if "6 \<le> n" for n
  proof -
    have "(2 :: rat) ^ 6 \<le> 2 ^ n" using that by (intro power_increasing) auto
    then show ?thesis by simp
  qed
  have eq: "backoff k = (if k \<le> 6 then 2 ^ (k - 1) else 60)" for k
  proof (cases "k \<le> 6")
    case True
    then have "k \<in> {0, 1, 2, 3, 4, 5, 6}" by auto
    then show ?thesis by (auto simp: backoff_def BACKOFF_BASE_def BACKOFF_FACTOR_def BACKOFF_MAX_def)
  next
    case False
    then show ?thesis using big [of "k - 1"]
      by (auto simp: backoff_def BACKOFF_BASE_def BACKOFF_FACTOR_def BACKOFF_MAX_def min_def)
  qed
  have "k \<le> 6 \<Longrightarrow> k \<in> {0, 1, 2, 3, 4, 5, 6}" by auto
  then show ?thesis by (cases "k \<le> 6") (auto simp: eq)
qed

text \<open>An outage: every read fails with a connection error and every pause returns.\<close>

definition outage :: "env \<Rightarrow> bool" where
  "outage E \<longleftrightarrow> (\<forall>h n. \<exists>m. e_xread E h n = Inl (ConnectionErr m)) \<and> (\<forall>h d. e_sleep E h d = None) \<and> (\<forall>h. \<not> e_stop E h)"

lemma consume_iteration_outage:
  assumes "outage E"
  shows "\<exists>s' x. consume_iteration E fuel s = (Ret (), s') \<and>
     trace s' = EvSleep (backoff (Suc (consecutive_failures s))) None # EvXread (read_count s) x # trace s \<and>
     consecutive_failures s' = Suc (consecutive_failures s) \<and> \<not> redis_healthy s' \<and>
     c_running s' = c_running s \<and> c_can_batch s' = c_can_batch s"
proof -
  obtain m where "e_xread E (trace s) (read_count s) = Inl (ConnectionErr m)"
    using assms unfolding outage_def by blast
  then show ?thesis using assms
    by (simp add: outage_def consume_iteration_def iteration_body_def on_loop_error_def catch_def bind_def
        gets_def ask_def emit_def of_sum_def modify_def raise_def ret_def sleep_def of_opt_def)
qed

fun outage_sleeps :: "nat \<Rightarrow> nat \<Rightarrow> rat list" where
  "outage_sleeps k 0 = []"
| "outage_sleeps k (Suc n) = backoff (Suc k) # outage_sleeps (Suc k) n"

text \<open>
  C12. During a Redis outage the loop neither stops nor gives up: after any number of iterations it is
  still running, it has counted every failure, it reports itself unhealthy, and its pauses are
  exactly the backoff schedule.
\<close>

theorem outage_backoff:
  assumes "outage E" and "c_running s"
  shows "\<exists>s' evs. consume_while E fuel n s = (Stuck, s') \<and> trace s' = evs @ trace s
     \<and> sleeps_of evs = outage_sleeps (consecutive_failures s) n
     \<and> consecutive_failures s' = consecutive_failures s + n \<and> (0 < n \<longrightarrow> \<not> redis_healthy s')"
  using assms(2)
proof (induction n arbitrary: s)
  case 0
  then show ?case using assms(1)
    by (subst consume_while.simps)
      (auto simp: outage_def bind_def gets_def ret_def stuck_def sleeps_of_def intro!: exI [of _ "[]"])
next
  case (Suc n)
  obtain s1 x where it: "consume_iteration E fuel s = (Ret (), s1)"
    and s1: "trace s1 = EvSleep (backoff (Suc (consecutive_failures s))) None # EvXread (read_count s) x # trace s"
      "consecutive_failures s1 = Suc (consecutive_failures s)" "\<not> redis_healthy s1" "c_running s1"
    using consume_iteration_outage [OF assms(1), of fuel s] Suc.prems by metis
  obtain s' evs where "consume_while E fuel n s1 = (Stuck, s')" "trace s' = evs @ trace s1"
    "sleeps_of evs = outage_sleeps (consecutive_failures s1) n"
    "consecutive_failures s' = consecutive_failures s1 + n" "0 < n \<longrightarrow> \<not> redis_healthy s'"
    using Suc.IH [OF s1(4)] by blast
  moreover have "consume_while E fuel (Suc n) s = consume_while E fuel n s1"
    using it Suc.prems assms(1)
    by (subst consume_while.simps) (simp add: outage_def bind_def gets_def ret_def)
  moreover have "redis_healthy s' \<longrightarrow> n > 0" using calculation s1(3) assms(1)
    by (cases n) (auto simp: consume_while.simps outage_def bind_def gets_def ret_def stuck_def s1(4))
  ultimately show ?case using s1
    by (intro exI [of _ s'] exI [of _ "evs @ [EvSleep (backoff (Suc (consecutive_failures s))) None, EvXread (read_count s) x]"])
      (auto simp: sleeps_of_def)
qed

definition outage_env :: env where
  "outage_env = calm_env\<lparr>e_xread := (\<lambda>_ _. Inl (ConnectionErr ''down''))\<rparr>"

definition sample_loop :: loop_state where
  "sample_loop = consumer.extend (sample_consumer\<lparr>c_running := True\<rparr>)
     \<lparr>consecutive_failures = 0, last_pending_check = 0\<rparr>"

theorem outage_backoff_witness:
  "\<exists>s' evs. consume_while outage_env 9 4 sample_loop = (Stuck, s') \<and> trace s' = evs \<and> sleeps_of evs = [1, 2, 4, 8]"
proof -
  have "outage outage_env" "c_running sample_loop"
    by (simp_all add: outage_def outage_env_def calm_env_def sample_loop_def consumer.defs)
  moreover have "outage_sleeps 0 4 = [1, 2, 4, 8]" by code_simp
  ultimately show ?thesis
    using outage_backoff [of outage_env sample_loop 9 4]
    by (auto simp: sample_loop_def consumer.defs sample_consumer_def consumer_init_def)
qed

section \<open>What an iteration lets escape\<close>

text \<open>
  C10. No error of Redis, of the executor, of a job or of a webhook ends the loop: an iteration raises
  only what is not an \<^verbatim>\<open>Exception\<close> (the cancellation of the consumer's task), or what
  \<^verbatim>\<open>asyncio.sleep\<close> itself raises during a pause.
\<close>

theorem iteration_contains_errors:
  assumes "consume_iteration E fuel s = (Raise e, s')"
  shows "\<not> is_Exception e \<or> (\<exists>d h. trace s' = EvSleep d (Some e) # h)"
proof -
  let ?Q = "\<lambda>r s'. \<forall>e. r = Raise e \<longrightarrow> \<not> is_Exception e \<or> (\<exists>d h. trace s' = EvSleep d (Some e) # h)"
  have "wp (consume_iteration E fuel) ?Q s"
    unfolding consume_iteration_def wp_catch
    by (rule wp_mono [OF wp_True])
      (auto simp: on_loop_error_def wp_simps Let_def split: outcome.split option.split)
  then show ?thesis using assms by (auto simp: wp_def)
qed

theorem iteration_contains_errors_witness:
  "\<exists>s'. consume_iteration (calm_env\<lparr>e_xread := (\<lambda>_ _. Inl CancelledError)\<rparr>) 9 sample_loop = (Raise CancelledError, s')
    \<and> (\<not> is_Exception CancelledError \<or> (\<exists>d h. trace s' = EvSleep d (Some CancelledError) # h))"
proof -
  let ?E = "calm_env\<lparr>e_xread := (\<lambda>_ _. Inl CancelledError)\<rparr>"
  have r: "consume_iteration ?E 9 sample_loop = (Raise CancelledError, snd (consume_iteration ?E 9 sample_loop))"
    by (rule run_eq) code_simp
  from iteration_contains_errors [OF r] r show ?thesis by blast
qed

section \<open>A delivery that raised\<close>

definition poisoned :: "exc \<Rightarrow> 's consumer_scheme \<Rightarrow> bool" where
  "poisoned e s \<longleftrightarrow> c_pending_batch_delivery s = Some (Delivered (Raise e))"

lemma poisoned_update [simp]:
  "poisoned e (trace_update f s) = poisoned e s" "poisoned e (redis_healthy_update g s) = poisoned e s"
  "poisoned e (c_running_update g s) = poisoned e s"
  "poisoned e (consecutive_failures_update k l) = poisoned e l"
  by (simp_all add: poisoned_def)

fun quiet :: "event \<Rightarrow> bool" where
  "quiet (EvXread _ _) = True"
| "quiet (EvSleep _ _) = True"
| "quiet _ = False"

definition poisoned_run :: "exc \<Rightarrow> 's consumer_scheme \<Rightarrow> 's consumer_scheme \<Rightarrow> bool" where
  "poisoned_run e s s' \<longleftrightarrow> poisoned e s' \<and> (\<exists>evs. trace s' = evs @ trace s \<and> (\<forall>ev \<in> set evs. quiet ev))"

lemma poisoned_run_refl: "poisoned e s \<Longrightarrow> poisoned_run e s s"
  by (simp add: poisoned_run_def)

lemma poisoned_run_trans: "poisoned_run e s s1 \<Longrightarrow> poisoned_run e s1 s2 \<Longrightarrow> poisoned_run e s s2"
  by (fastforce simp: poisoned_run_def)

lemma poisoned_run_event:
  "poisoned_run e s s' \<Longrightarrow> quiet ev \<Longrightarrow> poisoned_run e s (trace_update (\<lambda>h. ev # h) s')"
  by (auto simp: poisoned_run_def)

lemma poisoned_run_update [simp]:
  "poisoned_run e s (redis_healthy_update g s') = poisoned_run e s s'"
  "poisoned_run e s (c_running_update g s') = poisoned_run e s s'"
  "poisoned_run e l (consecutive_failures_update k l') = poisoned_run e l l'"
  by (simp_all add: poisoned_run_def)

lemma wp_run_delivered:
  "wp (run_delivery E (Delivered r)) Q s = Q r (s\<lparr>c_pending_batch_delivery := Some (Delivered r)\<rparr>)"
  by (simp add: wp_def run_delivery_def)

lemma wp_await_poisoned: "poisoned e s \<Longrightarrow> wp (await_delivery E) Q s = Q (Raise e) s"
  by (cases s) (simp add: await_delivery_def wp_bind wp_gets poisoned_def wp_run_delivered)

lemma poisoned_iteration:
  assumes "poisoned e s"
  shows "wp (consume_iteration E fuel) (\<lambda>_. poisoned_run e s) s"
proof -
  have handler: "case on_loop_error E x of None \<Rightarrow> poisoned_run e s s' | Some n \<Rightarrow> wp n (\<lambda>_. poisoned_run e s) s'"
    if "poisoned_run e s s'" for x s'
    using that by (auto simp: on_loop_error_def wp_simps Let_def intro!: poisoned_run_event split: option.split)
  have read: "poisoned_run e s (trace_update (\<lambda>h. EvXread n x # h) s)" for n x
    using assms by (intro poisoned_run_event poisoned_run_refl) simp_all
  show ?thesis
    using assms handler read
    by (auto simp: consume_iteration_def iteration_body_def wp_catch wp_bind wp_gets wp_ask wp_of_sum Let_def
        wp_modify wp_await_poisoned split: sum.split)
qed

text \<open>
  C5. Once the background delivery of a batch has raised, the consumer never processes another
  message: the failed task is awaited again in every iteration and never cleared, so each iteration
  reads from the stream, raises and pauses.  No job is started, no status is written, no webhook is
  posted and nothing is acknowledged, although new messages keep being claimed.
\<close>

theorem failed_delivery_stops_consumer:
  assumes "c_pending_batch_delivery s = Some (Delivered (Raise e))"
  shows "\<exists>r s' evs. consume_while E fuel n s = (r, s') \<and> trace s' = evs @ trace s
     \<and> (\<forall>ev \<in> set evs. quiet ev) \<and> c_pending_batch_delivery s' = Some (Delivered (Raise e))"
proof -
  have "wp (consume_while E fuel n) (\<lambda>_. poisoned_run e s0) s" if "poisoned_run e s0 s" for s0 s
    using that
  proof (induction n arbitrary: s)
    case 0
    then show ?case by (subst consume_while.simps) (simp add: wp_simps stop_def)
  next
    case (Suc n)
    have it: "wp (consume_iteration E fuel) (\<lambda>r s'. case r of Ret a \<Rightarrow> wp (consume_while E fuel n) (\<lambda>_. poisoned_run e s0) s'
        | Raise x \<Rightarrow> poisoned_run e s0 s' | Stuck \<Rightarrow> poisoned_run e s0 s') s1" if "poisoned_run e s0 s1" for s1
    proof (rule wp_mono [OF poisoned_iteration])
      show "poisoned e s1" using that by (simp add: poisoned_run_def)
    qed (use poisoned_run_trans [OF that] in \<open>auto intro: Suc.IH split: outcome.split\<close>)
    show ?case using Suc.prems it
      by (subst consume_while.simps) (simp add: wp_bind wp_gets wp_if wp_ret stop_def wp_modify)
  qed
  from this [OF poisoned_run_refl, of s] assms have "wp (consume_while E fuel n) (\<lambda>_. poisoned_run e s) s"
    by (simp add: poisoned_def)
  then show ?thesis
    by (cases "consume_while E fuel n s") (auto simp: wp_def poisoned_run_def poisoned_def)
qed

definition poisoned_loop :: loop_state where
  "poisoned_loop = sample_loop\<lparr>c_pending_batch_delivery := Some (Delivered (Raise (ValueErr ''zip'')))\<rparr>"

theorem failed_delivery_stops_consumer_witness:
  "\<exists>r s'. consume_while calm_env 9 5 poisoned_loop = (r, s')
     \<and> c_pending_batch_delivery s' = Some (Delivered (Raise (ValueErr ''zip'')))"
proof -
  have "c_pending_batch_delivery poisoned_loop = Some (Delivered (Raise (ValueErr ''zip'')))"
    by (simp add: poisoned_loop_def)
  from failed_delivery_stops_consumer [OF this, of calm_env 9 5] show ?thesis by blast
qed

section \<open>Crash recovery\<close>

definition acked_mon :: "string \<Rightarrow> event \<Rightarrow> bool \<Rightarrow> bool" where
  "acked_mon mid ev b \<longleftrightarrow> b \<or> (\<exists>x. ev = EvXack mid x)"

lemma acked_mon_simps [simp]: "acked_mon mid (EvXack mid x) b" "acked_mon mid ev True"
  by (auto simp: acked_mon_def)

lemma foldr_acked_mon: "foldr (acked_mon mid) evs b \<longleftrightarrow> b \<or> (\<exists>x. EvXack mid x \<in> set evs)"
  by (induction evs) (auto simp: acked_mon_def)

lemma mtriple_post_any:
  assumes "traceless J" and "\<And>r q'. Post r q'"
  shows "mtriple J mon q (post_with_retry E w url b) Post"
proof (rule mtripleI)
  fix s assume "J s"
  then show "wp (post_with_retry E w url b) (\<lambda>r s'. J s' \<and> (\<exists>evs. trace s' = evs @ trace s \<and> Post r (foldr mon evs q))) s"
    unfolding post_with_retry_def using assms
    by (intro wp_mono [OF post_attempts_log]) (auto simp: extends_def traceless_def)
qed

lemma mtriple_poll_any:
  "traceless J \<Longrightarrow> (\<And>r q'. Post r q') \<Longrightarrow> mtriple J mon q (poll_loop E fuel j) Post"
proof (induction fuel arbitrary: q)
  case 0
  then show ?case by (auto intro!: mtriple_intros)
next
  case (Suc fuel)
  then show ?case
    by (auto intro!: mtriple_intros consumer_intros split: option.split)
qed

lemma mtriple_guarded_any:
  assumes "\<And>r q'. Post r q'"
  shows "mtriple (\<lambda>_. True) mon q (guarded_job E fuel mid j url d) Post"
proof -
  have [simp]: "traceless (\<lambda>_. True)" by (simp add: traceless_def)
  show ?thesis
    unfolding guarded_job_def execute_and_report_def run_handlers_def report_failure_def send_error_def
      send_result_def run_job_with_cancellation_def
    by (auto intro!: mtriple_intros consumer_intros mtriple_post_any mtriple_poll_any mtriple_modify
        simp: assms split: outcome.splits prod.split)
qed

lemma mtriple_message_acked:
  "mtriple (\<lambda>_. True) (acked_mon mid) b (process_message E fuel mid fs) (\<lambda>r b'. r = Ret () \<longrightarrow> b')"
proof -
  have [simp]: "traceless (\<lambda>_. True)" by (simp add: traceless_def)
  show ?thesis
    unfolding process_message_def start_job_def release_def
    by (auto intro!: mtriple_intros consumer_intros mtriple_modify mtriple_guarded_any
        simp: acked_mon_def split: outcome.splits sum.split prod.split)
qed

lemma process_message_acks:
  assumes "process_message E fuel mid fs s = (r, s')"
  obtains evs where "trace s' = evs @ trace s" "r = Ret () \<Longrightarrow> \<exists>x. EvXack mid x \<in> set evs"
  using mtripleD [OF mtriple_message_acked [where b = False] TrueI assms] by (auto simp: foldr_acked_mon)

lemma recover_entries_acks:
  assumes "recover_entries E fuel mids n s = (Ret m, s')"
  shows "\<exists>evs. trace s' = evs @ trace s \<and> m \<le> n + length mids
     \<and> (\<forall>mid \<in> set mids. EvXrange mid (Inr []) \<in> set evs \<or> (\<exists>x. EvXack mid x \<in> set evs))"
  using assms
proof (induction mids arbitrary: n s)
  case Nil
  then show ?case by (auto simp: ret_def)
next
  case (Cons mid mids)
  let ?x = "e_xrange E (trace s) mid" and ?s1 = "trace_update (\<lambda>h. EvXrange mid (e_xrange E (trace s) mid) # h) s"
  from Cons.prems obtain msgs where x: "?x = Inr msgs"
    by (cases ?x) (auto simp: bind_def ask_def gets_def emit_def modify_def of_sum_def raise_def ret_def)
  show ?case
  proof (cases msgs)
    case Nil
    then have "recover_entries E fuel mids n ?s1 = (Ret m, s')"
      using Cons.prems x by (simp add: bind_def ask_def gets_def emit_def modify_def of_sum_def ret_def)
    from Cons.IH [OF this] obtain evs where "trace s' = evs @ trace ?s1" "m \<le> n + length mids"
      "\<forall>mid \<in> set mids. EvXrange mid (Inr []) \<in> set evs \<or> (\<exists>x. EvXack mid x \<in> set evs)" by blast
    then show ?thesis using x Nil
      by (intro exI [of _ "evs @ [EvXrange mid (Inr [])]"]) auto
  next
    case (Cons msg rest)
    then have "bind (process_message E fuel mid (snd msg)) (\<lambda>_. recover_entries E fuel mids (Suc n)) ?s1 = (Ret m, s')"
      using Cons.prems x by (simp add: bind_def ask_def gets_def emit_def modify_def of_sum_def ret_def)
    then obtain s2 where p: "process_message E fuel mid (snd msg) ?s1 = (Ret (), s2)"
      and r: "recover_entries E fuel mids (Suc n) s2 = (Ret m, s')"
      by (cases "process_message E fuel mid (snd msg) ?s1") (auto simp: bind_def split: outcome.splits)
    obtain evs1 where "trace s2 = evs1 @ trace ?s1" "\<exists>x. EvXack mid x \<in> set evs1"
      using process_message_acks [OF p] by auto
    moreover from Cons.IH [OF r] obtain evs where "trace s' = evs @ trace s2" "m \<le> Suc n + length mids"
      "\<forall>mid \<in> set mids. EvXrange mid (Inr []) \<in> set evs \<or> (\<exists>x. EvXack mid x \<in> set evs)" by blast
    ultimately show ?thesis
      by (intro exI [of _ "evs @ evs1 @ [EvXrange mid ?x]"]) auto
  qed
qed


definition pending_env :: env where
  "pending_env = calm_env\<lparr>e_xpending := (\<lambda>_. Inr [''1-0'', ''2-0'']),
     e_xrange := (\<lambda>_ mid. Inr (if mid = ''1-0'' then [(mid, sample_fields)] else []))\<rparr>"


section \<open>Shutdown\<close>

lemma deliver_batch_running: "wp (deliver_batch_results E parsed results) (\<lambda>_ s'. c_running s' = c_running s) s"
proof -
  have g: "wp (gather_run E fuel t dls pcs first) (\<lambda>_ s'. c_running s' = c_running s0) s0" for fuel t dls pcs first s0
    by (cases "gather_run E fuel t dls pcs first s0") (simp add: wp_def gather_run_running)
  have "wp (gather_deliveries E t parsed results) (\<lambda>_ s'. c_running s' = c_running s) s" for t
    unfolding gather_deliveries_def Let_def
    by (auto simp: wp_if wp_bind wp_gets wp_raise intro!: wp_mono [OF g] simp: wp_simps split: option.split outcome.split)
  then show ?thesis
    unfolding deliver_batch_results_def wp_bind wp_now_iso wp_finally outcome.case
    by (rule wp_mono) (auto simp: wp_modify split: outcome.split)
qed

lemma await_delivery_stopped:
  "\<not> c_running s \<Longrightarrow> wp (await_delivery E) (\<lambda>r s'. \<not> c_running s' \<and> (r = Ret () \<longrightarrow> c_pending_batch_delivery s' = None)) s"
proof -
  assume s: "\<not> c_running s"
  have "wp (run_delivery E task) (\<lambda>_ s'. \<not> c_running s') s" for task
  proof (cases task)
    case (Delivering ps rs)
    then show ?thesis using s deliver_batch_running [of E ps rs s]
      by (cases "deliver_batch_results E ps rs s") (simp add: wp_def run_delivery_def)
  qed (use s in \<open>simp add: wp_run_delivered\<close>)
  then have "wp (bind (run_delivery E task) (\<lambda>_. modify (\<lambda>s. s\<lparr>c_pending_batch_delivery := None\<rparr>)))
      (\<lambda>r s'. \<not> c_running s' \<and> (r = Ret () \<longrightarrow> c_pending_batch_delivery s' = None)) s" for task
    unfolding wp_bind by (rule wp_mono) (auto simp: wp_modify split: outcome.split)
  then show ?thesis
    using s by (simp add: await_delivery_def wp_bind [of "gets _"] wp_gets wp_ret split: option.split)
qed

lemma wp_drain:
  "wp (drain E) (\<lambda>r s'. r = Ret True \<longrightarrow> \<not> c_running s' \<and> c_pending_batch_delivery s' = None
     \<and> (c_idle_event s \<or> e_idle_wait E (trace s))) s" (is "wp _ ?Q s")
proof -
  have await: "wp (catch (bind (await_delivery E) (\<lambda>_. ret True)) (\<lambda>e. if e_is_timeout E e then Some (ret False) else None))
      (\<lambda>r s'. r = Ret True \<longrightarrow> \<not> c_running s' \<and> c_pending_batch_delivery s' = None) s0" if "\<not> c_running s0" for s0
    unfolding wp_catch wp_bind
    by (rule wp_mono [OF await_delivery_stopped [OF that]]) (auto simp: wp_ret split: outcome.split)
  show ?thesis
    using await [of "s\<lparr>c_running := False\<rparr>"]
    by (auto simp: drain_def stop_def wp_bind wp_modify wp_gets wp_if wp_ret split: option.split elim!: wp_mono)
qed



end
