(* ===== verification/Progress.thy ===== *)
theory Progress
  imports Loop_Safety
begin

text \<open>
  Progress of the consumer: with an executor that answers, every message, every recovery and every
  iteration of the main loop comes to an end.
\<close>

section \<open>Waiting for the executor\<close>

text \<open>The polls that timed out since the executor was started last.\<close>

fun timeouts :: "history \<Rightarrow> nat" where
  "timeouts [] = 0"
| "timeouts (ev # h) =
     (case ev of EvWait (Inr None) \<Rightarrow> Suc (timeouts h) | EvRunStart _ _ \<Rightarrow> 0 | _ \<Rightarrow> timeouts h)"

definition answers_within :: "env \<Rightarrow> nat \<Rightarrow> bool" where
  "answers_within E m \<longleftrightarrow> (\<forall>h. m \<le> timeouts h \<longrightarrow> e_wait E h \<noteq> Inr None)"

text \<open>An invariant that does not look at the trace is kept by every call to the outside.\<close>

locale trace_blind =
  fixes I :: "'s world_scheme \<Rightarrow> bool"
  assumes blind: "I (trace_update g s) = I s"
begin

lemma ends_world [ends_rules]:
  "ends I (emit ev)" "ends I (ask reply mk)" "ends I (of_opt r)" "ends I (hset E k fs)" "ends I (xack E mid)"
  "ends I (redis_get E k)" "ends I (redis_hget E k f)" "ends I (sleep E d)" "ends I (now_iso E)"
  "ends I (safe_hset E k fs)" "ends I (safe_xack E mid)" "ends I (has_cancel_signal E j)"
  by (rule endsI, simp add: wp_simps Let_def blind split: option.split sum.split)+

lemma ends_status [ends_rules]: "ends I (get_job_status E j)" "ends I (request_runner_cancel E)" "ends I (check_cancel E j)"
  unfolding get_job_status_def request_runner_cancel_def check_cancel_def
  by (intro ends_rules; auto split: if_splits intro: ends_rules)+

lemma poll_loop_ends:
  assumes "answers_within E m"
  shows "I s \<Longrightarrow> m - timeouts (trace s) < fuel \<Longrightarrow> wp (poll_loop E fuel j) (\<lambda>r s'. r \<noteq> Stuck \<and> I s') s"
proof (induction fuel arbitrary: s)
  case (Suc fuel)
  let ?Q = "\<lambda>r s'. r \<noteq> Stuck \<and> I s'"
  let ?w = "e_wait E (trace s)"
  let ?s1 = "trace_update (\<lambda>h. EvWait ?w # h) s"
  let ?g = "e_get E (trace ?s1) (cancel_key j)"
  let ?s2 = "trace_update (\<lambda>h. EvGet (cancel_key j) ?g # h) ?s1"
  have I: "I ?s1" "I ?s2" using Suc.prems(1) by (simp_all only: blind)
  have again: "wp (poll_loop E fuel j) ?Q ?s2" if "?w = Inr None"
  proof -
    have "timeouts (trace s) < m" using assms that unfolding answers_within_def by (meson not_le)
    then show ?thesis using Suc.prems(2) that by (intro Suc.IH I) auto
  qed
  have cancelled: "wp (bind (request_runner_cancel E) (\<lambda>_. bind (ask (e_task_cancel E) EvTaskCancel)
      (\<lambda>_. raise JobCancelledWhileExecuting))) ?Q ?s2"
    by (rule endsD [where I = I, OF _ I(2)]) (intro ends_rules)
  show ?case
  proof (cases "?w = Inr None")
    case True
    show ?thesis
    proof (cases ?g)
      case (Inl e)
      then show ?thesis using True I by (simp add: wp_simps Let_def)
    next
      case (Inr v)
      then show ?thesis using True again cancelled by (cases v) (simp_all add: wp_simps Let_def)
    qed
  next
    case False
    then show ?thesis using Suc.prems(1) by (auto simp: wp_simps Let_def blind split: sum.split option.split)
  qed
qed simp

lemma ends_run_job:
  assumes "answers_within E m" "m < fuel"
  shows "ends I (run_job_with_cancellation E fuel j ir shots)"
proof (rule endsI)
  fix s assume "I s"
  let ?s1 = "trace_update (\<lambda>h. EvRunStart ir shots # h) s"
  have "wp (poll_loop E fuel j) (\<lambda>r s'. r \<noteq> Stuck \<and> I s') ?s1"
    using assms \<open>I s\<close> by (intro poll_loop_ends) (simp_all add: blind)
  then show "wp (run_job_with_cancellation E fuel j ir shots) (\<lambda>r s'. r \<noteq> Stuck \<and> I s') s"
    unfolding run_job_with_cancellation_def wp_bind wp_emit wp_finally outcome.case
    by (rule wp_mono) (auto simp: wp_simps blind split: outcome.split)
qed

lemma ends_post_once [ends_rules]: "ends I (post_once E w url b)"
  unfolding post_once_def client_token_def http_post_def
  by (intro ends_rules; auto split: if_splits http_reply.split intro!: ends_rules)

lemma ends_send [ends_rules]: "ends I (send_result E w url p)" "ends I (send_error E w url j msg)"
proof -
  have "ends I (post_attempts E w url b k n e)" for w b k n e
    by (induction n arbitrary: k e) (auto intro!: ends_rules split: option.split)
  then show "ends I (send_result E w url p)" for w p
    by (simp add: send_result_def post_with_retry_def)
  then show "ends I (send_error E w url j msg)" by (simp add: send_error_def)
qed

end

section \<open>Messages\<close>

text \<open>A delivery task that was awaited has an outcome.\<close>

definition outcome_known :: "'s consumer_scheme \<Rightarrow> bool" where
  "outcome_known s \<longleftrightarrow> c_pending_batch_delivery s \<noteq> Some (Delivered Stuck)"

interpretation blind: trace_blind outcome_known
  by unfold_locales (simp add: outcome_known_def)

lemma outcome_known_updates [simp]:
  "outcome_known (s\<lparr>c_idle_event := b\<rparr>) = outcome_known s" "outcome_known (s\<lparr>current_job_id := j\<rparr>) = outcome_known s"
  "outcome_known (s\<lparr>last_job_at := t\<rparr>) = outcome_known s" "outcome_known (s\<lparr>c_running := b\<rparr>) = outcome_known s"
  "outcome_known (s\<lparr>redis_healthy := b\<rparr>) = outcome_known s"
  by (simp_all add: outcome_known_def)

lemma ends_mark [ends_rules]: "ends outcome_known (mark_job_cancelled E j mid)"
  unfolding mark_job_cancelled_def by (intro ends_rules)

lemma ends_failure: "ends outcome_known (report_failure E mid j url e)"
  unfolding report_failure_def by (intro ends_rules; auto split: if_splits intro!: ends_rules)

lemma ends_message:
  assumes "answers_within E m" "m < fuel"
  shows "ends outcome_known (process_message E fuel mid fs)"
proof -
  have body: "ends outcome_known (execute_and_report E fuel j url d)" for j url d
    unfolding execute_and_report_def by (intro ends_rules blind.ends_run_job [OF assms] ends_modify) simp
  have "ends outcome_known (guarded_job E fuel mid j url d)" for j url d
    unfolding guarded_job_def
    by (intro ends_catch body) (auto simp: run_handlers_def split: if_splits intro: ends_rules ends_failure)
  then have "ends outcome_known (start_job E fuel mid j url d)" for j url d
    unfolding start_job_def release_def by (intro ends_rules ends_modify) simp_all
  then show ?thesis
    unfolding process_message_def by (intro ends_rules)
qed

lemma ends_recover:
  assumes "answers_within E m" "m < fuel"
  shows "ends outcome_known (recover_pending E fuel)"
proof -
  have "ends outcome_known (recover_entries E fuel mids n)" for mids n
    by (induction mids arbitrary: n) (auto intro!: ends_rules ends_message [OF assms] split: list.split)
  then show ?thesis unfolding recover_pending_def by (intro ends_rules)
qed

section \<open>Batches and the main loop\<close>

lemma ends_parse [ends_rules]: "ends outcome_known (parse_batch E ms)"
proof -
  have "ends outcome_known (parse_message E x)" for x
    unfolding parse_message_def Let_def by (intro ends_rules)
  then show ?thesis by (induction ms) (auto intro!: ends_rules)
qed

lemma ends_each:
  assumes "answers_within E m" "m < fuel"
  shows "ends outcome_known (process_each E fuel ms)"
  unfolding process_each_def by (intro ends_rules ends_message [OF assms])

lemma ends_batch:
  assumes "answers_within E m" "m < fuel"
  shows "ends outcome_known (process_batch E fuel ms)"
proof -
  have mark: "ends outcome_known (mark_executing E p)" for p
    unfolding mark_executing_def by (intro ends_rules)
  show ?thesis
    unfolding process_batch_def run_batch_def Let_def
    by (intro ends_rules ends_each [OF assms] mark ends_modify) simp_all
qed

lemma batch_yields: "yields (\<lambda>t. \<forall>r. t \<noteq> Some (Delivered r)) (process_batch E fuel ms)"
  unfolding process_batch_def run_batch_def Let_def by (intro yields_rules) simp_all

lemma ends_dispatch:
  assumes "answers_within E m" "m < fuel"
  shows "ends outcome_known (dispatch E fuel sm)"
proof -
  have "ends outcome_known (case t of None \<Rightarrow> ret () | Some task \<Rightarrow> modify (\<lambda>s. s\<lparr>c_pending_batch_delivery := Some task\<rparr>))"
    if "\<forall>r. t \<noteq> Some (Delivered r)" for t
    using that by (intro ends_rules ends_modify) (auto simp: outcome_known_def)
  then show ?thesis
    unfolding dispatch_def
    by (intro ends_basic ends_bind [OF ends_basic(3)] ends_if ends_bind_yields [OF ends_batch [OF assms] batch_yields] ends_each [OF assms])
qed

lemma ends_delivery [ends_rules]: "ends outcome_known (await_delivery E)"
proof -
  have run: "wp (run_delivery E task) (\<lambda>r s'. r \<noteq> Stuck \<and> outcome_known s') s" if "task \<noteq> Delivered Stuck" for task s
  proof (cases task)
    case (Delivering ps rs)
    then show ?thesis using wp_deliver_batch_results [of E ps rs s]
      by (auto simp: wp_def run_delivery_def outcome_known_def split: prod.splits)
  qed (use that in \<open>simp add: wp_def run_delivery_def outcome_known_def\<close>)
  have "wp (await_delivery E) (\<lambda>r s'. r \<noteq> Stuck \<and> outcome_known s') s" if "outcome_known s" for s
    using that unfolding await_delivery_def wp_bind wp_gets outcome.case
    by (auto simp: outcome_known_def wp_ret wp_bind wp_modify split: option.split outcome.split intro!: wp_mono [OF run])
  then show ?thesis by (rule endsI)
qed

lemma outcome_known_loop [simp]:
  "outcome_known (s\<lparr>consecutive_failures := n\<rparr>) = outcome_known s" "outcome_known (s\<lparr>last_pending_check := t\<rparr>) = outcome_known s"
  by (simp_all add: outcome_known_def)

lemma ends_iteration:
  assumes "answers_within E m" "m < fuel"
  shows "ends outcome_known (consume_iteration E fuel)"
proof -
  have "ends outcome_known (idle_recheck E fuel)"
    unfolding idle_recheck_def by (intro ends_rules ends_recover [OF assms] ends_modify) simp
  then have "ends outcome_known (iteration_body E fuel)"
    unfolding iteration_body_def by (intro ends_rules ends_dispatch [OF assms] ends_modify) simp_all
  then show ?thesis
    unfolding consume_iteration_def
    by (intro ends_catch) (auto simp: on_loop_error_def split: if_splits intro!: ends_rules ends_modify)
qed

section \<open>Properties\<close>

text \<open>The main loop went through \<open>n\<close> iterations that all returned, nobody having called \<^verbatim>\<open>stop\<close>.\<close>

inductive iterated :: "env \<Rightarrow> nat \<Rightarrow> nat \<Rightarrow> 's loop_state_scheme \<Rightarrow> 's loop_state_scheme \<Rightarrow> bool" for E fuel where
  iterated_0: "iterated E fuel 0 s s"
| iterated_Suc: "\<not> e_stop E (trace s) \<Longrightarrow> c_running s \<Longrightarrow> consume_iteration E fuel s = (Ret (), s1) \<Longrightarrow>
    iterated E fuel n s1 s' \<Longrightarrow> iterated E fuel (Suc n) s s'"

inductive_simps iterated_none: "iterated E fuel 0 s s'"

lemma consume_while_step:
  "consume_while E fuel n s =
     (if e_stop E (trace s) \<or> \<not> c_running s then (Ret (), if e_stop E (trace s) then s\<lparr>c_running := False\<rparr> else s)
      else case n of 0 \<Rightarrow> (Stuck, s) | Suc n' \<Rightarrow> bind (consume_iteration E fuel) (\<lambda>_. consume_while E fuel n') s)"
  by (subst consume_while.simps)
    (auto simp: bind_def gets_def stop_def modify_def ret_def stuck_def split: nat.split)

lemma suspended_iterated:
  assumes "answers_within E m" "m < fuel"
  shows "outcome_known s \<Longrightarrow> consume_while E fuel n s = (Stuck, s') \<Longrightarrow> iterated E fuel n s s'"
proof (induction n arbitrary: s)
  case 0
  then show ?case by (auto simp: consume_while_step iterated_none split: if_splits)
next
  case (Suc n)
  obtain r s1 where it: "consume_iteration E fuel s = (r, s1)" by (cases "consume_iteration E fuel s")
  have end1: "r \<noteq> Stuck \<and> outcome_known s1" using wpD [OF endsD [OF ends_iteration [OF assms] Suc.prems(1)] it] .
  from Suc.prems(2) have run: "\<not> e_stop E (trace s)" "c_running s" "bind (consume_iteration E fuel) (\<lambda>_. consume_while E fuel n) s = (Stuck, s')"
    by (auto simp: consume_while_step [of E fuel "Suc n"] split: if_splits)
  with it end1 have "r = Ret ()" "consume_while E fuel n s1 = (Stuck, s')"
    by (auto simp: bind_def split: outcome.splits)
  then show ?case using run it end1 by (auto intro: iterated_Suc Suc.IH)
qed



end
