(* ===== verification/Config.thy ===== *)
theory Config
  imports Errors
begin

text \<open>
  Runtime configuration: \<^verbatim>\<open>server/config.py\<close> and the persistence functions of
  \<^verbatim>\<open>vpn/service.py\<close> that write what this module reads back.  The disk is a map from paths to
  files with their permission bits.  Pydantic's conversion of the merged dictionary to typed
  fields and the JSON text format are parameters; the precedence of the layers, the permission
  checks, the device-file scanner and the cross-field validators are defined here.
\<close>

section \<open>Values and files\<close>

datatype json =
    JNull
  | JBool bool
  | JInt int
  | JFloat pyfloat
  | JStr string
  | JList "json list"
  | JObj "(string \<times> json) list"

type_synonym dict = "(string \<times> json) list"

record disk_file =
  f_content :: string
  f_mode :: nat

type_synonym disk = "string \<rightharpoonup> disk_file"

text \<open>The operating system: whether \<^verbatim>\<open>os.name\<close> is \<^verbatim>\<open>nt\<close>, the temporary directory, the mode of new files.\<close>

record os_env =
  os_nt :: bool
  os_tmp :: string
  os_new_mode :: nat

definition PERSISTED_CONFIG_PATH :: "os_env \<Rightarrow> string" where
  "PERSISTED_CONFIG_PATH OS = os_tmp OS @ ''/coda.config''"

definition PERSISTED_PRIVATE_KEY_PATH :: "os_env \<Rightarrow> string" where
  "PERSISTED_PRIVATE_KEY_PATH OS = os_tmp OS @ ''/coda-private-key''"

text \<open>Permission bits \<^verbatim>\<open>0o600\<close>.\<close>

definition SECURE_MODE :: nat where
  "SECURE_MODE = 384"

definition read_secure_text :: "os_env \<Rightarrow> disk \<Rightarrow> string \<Rightarrow> exc + string" where
  "read_secure_text OS D path =
     (case D path of
        None \<Rightarrow> Inr []
      | Some f \<Rightarrow>
          if \<not> os_nt OS \<and> f_mode f \<noteq> SECURE_MODE
          then Inl (Coda (ConfigError (path @ '' must have permissions 0600'')))
          else Inr (f_content f))"

text \<open>\<^verbatim>\<open>path.write_text\<close>: an existing file keeps its mode; then \<^verbatim>\<open>chmod\<close>.\<close>

definition write_text :: "os_env \<Rightarrow> string \<Rightarrow> string \<Rightarrow> disk \<Rightarrow> disk" where
  "write_text OS path content D =
     D(path \<mapsto> \<lparr>f_content = content,
        f_mode = (case D path of None \<Rightarrow> os_new_mode OS | Some f \<Rightarrow> f_mode f)\<rparr>)"

definition chmod :: "string \<Rightarrow> nat \<Rightarrow> disk \<Rightarrow> disk" where
  "chmod path m D = (case D path of None \<Rightarrow> D | Some f \<Rightarrow> D(path \<mapsto> f\<lparr>f_mode := m\<rparr>))"

definition write_secure_text :: "os_env \<Rightarrow> string \<Rightarrow> string \<Rightarrow> disk \<Rightarrow> disk" where
  "write_secure_text OS path content D =
     (let D' = write_text OS path content D in if os_nt OS then D' else chmod path SECURE_MODE D')"

section \<open>Loading the persisted configuration\<close>

definition persisted_keys :: "string list" where
  "persisted_keys =
     [''qpu_id'', ''qpu_display_name'', ''native_gate_set'', ''num_qubits'', ''jwt_key_id'',
      ''redis_url'', ''webapp_url'', ''connect_path'', ''heartbeat_path'', ''webhook_path'',
      ''vpn_required'', ''vpn_check_interval_sec'', ''vpn_interface_hint'', ''vpn_probe_targets'',
      ''node_auto_vpn'', ''node_vpn_profile_path'', ''node_machine_fingerprint'']"

text \<open>Truth value of a JSON value.\<close>

fun truthy :: "json \<Rightarrow> bool" where
  "truthy JNull = False"
| "truthy (JBool b) = b"
| "truthy (JInt i) = (i \<noteq> 0)"
| "truthy (JFloat x) = (x \<noteq> Finite 0 \<and> x \<noteq> NegZero)"
| "truthy (JStr s) = (s \<noteq> [])"
| "truthy (JList xs) = (xs \<noteq> [])"
| "truthy (JObj d) = (d \<noteq> [])"

text \<open>
  \<open>str_of\<close> is Python's \<^verbatim>\<open>str\<close> on a value that is not a string; \<open>loads\<close> is \<^verbatim>\<open>json.loads\<close>, with
  \<^verbatim>\<open>json.JSONDecodeError\<close> (a \<^verbatim>\<open>ValueError\<close>) as an error.
\<close>

definition key_path_of :: "os_env \<Rightarrow> (json \<Rightarrow> string) \<Rightarrow> dict \<Rightarrow> string" where
  "key_path_of OS str_of data =
     (case map_of data ''jwt_private_key_path'' of
        None \<Rightarrow> PERSISTED_PRIVATE_KEY_PATH OS
      | Some v \<Rightarrow>
          if truthy v then (case v of JStr s \<Rightarrow> s | _ \<Rightarrow> str_of v)
          else PERSISTED_PRIVATE_KEY_PATH OS)"

definition select_keys :: "string list \<Rightarrow> dict \<Rightarrow> dict" where
  "select_keys ks data =
     concat (map (\<lambda>k. case map_of data k of None \<Rightarrow> [] | Some v \<Rightarrow> [(k, v)]) ks)"

definition load_persisted_runtime_config ::
  "os_env \<Rightarrow> (string \<Rightarrow> exc + json) \<Rightarrow> (json \<Rightarrow> string) \<Rightarrow> disk \<Rightarrow> exc + dict" where
  "load_persisted_runtime_config OS loads str_of D =
     (if D (PERSISTED_CONFIG_PATH OS) = None then Inr []
      else sbind (read_secure_text OS D (PERSISTED_CONFIG_PATH OS)) (\<lambda>raw.
        if strip raw = [] then Inr []
        else sbind (loads raw) (\<lambda>data.
          case data of
            JObj d \<Rightarrow>
              sbind (read_secure_text OS D (key_path_of OS str_of d)) (\<lambda>private_key.
                Inr (select_keys persisted_keys d @
                     (if private_key \<noteq> [] then [(''jwt_private_key'', JStr private_key)] else [])))
          | _ \<Rightarrow> Inl (Coda (ConfigError (PERSISTED_CONFIG_PATH OS @ '' must contain a JSON object''))))))"

section \<open>The device file\<close>

text \<open>The loop of \<^verbatim>\<open>_strip_inline_yaml_comment\<close>: the two quote flags and the characters passed.\<close>

fun strip_comment_loop :: "bool \<Rightarrow> bool \<Rightarrow> string \<Rightarrow> string \<Rightarrow> string option" where
  "strip_comment_loop in_single in_double seen [] = None"
| "strip_comment_loop in_single in_double seen (c # cs) =
     (if c = CHR 0x27 \<and> \<not> in_double then strip_comment_loop (\<not> in_single) in_double (seen @ [c]) cs
      else if c = CHR 0x22 \<and> \<not> in_single then strip_comment_loop in_single (\<not> in_double) (seen @ [c]) cs
      else if c = CHR ''#'' \<and> \<not> in_single \<and> \<not> in_double then Some (rstrip seen)
      else strip_comment_loop in_single in_double (seen @ [c]) cs)"

definition strip_inline_yaml_comment :: "string \<Rightarrow> string" where
  "strip_inline_yaml_comment v =
     (case strip_comment_loop False False [] v of Some t \<Rightarrow> t | None \<Rightarrow> strip v)"

text \<open>
  The regular expression \<^verbatim>\<open>^executor_factory\s*:\s*(.+?)\s*$\<close> on a line without leading or trailing
  white space: the lazy group and the final \<^verbatim>\<open>\s*$\<close> leave everything after the colon, stripped.
\<close>

definition match_executor_factory :: "string \<Rightarrow> string option" where
  "match_executor_factory line =
     (if startswith line ''executor_factory'' then
        (case lstrip (drop 16 line) of
           [] \<Rightarrow> None
         | c # rest \<Rightarrow>
             if c = CHR '':'' then (let v = strip rest in if v = [] then None else Some v) else None)
      else None)"

definition unquote :: "string \<Rightarrow> string" where
  "unquote v =
     (if 2 \<le> length v \<and> hd v = last v \<and> (hd v = CHR 0x27 \<or> hd v = CHR 0x22) then butlast (tl v) else v)"

fun scan_device_lines :: "string list \<Rightarrow> string" where
  "scan_device_lines [] = []"
| "scan_device_lines (raw # lines) =
     (if startswith raw '' '' \<or> startswith raw [CHR 0x09] then scan_device_lines lines
      else case match_executor_factory (strip raw) of
             None \<Rightarrow> scan_device_lines lines
           | Some g \<Rightarrow> strip (unquote (strip_inline_yaml_comment g)))"

text \<open>A missing or unreadable file is an \<^verbatim>\<open>OSError\<close>, which is logged.\<close>

definition load_executor_factory_from_device_config :: "disk \<Rightarrow> string \<Rightarrow> string" where
  "load_executor_factory_from_device_config D path =
     (case D path of None \<Rightarrow> [] | Some f \<Rightarrow> scan_device_lines (splitlines (f_content f)))"

section \<open>Settings\<close>

record settings =
  s_qpu_id :: string
  s_qpu_display_name :: string
  s_native_gate_set :: string
  s_num_qubits :: int
  s_redis_url :: string
  s_jwt_private_key :: string
  s_jwt_key_id :: string
  s_webapp_url :: string
  s_webhook_path :: string
  s_connect_path :: string
  s_heartbeat_path :: string
  s_host :: string
  s_port :: int
  s_vpn_required :: bool
  s_vpn_check_interval_sec :: int
  s_vpn_probe_targets :: "string list"
  s_vpn_interface_hint :: "string option"
  s_allow_degraded_startup :: bool
  s_node_token :: string
  s_node_timeout_sec :: int
  s_node_machine_fingerprint :: string
  s_node_auto_vpn :: bool
  s_node_vpn_profile_path :: string
  s_node_connect_headers :: "(string \<times> string) list"
  s_node_connect_retries :: int
  s_shutdown_drain_timeout_sec :: int
  s_heartbeat_interval_sec :: int
  s_executor_factory :: string
  s_device_config :: string
  s_advertised_provider :: string

definition default_settings :: "os_env \<Rightarrow> settings" where
  "default_settings OS =
     \<lparr>s_qpu_id = [], s_qpu_display_name = [], s_native_gate_set = ''cz'', s_num_qubits = 5,
      s_redis_url = [], s_jwt_private_key = [], s_jwt_key_id = [],
      s_webapp_url = ''https://coda.conductorquantum.com'',
      s_webhook_path = ''/api/internal/qpu/webhook'', s_connect_path = ''/api/internal/qpu/connect'',
      s_heartbeat_path = ''/api/internal/qpu/heartbeat'', s_host = ''0.0.0.0'', s_port = 8080,
      s_vpn_required = True, s_vpn_check_interval_sec = 10, s_vpn_probe_targets = [],
      s_vpn_interface_hint = None, s_allow_degraded_startup = False, s_node_token = [],
      s_node_timeout_sec = 15, s_node_machine_fingerprint = [], s_node_auto_vpn = True,
      s_node_vpn_profile_path = os_tmp OS @ ''/coda-node.ovpn'', s_node_connect_headers = [],
      s_node_connect_retries = 3, s_shutdown_drain_timeout_sec = 30, s_heartbeat_interval_sec = 30,
      s_executor_factory = [], s_device_config = [], s_advertised_provider = ''coda''\<rparr>"

text \<open>One round of the merge loop: a key of the environment wins unless it is absent or empty.\<close>

definition blank :: "json \<Rightarrow> bool" where
  "blank v \<longleftrightarrow> v = JStr [] \<or> v = JNull \<or> v = JList []"

definition merge_key :: "dict \<Rightarrow> string \<times> json \<Rightarrow> dict" where
  "merge_key merged kv =
     (case map_of merged (fst kv) of
        None \<Rightarrow> dict_set (fst kv) (snd kv) merged
      | Some current \<Rightarrow> if blank current then dict_set (fst kv) (snd kv) merged else merged)"

definition merge_persisted_runtime_config :: "(unit \<Rightarrow> exc + dict) \<Rightarrow> dict \<Rightarrow> exc + dict" where
  "merge_persisted_runtime_config load data =
     (if (case map_of data ''node_token'' of Some v \<Rightarrow> truthy v | None \<Rightarrow> False) then Inr data
      else sbind (load ()) (\<lambda>persisted. Inr (foldl merge_key data persisted)))"

definition apply_default_device_config :: "disk \<Rightarrow> settings \<Rightarrow> settings" where
  "apply_default_device_config D s =
     (if s_device_config s = [] \<and> D ''site/device.yaml'' \<noteq> None
      then s\<lparr>s_device_config := ''site/device.yaml''\<rparr> else s)"

definition apply_device_config_executor_factory :: "disk \<Rightarrow> settings \<Rightarrow> settings" where
  "apply_device_config_executor_factory D s =
     (if s_executor_factory s \<noteq> [] \<or> s_device_config s = [] then s
      else let resolved = load_executor_factory_from_device_config D (s_device_config s)
           in if resolved \<noteq> [] then s\<lparr>s_executor_factory := resolved\<rparr> else s)"

definition check_jwt_or_node_token :: "settings \<Rightarrow> exc + settings" where
  "check_jwt_or_node_token s =
     (if s_node_token s = [] then
        (if s_jwt_private_key s = [] then Inl (ValueErr ''CODA_JWT_PRIVATE_KEY must be set (or provide CODA_NODE_TOKEN for auto-provisioning)'')
         else if s_jwt_key_id s = [] then Inl (ValueErr ''CODA_JWT_KEY_ID must be set (or provide CODA_NODE_TOKEN for auto-provisioning)'')
         else Inr s)
      else Inr s)"

text \<open>
  \<^verbatim>\<open>Settings()\<close>: the dictionary of the environment layer, merged, converted by pydantic
  (\<open>convert\<close>), then the three validators in order.
\<close>

definition mk_Settings ::
  "os_env \<Rightarrow> (string \<Rightarrow> exc + json) \<Rightarrow> (json \<Rightarrow> string) \<Rightarrow> (dict \<Rightarrow> exc + settings) \<Rightarrow> disk \<Rightarrow> dict \<Rightarrow> exc + settings" where
  "mk_Settings OS loads str_of convert D data =
     sbind (merge_persisted_runtime_config (\<lambda>_. load_persisted_runtime_config OS loads str_of D) data) (\<lambda>merged.
     sbind (convert merged) (\<lambda>s.
       check_jwt_or_node_token (apply_device_config_executor_factory D (apply_default_device_config D s))))"

definition callback_url :: "settings \<Rightarrow> string" where
  "callback_url s = s_webapp_url s @ s_webhook_path s"

definition connect_url :: "settings \<Rightarrow> string" where
  "connect_url s = s_webapp_url s @ s_connect_path s"

definition heartbeat_url :: "settings \<Rightarrow> string" where
  "heartbeat_url s = s_webapp_url s @ s_heartbeat_path s"

definition vpn_probe_urls :: "settings \<Rightarrow> string list" where
  "vpn_probe_urls s =
     (if s_vpn_probe_targets s \<noteq> [] then s_vpn_probe_targets s
      else if \<not> s_vpn_required s then []
      else [s_webapp_url s @ ''/api/internal/qpu/health''])"

section \<open>Persisting\<close>

definition persisted_dict :: "os_env \<Rightarrow> settings \<Rightarrow> dict" where
  "persisted_dict OS s =
     [(''qpu_id'', JStr (s_qpu_id s)), (''qpu_display_name'', JStr (s_qpu_display_name s)),
      (''native_gate_set'', JStr (s_native_gate_set s)), (''num_qubits'', JInt (s_num_qubits s)),
      (''jwt_key_id'', JStr (s_jwt_key_id s)),
      (''jwt_private_key_path'', JStr (PERSISTED_PRIVATE_KEY_PATH OS)),
      (''redis_url'', JStr (s_redis_url s)), (''webapp_url'', JStr (s_webapp_url s)),
      (''connect_path'', JStr (s_connect_path s)), (''heartbeat_path'', JStr (s_heartbeat_path s)),
      (''webhook_path'', JStr (s_webhook_path s)), (''vpn_required'', JBool (s_vpn_required s)),
      (''vpn_check_interval_sec'', JInt (s_vpn_check_interval_sec s)),
      (''vpn_interface_hint'', (case s_vpn_interface_hint s of None \<Rightarrow> JNull | Some h \<Rightarrow> JStr h)),
      (''vpn_probe_targets'', JList (map JStr (s_vpn_probe_targets s))),
      (''node_auto_vpn'', JBool (s_node_auto_vpn s)),
      (''node_vpn_profile_path'', JStr (s_node_vpn_profile_path s)),
      (''node_machine_fingerprint'', JStr (s_node_machine_fingerprint s))]"

definition persist_runtime_config :: "os_env \<Rightarrow> (json \<Rightarrow> string) \<Rightarrow> settings \<Rightarrow> disk \<Rightarrow> disk" where
  "persist_runtime_config OS dumps s D =
     write_secure_text OS (PERSISTED_CONFIG_PATH OS) (dumps (JObj (persisted_dict OS s)) @ [CHR 0x0A])
       (write_secure_text OS (PERSISTED_PRIVATE_KEY_PATH OS) (s_jwt_private_key s) D)"

section \<open>Lemmas\<close>

lemma select_keys_map_of: "map_of (select_keys ks d) k = (if k \<in> set ks then map_of d k else None)"
  by (induction ks) (auto simp: select_keys_def split: option.split)

lemma paths_differ [simp]: "PERSISTED_CONFIG_PATH OS \<noteq> PERSISTED_PRIVATE_KEY_PATH OS"
  "PERSISTED_PRIVATE_KEY_PATH OS \<noteq> PERSISTED_CONFIG_PATH OS"
  by (simp_all add: PERSISTED_CONFIG_PATH_def PERSISTED_PRIVATE_KEY_PATH_def)

lemma write_secure_same:
  "write_secure_text OS path c D path = Some \<lparr>f_content = c, f_mode = (if os_nt OS then
     (case D path of None \<Rightarrow> os_new_mode OS | Some f \<Rightarrow> f_mode f) else SECURE_MODE)\<rparr>"
  by (simp add: write_secure_text_def write_text_def chmod_def Let_def)

lemma write_secure_other: "p \<noteq> path \<Longrightarrow> write_secure_text OS path c D p = D p"
  by (simp add: write_secure_text_def write_text_def chmod_def Let_def)

lemma case_JObj_Inr:
  "(case j of JObj d \<Rightarrow> f d | _ \<Rightarrow> Inl e) = Inr x \<longleftrightarrow> (\<exists>d. j = JObj d \<and> f d = Inr x)"
  by (cases j) auto

text \<open>What is written securely can be read back securely.\<close>

text \<open>The contract the persisted configuration relies on: a text store returns what was last put at a path.\<close>

locale text_store =
  fixes put :: "string \<Rightarrow> string \<Rightarrow> 'd \<Rightarrow> 'd" and fetch :: "'d \<Rightarrow> string \<Rightarrow> 'e + string"
  assumes fetch_put: "fetch (put p c D) p = Inr c"
    and fetch_put_other: "p \<noteq> q \<Longrightarrow> fetch (put q c D) p = fetch D p"
begin

lemma fetch_both:
  assumes "p \<noteq> q"
  shows "fetch (put p c (put q c' D)) p = Inr c" and "fetch (put p c (put q c' D)) q = Inr c'"
  using assms by (auto simp: fetch_put fetch_put_other [OF not_sym])

end

interpretation secure_files: text_store "write_secure_text OS" "read_secure_text OS" for OS
  by unfold_locales (simp_all add: read_secure_text_def write_secure_same write_secure_other)

lemma select_persisted:
  "select_keys persisted_keys (persisted_dict OS s) =
   filter (\<lambda>(k, v). k \<noteq> ''jwt_private_key_path'') (persisted_dict OS s)"
  by (simp add: select_keys_def persisted_keys_def persisted_dict_def)

lemma key_path_persisted:
  "key_path_of OS sh (persisted_dict OS s) = PERSISTED_PRIVATE_KEY_PATH OS"
proof -
  have "map_of (persisted_dict OS s) ''jwt_private_key_path'' = Some (JStr (PERSISTED_PRIVATE_KEY_PATH OS))"
    by (simp add: persisted_dict_def)
  then show ?thesis by (simp add: key_path_of_def PERSISTED_PRIVATE_KEY_PATH_def)
qed

lemma map_of_merge_key:
  "map_of (merge_key m (k, v)) x =
   (if x = k \<and> (case map_of m k of None \<Rightarrow> True | Some c \<Rightarrow> blank c) then Some v else map_of m x)"
  by (auto simp: merge_key_def map_of_dict_set split: option.split)

lemma merge_keys:
  assumes "distinct (map fst p)"
  shows "map_of (foldl merge_key m p) x =
     (case map_of p x of
        None \<Rightarrow> map_of m x
      | Some v \<Rightarrow> (case map_of m x of None \<Rightarrow> Some v | Some c \<Rightarrow> if blank c then Some v else Some c))"
  using assms
proof (induction p arbitrary: m)
  case (Cons kv p)
  obtain k v where kv: "kv = (k, v)" by (cases kv)
  have notin: "map_of p k = None" using Cons.prems kv by (auto simp: map_of_eq_None_iff)
  have IH: "map_of (foldl merge_key (merge_key m (k, v)) p) x =
     (case map_of p x of
        None \<Rightarrow> map_of (merge_key m (k, v)) x
      | Some w \<Rightarrow> (case map_of (merge_key m (k, v)) x of None \<Rightarrow> Some w | Some c \<Rightarrow> if blank c then Some w else Some c))"
    using Cons by simp
  show ?case
  proof (cases "x = k")
    case True
    then show ?thesis using IH notin kv by (simp add: map_of_merge_key split: option.split)
  next
    case False
    then have "map_of (merge_key m (k, v)) x = map_of m x" by (simp add: map_of_merge_key)
    then show ?thesis using IH kv False by (simp split: option.split)
  qed
qed simp

lemma persist_then_load:
  assumes "loads (dumps (JObj (persisted_dict OS s)) @ [CHR 0x0A]) = Inr (JObj (persisted_dict OS s))"
    and "strip (dumps (JObj (persisted_dict OS s)) @ [CHR 0x0A]) \<noteq> []"
  shows "load_persisted_runtime_config OS loads str_of (persist_runtime_config OS dumps s D)
      = Inr (select_keys persisted_keys (persisted_dict OS s)
              @ (if s_jwt_private_key s \<noteq> [] then [(''jwt_private_key'', JStr (s_jwt_private_key s))] else []))"
proof -
  let ?D = "persist_runtime_config OS dumps s D"
  have c: "read_secure_text OS ?D (PERSISTED_CONFIG_PATH OS) = Inr (dumps (JObj (persisted_dict OS s)) @ [CHR 0x0A])"
    unfolding persist_runtime_config_def by (rule secure_files.fetch_both) simp
  have k: "read_secure_text OS ?D (PERSISTED_PRIVATE_KEY_PATH OS) = Inr (s_jwt_private_key s)"
    unfolding persist_runtime_config_def by (rule secure_files.fetch_both) simp
  have e: "?D (PERSISTED_CONFIG_PATH OS) \<noteq> None"
    by (simp add: persist_runtime_config_def write_secure_same)
  show ?thesis
    using assms e by (auto simp: load_persisted_runtime_config_def c k key_path_persisted)
qed

section \<open>Properties\<close>


definition sample_os :: os_env where
  "sample_os = \<lparr>os_nt = False, os_tmp = ''/tmp'', os_new_mode = 420\<rparr>"

definition sample_settings :: settings where
  "sample_settings = (default_settings sample_os)\<lparr>s_qpu_id := ''q'', s_jwt_private_key := ''key'', s_jwt_key_id := ''k1''\<rparr>"


text \<open>
  C31. On POSIX, a configuration file with permissions other than \<^verbatim>\<open>0600\<close> makes loading fail with a
  \<^verbatim>\<open>ConfigError\<close>, and a private key that loading returns was read from a file with exactly these
  permissions.
\<close>

theorem insecure_files_rejected:
  assumes "\<not> os_nt OS" and "D (PERSISTED_CONFIG_PATH OS) = Some f"
  shows "(f_mode f \<noteq> SECURE_MODE \<longrightarrow> load_persisted_runtime_config OS loads str_of D =
       Inl (Coda (ConfigError (PERSISTED_CONFIG_PATH OS @ '' must have permissions 0600''))))
     \<and> (\<forall>d v. load_persisted_runtime_config OS loads str_of D = Inr d \<and> map_of d ''jwt_private_key'' = Some v \<longrightarrow>
          (\<exists>path g. D path = Some g \<and> f_mode g = SECURE_MODE \<and> v = JStr (f_content g)))"
proof (intro conjI allI impI)
  assume "f_mode f \<noteq> SECURE_MODE"
  then show "load_persisted_runtime_config OS loads str_of D =
      Inl (Coda (ConfigError (PERSISTED_CONFIG_PATH OS @ '' must have permissions 0600'')))"
    using assms by (simp add: load_persisted_runtime_config_def read_secure_text_def)
next
  fix d v
  assume *: "load_persisted_runtime_config OS loads str_of D = Inr d \<and> map_of d ''jwt_private_key'' = Some v"
  then have m: "f_mode f = SECURE_MODE"
    using assms by (auto simp: load_persisted_runtime_config_def read_secure_text_def split: if_splits)
  have nk: "map_of (select_keys persisted_keys dd) ''jwt_private_key'' = None" for dd
    by (simp add: select_keys_map_of persisted_keys_def)
  from assms * m nk obtain dd pk where pk: "read_secure_text OS D (key_path_of OS str_of dd) = Inr pk" "pk \<noteq> []"
    "v = JStr pk"
    by (auto simp: load_persisted_runtime_config_def sbind_eq_Inr case_JObj_Inr map_add_def split: if_splits)
  then show "\<exists>path g. D path = Some g \<and> f_mode g = SECURE_MODE \<and> v = JStr (f_content g)"
    using assms(1) by (auto simp: read_secure_text_def split: option.splits if_splits)
qed

definition secure_disk :: disk where
  "secure_disk = [''/tmp/coda.config'' \<mapsto> \<lparr>f_content = ''{}'', f_mode = 384\<rparr>,
                  ''/tmp/coda-private-key'' \<mapsto> \<lparr>f_content = ''key'', f_mode = 384\<rparr>]"

theorem insecure_files_rejected_witness:
  "\<exists>path g. secure_disk path = Some g \<and> f_mode g = SECURE_MODE \<and> JStr ''key'' = JStr (f_content g)"
proof -
  have l: "load_persisted_runtime_config sample_os (\<lambda>_. Inr (JObj [])) (\<lambda>_. []) secure_disk
      = Inr [(''jwt_private_key'', JStr ''key'')]" by code_simp
  have d: "secure_disk (PERSISTED_CONFIG_PATH sample_os) = Some \<lparr>f_content = ''{}'', f_mode = 384\<rparr>" by code_simp
  have nt: "\<not> os_nt sample_os" by (simp add: sample_os_def)
  from insecure_files_rejected [where OS = sample_os and D = secure_disk, OF nt d, THEN conjunct2] l show ?thesis by fastforce
qed

text \<open>
  C32. The precedence of the configuration layers: without a node token, a key keeps the value the
  environment gave it unless that is empty, in which case, or when the environment does not mention
  it, the persisted value is used; a key neither layer has is left to the defaults.
\<close>

theorem merge_precedence:
  assumes "\<not> (\<exists>v. map_of data ''node_token'' = Some v \<and> truthy v)" and "load () = Inr persisted"
    and "distinct (map fst persisted)" and "merge_persisted_runtime_config load data = Inr merged"
  shows "map_of merged k =
     (case map_of persisted k of
        None \<Rightarrow> map_of data k
      | Some v \<Rightarrow> (case map_of data k of None \<Rightarrow> Some v | Some c \<Rightarrow> if blank c then Some v else Some c))"
proof -
  have "merged = foldl merge_key data persisted"
    using assms(1,2,4) by (auto simp: merge_persisted_runtime_config_def split: option.splits if_splits)
  then show ?thesis using merge_keys [OF assms(3)] by simp
qed

theorem merge_precedence_witness:
  "map_of [(''qpu_id'', JStr ''env''), (''redis_url'', JStr ''saved''), (''num_qubits'', JInt 7)] ''redis_url''
   = Some (JStr ''saved'')"
proof -
  let ?data = "[(''qpu_id'', JStr ''env''), (''redis_url'', JStr [])]"
  let ?p = "[(''qpu_id'', JStr ''old''), (''redis_url'', JStr ''saved''), (''num_qubits'', JInt 7)]"
  let ?m = "[(''qpu_id'', JStr ''env''), (''redis_url'', JStr ''saved''), (''num_qubits'', JInt 7)]"
  have "merge_persisted_runtime_config (\<lambda>_. Inr ?p) ?data = Inr ?m" by code_simp
  then have "map_of ?m ''redis_url'' =
      (case map_of ?p ''redis_url'' of None \<Rightarrow> map_of ?data ''redis_url''
       | Some v \<Rightarrow> (case map_of ?data ''redis_url'' of None \<Rightarrow> Some v | Some c \<Rightarrow> if blank c then Some v else Some c))"
    by (intro merge_precedence [where load = "\<lambda>_. Inr ?p"]) simp_all
  then show ?thesis by simp
qed

lemma device_defaults:
  "apply_device_config_executor_factory D (apply_default_device_config D s) =
   s\<lparr>s_device_config := s_device_config (apply_default_device_config D s),
     s_executor_factory := s_executor_factory (apply_device_config_executor_factory D (apply_default_device_config D s))\<rparr>"
  by (simp add: apply_device_config_executor_factory_def apply_default_device_config_def Let_def)

text \<open>
  C33. Validation of the settings decides exactly whether the node can authenticate: once the layers
  are merged and converted, construction succeeds if and only if there is a node token, or a private
  key together with its key id.  The validators change nothing but the device file and the executor
  factory, and a factory that was given is kept.
\<close>

theorem settings_have_credentials:
  assumes "merge_persisted_runtime_config (\<lambda>_. load_persisted_runtime_config OS loads str_of D) data = Inr merged"
    and "convert merged = Inr s0"
  shows "((\<exists>s. mk_Settings OS loads str_of convert D data = Inr s) \<longleftrightarrow>
       s_node_token s0 \<noteq> [] \<or> s_jwt_private_key s0 \<noteq> [] \<and> s_jwt_key_id s0 \<noteq> [])
   \<and> (\<forall>s. mk_Settings OS loads str_of convert D data = Inr s \<longrightarrow>
        (\<exists>dc ef. s = s0\<lparr>s_device_config := dc, s_executor_factory := ef\<rparr>
           \<and> (s_executor_factory s0 \<noteq> [] \<longrightarrow> ef = s_executor_factory s0)))"
proof -
  let ?s = "apply_device_config_executor_factory D (apply_default_device_config D s0)"
  have mk: "mk_Settings OS loads str_of convert D data = check_jwt_or_node_token ?s"
    using assms by (simp add: mk_Settings_def)
  have keeps: "s_executor_factory ?s = s_executor_factory s0" if "s_executor_factory s0 \<noteq> []"
    using that by (simp add: apply_device_config_executor_factory_def apply_default_device_config_def)
  obtain dc ef where s: "?s = s0\<lparr>s_device_config := dc, s_executor_factory := ef\<rparr>" using device_defaults by blast
  then have "s_executor_factory s0 \<noteq> [] \<longrightarrow> ef = s_executor_factory s0" using keeps by simp
  then show ?thesis unfolding mk s by (auto simp: check_jwt_or_node_token_def)
qed

theorem settings_have_credentials_witness:
  "\<exists>s dc ef. mk_Settings sample_os (\<lambda>_. Inr JNull) (\<lambda>_. []) (\<lambda>_. Inr sample_settings) (\<lambda>_. None) [] = Inr s
     \<and> s = sample_settings\<lparr>s_device_config := dc, s_executor_factory := ef\<rparr>"
proof -
  have "merge_persisted_runtime_config (\<lambda>_. load_persisted_runtime_config sample_os (\<lambda>_. Inr JNull) (\<lambda>_. []) (\<lambda>_. None)) [] = Inr []"
    by code_simp
  from settings_have_credentials [OF this, of "\<lambda>_. Inr sample_settings" sample_settings] show ?thesis
    by (simp add: sample_settings_def default_settings_def) metis
qed

section \<open>The device file scanner\<close>

definition plain_char :: "char \<Rightarrow> bool" where
  "plain_char c \<longleftrightarrow> \<not> isspace c \<and> c \<noteq> CHR 0x27 \<and> c \<noteq> CHR 0x22 \<and> c \<noteq> CHR ''#''"

lemma not_space_marks: "\<not> isspace (CHR 0x27)" "\<not> isspace (CHR 0x22)" "\<not> isspace (CHR ''#'')" "\<not> isspace (CHR '':'')"
  by (simp_all add: isspace_def)

lemma plain_or_space: "plain_char c \<or> isspace c \<Longrightarrow> c \<noteq> CHR 0x27 \<and> c \<noteq> CHR 0x22 \<and> c \<noteq> CHR ''#''"
  using not_space_marks by (auto simp only: plain_char_def)

lemma strip_comment_plain:
  "\<forall>c \<in> set v. plain_char c \<or> isspace c \<Longrightarrow>
   strip_comment_loop False False seen (v @ rest) = strip_comment_loop False False (seen @ v) rest"
proof (induction v arbitrary: seen)
  case (Cons c v)
  have "c \<noteq> CHR 0x27 \<and> c \<noteq> CHR 0x22 \<and> c \<noteq> CHR ''#''"
    using Cons.prems by (intro plain_or_space) simp
  then show ?case using Cons by simp
qed simp

lemma rstrip_spaces: "\<forall>c \<in> set w. isspace c \<Longrightarrow> rstrip (v @ w) = rstrip v"
  unfolding rstrip_def rev_append by (subst dropWhile_append2) auto

lemma strip_plain: "\<forall>c \<in> set v. plain_char c \<Longrightarrow> strip v = v"
  by (intro strip_id) (cases v rule: rev_cases, auto simp: plain_char_def hd_append)

lemma strip_inline_plain:
  assumes "\<forall>c \<in> set v. plain_char c" and "\<forall>c \<in> set w. isspace c"
  shows "strip_inline_yaml_comment (v @ w @ CHR ''#'' # comment) = v" "strip_inline_yaml_comment v = v"
proof -
  have "strip_comment_loop False False [] ((v @ w) @ CHR ''#'' # comment) = Some (rstrip (v @ w))"
    using assms by (subst strip_comment_plain) auto
  moreover have "rstrip (v @ w) = v"
    using assms(1) unfolding rstrip_spaces [OF assms(2)]
    by (intro rstrip_id) (cases v rule: rev_cases, auto simp: plain_char_def)
  ultimately show "strip_inline_yaml_comment (v @ w @ CHR ''#'' # comment) = v"
    by (simp add: strip_inline_yaml_comment_def)
  have "strip_comment_loop False False [] (v @ []) = None"
    using assms(1) by (subst strip_comment_plain) auto
  then show "strip_inline_yaml_comment v = v"
    using strip_plain [OF assms(1)] by (simp add: strip_inline_yaml_comment_def)
qed

lemma unquote_plain: "\<forall>c \<in> set v. plain_char c \<Longrightarrow> unquote v = v"
  by (cases v) (auto simp: unquote_def plain_char_def)

lemma strip_inline_quoted:
  assumes "\<forall>c \<in> set v. plain_char c" and "q = CHR 0x27 \<or> q = CHR 0x22" and "\<forall>c \<in> set w. isspace c"
  shows "strip_inline_yaml_comment (q # v @ [q] @ w @ CHR ''#'' # comment) = q # v @ [q]"
    "strip_inline_yaml_comment (q # v @ [q]) = q # v @ [q]"
proof -
  have inner: "strip_comment_loop (q = CHR 0x27) (q = CHR 0x22) seen (v @ rest) =
      strip_comment_loop (q = CHR 0x27) (q = CHR 0x22) (seen @ v) rest" for seen rest
    using assms(1)
  proof (induction v arbitrary: seen)
    case (Cons c v)
    then have "c \<noteq> CHR 0x27 \<and> c \<noteq> CHR 0x22 \<and> c \<noteq> CHR ''#''" by (intro plain_or_space) simp
    then show ?case using Cons by simp
  qed simp
  have loop: "strip_comment_loop False False [] (q # v @ q # rest) = strip_comment_loop False False (q # v @ [q]) rest" for rest
    using assms(2) inner [of "[q]" "q # rest"] by auto
  have qv: "\<not> isspace q" using assms(2) not_space_marks by auto
  have "strip_comment_loop False False [] (q # v @ q # w @ CHR ''#'' # comment) = Some (rstrip ((q # v @ [q]) @ w))"
    unfolding loop using assms(3) by (subst strip_comment_plain) auto
  moreover have "rstrip ((q # v @ [q]) @ w) = q # v @ [q]"
    unfolding rstrip_spaces [OF assms(3)] using qv by (intro rstrip_id) simp
  ultimately show "strip_inline_yaml_comment (q # v @ [q] @ w @ CHR ''#'' # comment) = q # v @ [q]"
    by (simp add: strip_inline_yaml_comment_def)
  have "strip (q # v @ [q]) = q # v @ [q]" using qv by (intro strip_id) simp
  then show "strip_inline_yaml_comment (q # v @ [q]) = q # v @ [q]"
    unfolding strip_inline_yaml_comment_def append_Cons append_Nil loop [of "[]"] by simp
qed

text \<open>A line that the scanner passes over: indented, or not an \<^verbatim>\<open>executor_factory\<close> entry.\<close>

definition passed_over :: "string \<Rightarrow> bool" where
  "passed_over l \<longleftrightarrow> startswith l '' '' \<or> startswith l [CHR 0x09] \<or> match_executor_factory (strip l) = None"

lemma scan_passed_over: "list_all passed_over ls \<Longrightarrow> scan_device_lines (ls @ rest) = scan_device_lines rest"
  by (induction ls) (auto simp: passed_over_def)

text \<open>The value part of an entry: plain or quoted, with or without a trailing comment.\<close>

inductive factory_entry :: "string \<Rightarrow> string \<Rightarrow> bool" for f where
  bare: "factory_entry f f"
| commented: "\<forall>c \<in> set w. isspace c \<Longrightarrow> factory_entry f (f @ w @ CHR ''#'' # comment)"
| quoted: "q = CHR 0x27 \<or> q = CHR 0x22 \<Longrightarrow> factory_entry f (q # f @ [q])"
| quoted_commented: "q = CHR 0x27 \<or> q = CHR 0x22 \<Longrightarrow> \<forall>c \<in> set w. isspace c \<Longrightarrow>
    factory_entry f (q # f @ [q] @ w @ CHR ''#'' # comment)"

lemma factory_entry_value:
  assumes "factory_entry f v" and "\<forall>c \<in> set f. plain_char c"
  shows "strip (unquote (strip_inline_yaml_comment v)) = f"
  using assms
proof cases
  case bare
  then show ?thesis using assms(2) strip_inline_plain(2) [of f "[]"] by (simp add: unquote_plain strip_plain)
next
  case (commented w comment)
  then show ?thesis using assms(2) strip_inline_plain(1) [of f w comment] by (simp add: unquote_plain strip_plain)
next
  case (quoted q)
  then show ?thesis using assms(2) strip_inline_quoted(2) [of f q "[]"] by (auto simp: unquote_def strip_plain)
next
  case (quoted_commented q w comment)
  then show ?thesis using assms(2) strip_inline_quoted(1) [of f q w comment] by (auto simp: unquote_def strip_plain)
qed

lemma factory_entry_first:
  assumes "factory_entry f v" and "f \<noteq> []" and "\<forall>c \<in> set f. plain_char c"
  shows "v \<noteq> [] \<and> \<not> isspace (hd v)"
proof -
  have f: "\<not> isspace (hd f)" using assms(2,3) hd_in_set plain_char_def by blast
  show ?thesis
    using assms(1)
  proof cases
    case (quoted q)
    then show ?thesis using not_space_marks(1,2) by (metis list.distinct(1) list.sel(1))
  next
    case (quoted_commented q w comment)
    then show ?thesis using not_space_marks(1,2) by (metis list.distinct(1) list.sel(1))
  qed (use f assms(2) in \<open>simp_all\<close>)
qed

text \<open>
  C34. An \<^verbatim>\<open>executor_factory\<close> entry of the device file is found and read whatever precedes it at top
  level or indented: the scanner returns the import path itself, for a bare or quoted value, with or
  without a trailing comment and with any white space around the colon.
\<close>

theorem device_factory_found:
  assumes "list_all passed_over before" and "f \<noteq> []" and "\<forall>c \<in> set f. plain_char c"
    and "factory_entry f v" and "\<forall>c \<in> set w1. isspace c" and "\<forall>c \<in> set w2. isspace c"
    and "\<not> isspace (last v)"
  shows "scan_device_lines (before @ (''executor_factory'' @ w1 @ '':'' @ w2 @ v) # after) = f"
proof -
  let ?line = "''executor_factory'' @ w1 @ '':'' @ w2 @ v"
  have first: "v \<noteq> []" "\<not> isspace (hd v)"
    using factory_entry_first [OF assms(4,2,3)] by blast+
  have "strip (w2 @ v) = v"
  proof -
    have "lstrip (w2 @ v) = v"
      using assms(6) first unfolding lstrip_def by (subst dropWhile_append2) (auto simp: dropWhile_eq_self_iff)
    then show ?thesis using assms(7) by (simp add: strip_def rstrip_id)
  qed
  moreover have "lstrip (w1 @ '':'' @ w2 @ v) = '':'' @ w2 @ v"
    using assms(5) not_space_marks unfolding lstrip_def by (subst dropWhile_append2) auto
  ultimately have m: "match_executor_factory ?line = Some v"
    using first by (simp add: match_executor_factory_def startswith_def)
  have "\<not> isspace (CHR ''e'')" by (simp add: isspace_def)
  then have s: "strip ?line = ?line" using assms(7) first by (intro strip_id) simp
  have "scan_device_lines (?line # after) = f"
    using m s factory_entry_value [OF assms(4,3)] by (simp add: startswith_def)
  then show ?thesis using scan_passed_over [OF assms(1)] by simp
qed

theorem device_factory_found_witness:
  "scan_device_lines ([''name: lab'', '' executor_factory: nested''] @
     (''executor_factory'' @ [] @ '':'' @ '' '' @ [CHR 0x22] @ ''vendor.x:make'' @ [CHR 0x22] @ '' '' @ ''#'' @ ''prod'') # [])
   = ''vendor.x:make''"
proof (rule device_factory_found)
  show "list_all passed_over [''name: lab'', '' executor_factory: nested'']" by code_simp
  show "\<forall>c \<in> set ''vendor.x:make''. plain_char c" by code_simp
  show "factory_entry ''vendor.x:make'' ([CHR 0x22] @ ''vendor.x:make'' @ [CHR 0x22] @ '' '' @ ''#'' @ ''prod'')"
    using factory_entry.quoted_commented [of "CHR 0x22" "'' ''" "''vendor.x:make''" "''prod''"] by (simp add: isspace_def)
  show "\<not> isspace (last ([CHR 0x22] @ ''vendor.x:make'' @ [CHR 0x22] @ '' '' @ ''#'' @ ''prod''))" by code_simp
qed (simp_all add: isspace_def)

end
