(* ===== verification/Guard.thy ===== *)
theory Guard
  imports Config
begin

text \<open>
  VPN health: \<^verbatim>\<open>vpn/guard.py\<close>.  The parsers of interface listings, interface detection, the
  three-stage preflight and the watch loop with its state machine.  What the machine answers during
  one check (command output, name resolution, HTTP probes) is the record \<open>net\<close>; a run of the
  watch loop is a sequence of rounds with one such answer each.
\<close>

section \<open>States and results\<close>

datatype service_state = BOOTING | VPN_UNAVAILABLE | READY | DEGRADED

record probe_result =
  pr_target :: string
  pr_ok :: bool
  pr_latency_ms :: "pyfloat option"
  pr_error :: "string option"

record vpn_status =
  vs_ok :: bool
  vs_interface_found :: bool
  vs_probes :: "probe_result list"
  vs_reason :: string

section \<open>Interface listings\<close>

text \<open>The loop of \<^verbatim>\<open>_parse_darwin_tun_interfaces\<close> with its variable \<^verbatim>\<open>current_iface\<close>.\<close>

definition tun_name :: "string \<Rightarrow> bool" where
  "tun_name i \<longleftrightarrow> startswith i ''utun'' \<or> startswith i ''tun''"

definition header_line :: "string \<Rightarrow> bool" where
  "header_line l \<longleftrightarrow> l \<noteq> [] \<and> \<not> isspace (hd l)"

fun darwin_loop :: "string option \<Rightarrow> string list \<Rightarrow> string option" where
  "darwin_loop current [] = None"
| "darwin_loop current (line # lines) =
     (if header_line line then darwin_loop (Some (hd (split_on (CHR '':'') line))) lines
      else case current of
             Some i \<Rightarrow>
               if i \<noteq> [] \<and> tun_name i \<and> startswith (strip line) ''inet '' then Some i
               else darwin_loop current lines
           | None \<Rightarrow> darwin_loop current lines)"

definition parse_darwin_tun_interfaces :: "string \<Rightarrow> string option" where
  "parse_darwin_tun_interfaces out = darwin_loop None (splitlines out)"

definition tun_markers :: "string list" where
  "tun_markers = [''tap-windows'', ''wintun'', ''openvpn'', ''tap adapter'']"

text \<open>One round of the loop over Windows adapters.\<close>

definition windows_adapter :: "string option \<Rightarrow> json \<Rightarrow> string option" where
  "windows_adapter hint_lower adapter =
     (case adapter of
        JObj d \<Rightarrow>
          (case (map_of d ''Name'', map_of d ''InterfaceDescription'', map_of d ''Status'') of
             (Some (JStr name), Some (JStr description), Some (JStr status)) \<Rightarrow>
               if lower status \<noteq> ''up'' then None
               else if (case hint_lower of None \<Rightarrow> False
                        | Some h \<Rightarrow> h \<noteq> [] \<and> \<not> str_in h (lower name) \<and> \<not> str_in h (lower description)) then None
               else if list_ex (\<lambda>m. str_in m (lower description)) tun_markers then Some name
               else None
           | _ \<Rightarrow> None)
      | _ \<Rightarrow> None)"

fun first_some :: "('a \<Rightarrow> 'b option) \<Rightarrow> 'a list \<Rightarrow> 'b option" where
  "first_some f [] = None"
| "first_some f (x # xs) = (case f x of Some y \<Rightarrow> Some y | None \<Rightarrow> first_some f xs)"

text \<open>\<open>loads\<close> is \<^verbatim>\<open>json.loads\<close>; an error is a \<^verbatim>\<open>JSONDecodeError\<close>.\<close>

definition parse_windows_tun_interfaces ::
  "(string \<Rightarrow> exc + json) \<Rightarrow> string \<Rightarrow> string option \<Rightarrow> string option" where
  "parse_windows_tun_interfaces loads adapter_json hint =
     (let hint_lower = (case hint of None \<Rightarrow> None | Some h \<Rightarrow> if h = [] then None else Some (lower h))
      in case loads adapter_json of
           Inl _ \<Rightarrow> None
         | Inr (JObj d) \<Rightarrow> first_some (windows_adapter hint_lower) [JObj d]
         | Inr (JList xs) \<Rightarrow> first_some (windows_adapter hint_lower) xs
         | Inr _ \<Rightarrow> None)"

section \<open>The machine during one check\<close>

text \<open>
  \<open>CmdCaught\<close> is a \<^verbatim>\<open>FileNotFoundError\<close> or \<^verbatim>\<open>TimeoutExpired\<close> of \<^verbatim>\<open>subprocess.run\<close>.  The first argument of
  \<open>n_resolves\<close> and \<open>n_head\<close> is the position of the target in its list, so that a repeated target
  may get different answers.
\<close>

datatype cmd_reply = CmdResult int string | CmdCaught | CmdRaise exc

record net =
  n_system :: string
  n_cmd :: "string list \<Rightarrow> cmd_reply"
  n_loads :: "string \<Rightarrow> exc + json"
  n_resolves :: "nat \<Rightarrow> string \<Rightarrow> bool"
  n_head :: "nat \<Rightarrow> string \<Rightarrow> (string \<times> string) list \<Rightarrow> exc + nat"
  n_latency_ms :: "nat \<Rightarrow> pyfloat"
  n_str :: "exc \<Rightarrow> string"

definition get_adapters_cmd :: "string list" where
  "get_adapters_cmd = [''powershell'', ''-NoProfile'', ''-Command'',
     ''Get-NetAdapter -IncludeHidden | Select-Object Name,InterfaceDescription,Status | ConvertTo-Json -Compress'']"

definition hint_cmd :: "net \<Rightarrow> string \<Rightarrow> string list" where
  "hint_cmd N hint =
     (if n_system N = ''Darwin'' then [''ifconfig'', hint]
      else if n_system N = ''Windows'' then get_adapters_cmd
      else [''ip'', ''link'', ''show'', hint])"

definition looks_up :: "string \<Rightarrow> bool" where
  "looks_up out \<longleftrightarrow> str_in ''UP'' out \<or> str_in ''up'' out"

definition detect_hinted :: "net \<Rightarrow> string \<Rightarrow> exc + string option" where
  "detect_hinted N hint =
     (case n_cmd N (hint_cmd N hint) of
        CmdRaise e \<Rightarrow> Inl e
      | CmdCaught \<Rightarrow> Inr None
      | CmdResult rc out \<Rightarrow>
          if n_system N = ''Windows'' then Inr (parse_windows_tun_interfaces (n_loads N) out (Some hint))
          else if rc = 0 \<and> looks_up out then Inr (Some hint) else Inr None)"

definition linux_first_link :: "string list \<Rightarrow> string option" where
  "linux_first_link lines =
     first_some (\<lambda>line. let parts = split_on (CHR '':'') line
                 in if 2 \<le> length parts then Some (strip (parts ! 1)) else None) lines"

definition detect_any :: "net \<Rightarrow> exc + string option" where
  "detect_any N =
     (case n_cmd N (if n_system N = ''Darwin'' then [''ifconfig'']
                    else if n_system N = ''Windows'' then get_adapters_cmd
                    else [''ip'', ''-o'', ''link'', ''show'', ''type'', ''tun'']) of
        CmdRaise e \<Rightarrow> Inl e
      | CmdCaught \<Rightarrow> Inr None
      | CmdResult rc out \<Rightarrow>
          if n_system N = ''Darwin'' then Inr (parse_darwin_tun_interfaces out)
          else if n_system N = ''Windows'' then Inr (parse_windows_tun_interfaces (n_loads N) out None)
          else Inr (linux_first_link (splitlines out)))"

definition detect_tun_interface :: "net \<Rightarrow> string option \<Rightarrow> exc + string option" where
  "detect_tun_interface N hint =
     (case hint of
        Some h \<Rightarrow> if h \<noteq> [] then detect_hinted N h else detect_any N
      | None \<Rightarrow> detect_any N)"

section \<open>Probes\<close>

definition probe_target :: "net \<Rightarrow> nat \<Rightarrow> string \<Rightarrow> (string \<times> string) list \<Rightarrow> exc + probe_result" where
  "probe_target N i url headers =
     (case n_head N i url headers of
        Inr st \<Rightarrow> Inr \<lparr>pr_target = url, pr_ok = (st < 500), pr_latency_ms = Some (n_latency_ms N i), pr_error = None\<rparr>
      | Inl e \<Rightarrow>
          if is_Exception e
          then Inr \<lparr>pr_target = url, pr_ok = False, pr_latency_ms = Some (n_latency_ms N i),
                    pr_error = Some (take 200 (n_str N e))\<rparr>
          else Inl e)"

text \<open>
  \<^verbatim>\<open>urlparse(url).hostname\<close>: the scheme, the authority up to the next \<^verbatim>\<open>/\<close>, \<^verbatim>\<open>?\<close> or \<^verbatim>\<open>#\<close>, the part after
  the last \<^verbatim>\<open>@\<close>, and the host before the port or inside brackets, in lower case.  Unbalanced brackets
  are a \<^verbatim>\<open>ValueError\<close>.
\<close>

definition scheme_char :: "char \<Rightarrow> bool" where
  "scheme_char c \<longleftrightarrow> (let n = code c in 97 \<le> n \<and> n \<le> 122 \<or> 65 \<le> n \<and> n \<le> 90 \<or> 48 \<le> n \<and> n \<le> 57)
     \<or> c \<in> set ''+-.''"

definition after_scheme :: "string \<Rightarrow> string" where
  "after_scheme u =
     (let a = takeWhile (\<lambda>c. c \<noteq> CHR '':'') u; r = dropWhile (\<lambda>c. c \<noteq> CHR '':'') u
      in if r \<noteq> [] \<and> a \<noteq> [] \<and> isword (hd a) \<and> \<not> isdigit (hd a) \<and> hd a \<noteq> CHR ''_'' \<and> code (hd a) < 128
            \<and> list_all scheme_char a
         then tl r else u)"

definition url_netloc :: "string \<Rightarrow> string" where
  "url_netloc u =
     (let r = after_scheme u
      in if startswith r ''//'' then takeWhile (\<lambda>c. c \<notin> set ''/?#'') (drop 2 r) else [])"

definition url_hostname :: "string \<Rightarrow> exc + string option" where
  "url_hostname u =
     (let netloc = url_netloc u;
          info = rev (takeWhile (\<lambda>c. c \<noteq> CHR ''@'') (rev netloc));
          inside = dropWhile (\<lambda>c. c \<noteq> CHR ''['') info;
          host = (if inside \<noteq> [] then takeWhile (\<lambda>c. c \<noteq> CHR '']'') (tl inside)
                  else takeWhile (\<lambda>c. c \<noteq> CHR '':'') info);
          zone = dropWhile (\<lambda>c. c \<noteq> CHR ''%'') host
      in if (CHR ''['' \<in> set netloc) \<noteq> (CHR '']'' \<in> set netloc) then Inl (ValueErr ''Invalid IPv6 URL'')
         else if host = [] then Inr None
         else Inr (Some (lower (takeWhile (\<lambda>c. c \<noteq> CHR ''%'') host) @ zone)))"

section \<open>The guard\<close>

record guard =
  g_probe_targets :: "string list"
  g_interface_hint :: "string option"
  g_check_interval :: int
  g_vpn_required :: bool
  g_extra_headers :: "(string \<times> string) list"
  g_state :: service_state
  g_running :: bool

definition guard_init ::
  "string list \<Rightarrow> string option \<Rightarrow> int \<Rightarrow> bool \<Rightarrow> (string \<times> string) list \<Rightarrow> guard" where
  "guard_init targets hint interval required headers =
     \<lparr>g_probe_targets = targets, g_interface_hint = hint, g_check_interval = interval,
      g_vpn_required = required, g_extra_headers = headers, g_state = BOOTING, g_running = False\<rparr>"

definition is_ready :: "guard \<Rightarrow> bool" where
  "is_ready g \<longleftrightarrow> g_state g = READY"

fun dns_failures :: "net \<Rightarrow> nat \<Rightarrow> string list \<Rightarrow> exc + string list" where
  "dns_failures N i [] = Inr []"
| "dns_failures N i (t # ts) =
     sbind (url_hostname t) (\<lambda>h.
     sbind (dns_failures N (Suc i) ts) (\<lambda>rest.
       Inr (case h of
              Some n \<Rightarrow> if n \<noteq> [] \<and> \<not> n_resolves N i n then n # rest else rest
            | None \<Rightarrow> rest)))"

fun run_probes :: "net \<Rightarrow> (string \<times> string) list \<Rightarrow> nat \<Rightarrow> string list \<Rightarrow> exc + probe_result list" where
  "run_probes N hs i [] = Inr []"
| "run_probes N hs i (t # ts) =
     sbind (probe_target N i t hs) (\<lambda>p. sbind (run_probes N hs (Suc i) ts) (\<lambda>ps. Inr (p # ps)))"

definition probe_reason :: "probe_result \<Rightarrow> string" where
  "probe_reason p =
     pr_target p @ '': '' @ (case pr_error p of Some e \<Rightarrow> if e \<noteq> [] then e else ''unreachable'' | None \<Rightarrow> ''unreachable'')"

text \<open>The three stages; each failing stage sets the state and returns.\<close>

definition unavailable :: "guard \<Rightarrow> bool \<Rightarrow> probe_result list \<Rightarrow> string \<Rightarrow> vpn_status \<times> guard" where
  "unavailable g found ps reason =
     (\<lparr>vs_ok = False, vs_interface_found = found, vs_probes = ps, vs_reason = reason\<rparr>,
      g\<lparr>g_state := VPN_UNAVAILABLE\<rparr>)"

definition preflight :: "net \<Rightarrow> guard \<Rightarrow> exc + vpn_status \<times> guard" where
  "preflight N g =
     sbind (detect_tun_interface N (g_interface_hint g)) (\<lambda>iface.
       let found = (iface \<noteq> None) in
       if \<not> found \<and> g_vpn_required g then Inr (unavailable g False [] ''No VPN tunnel interface detected'')
       else sbind (dns_failures N 0 (g_probe_targets g)) (\<lambda>failures.
         if failures \<noteq> [] \<and> g_vpn_required g
         then Inr (unavailable g found [] (''DNS resolution failed for: '' @ join '', '' failures))
         else sbind (run_probes N (g_extra_headers g) 0 (g_probe_targets g)) (\<lambda>probes.
           let failed = filter (\<lambda>p. \<not> pr_ok p) probes in
           if failed \<noteq> [] \<and> g_vpn_required g
           then Inr (unavailable g found probes (''Probe failures: '' @ join ''; '' (map probe_reason failed)))
           else Inr (\<lparr>vs_ok = True, vs_interface_found = found, vs_probes = probes, vs_reason = []\<rparr>,
                     g\<lparr>g_state := READY\<rparr>))))"

section \<open>The watch loop\<close>

text \<open>
  One round: the pause, the preflight and the callback (an exception of the pause, of the
  preflight or of the callback leaves the loop), and whether \<^verbatim>\<open>stop\<close> was called meanwhile.
\<close>

record watch_round =
  wr_net :: net
  wr_sleep :: "exc option"
  wr_callback :: "service_state \<Rightarrow> exc option"
  wr_stop :: bool

text \<open>The state change and the notification of one iteration, after its preflight.\<close>

definition watch_react :: "service_state \<Rightarrow> vpn_status \<Rightarrow> guard \<Rightarrow> guard \<times> service_state option" where
  "watch_react previous status g =
     (if vs_ok status \<and> previous \<notin> {READY, BOOTING} then (g, Some READY)
      else if \<not> vs_ok status \<and> previous = READY then (g\<lparr>g_state := DEGRADED\<rparr>, Some DEGRADED)
      else (g, None))"

definition watch_iteration :: "watch_round \<Rightarrow> guard \<Rightarrow> exc + guard \<times> service_state option" where
  "watch_iteration r g =
     (case wr_sleep r of
        Some e \<Rightarrow> Inl e
      | None \<Rightarrow> sbind (preflight (wr_net r) g) (\<lambda>(status, g').
          Inr (watch_react (g_state g) status g')))"

definition guard_stop :: "guard \<Rightarrow> guard" where
  "guard_stop g = g\<lparr>g_running := False\<rparr>"

text \<open>
  \<^verbatim>\<open>while self._running\<close> over the given rounds: the notifications made, and how the loop was left:
  \<open>None\<close> when it stopped or is still running.
\<close>

fun watch_while :: "watch_round list \<Rightarrow> guard \<Rightarrow> service_state list \<times> guard \<times> exc option" where
  "watch_while [] g = ([], g, None)"
| "watch_while (r # rs) g =
     (if \<not> g_running g then ([], g, None)
      else case watch_iteration r g of
        Inl e \<Rightarrow> ([], g, Some e)
      | Inr (g', msg) \<Rightarrow>
          (case msg of
             None \<Rightarrow> watch_while rs (if wr_stop r then guard_stop g' else g')
           | Some st \<Rightarrow>
               (case wr_callback r st of
                  Some e \<Rightarrow> ([st], g', Some e)
                | None \<Rightarrow> (case watch_while rs (if wr_stop r then guard_stop g' else g') of
                             (msgs, g'', x) \<Rightarrow> (st # msgs, g'', x)))))"

definition watch :: "watch_round list \<Rightarrow> guard \<Rightarrow> service_state list \<times> guard \<times> exc option" where
  "watch rs g = watch_while rs (g\<lparr>g_running := True\<rparr>)"

section \<open>Key files\<close>

definition validate_key_permissions :: "net \<Rightarrow> disk \<Rightarrow> string \<Rightarrow> bool" where
  "validate_key_permissions N D path =
     (case D path of
        None \<Rightarrow> False
      | Some f \<Rightarrow> n_system N = ''Windows'' \<or> f_mode f mod 512 \<in> {384, 256})"

end
