(* ===== verification/Guard_Safety.thy ===== *)
theory Guard_Safety
  imports Guard
begin

text \<open>
  Properties of the VPN guard: when a preflight succeeds, how the watch loop moves between the
  service states and what it tells its callback, and what the interface parsers accept.
\<close>

section \<open>Preflight\<close>

text \<open>Name resolution and probes as conditions on every target.\<close>

definition host_ok :: "net \<Rightarrow> nat \<Rightarrow> string \<Rightarrow> bool" where
  "host_ok N i t \<longleftrightarrow>
     (case url_hostname t of Inr (Some n) \<Rightarrow> n = [] \<or> n_resolves N i n | Inr None \<Rightarrow> True | Inl _ \<Rightarrow> False)"

definition probe_ok :: "net \<Rightarrow> (string \<times> string) list \<Rightarrow> nat \<Rightarrow> string \<Rightarrow> bool" where
  "probe_ok N hs i t \<longleftrightarrow> (case n_head N i t hs of Inr st \<Rightarrow> st < 500 | Inl _ \<Rightarrow> False)"

definition healthy :: "net \<Rightarrow> guard \<Rightarrow> bool" where
  "healthy N g \<longleftrightarrow>
     (\<exists>i. detect_tun_interface N (g_interface_hint g) = Inr (Some i))
     \<and> (\<forall>k < length (g_probe_targets g). host_ok N k (g_probe_targets g ! k))
     \<and> (\<forall>k < length (g_probe_targets g). probe_ok N (g_extra_headers g) k (g_probe_targets g ! k))"

lemma all_less_Suc_shift: "(\<forall>k < Suc n. P k) \<longleftrightarrow> P 0 \<and> (\<forall>k < n. P (Suc k))"
  by (metis less_Suc_eq_0_disj Suc_less_eq zero_less_Suc)

lemma dns_failures_Nil:
  "dns_failures N i ts = Inr fs \<Longrightarrow> fs = [] \<longleftrightarrow> (\<forall>k < length ts. host_ok N (i + k) (ts ! k))"
proof (induction ts arbitrary: i fs)
  case (Cons t ts)
  then obtain h rest where h: "url_hostname t = Inr h" and rest: "dns_failures N (Suc i) ts = Inr rest"
    and fs: "fs = (case h of Some n \<Rightarrow> if n \<noteq> [] \<and> \<not> n_resolves N i n then n # rest else rest | None \<Rightarrow> rest)"
    by (auto simp: sbind_eq_Inr)
  have IH: "rest = [] \<longleftrightarrow> (\<forall>k < length ts. host_ok N (Suc i + k) (ts ! k))" by (rule Cons.IH [OF rest])
  have "fs = [] \<longleftrightarrow> host_ok N i t \<and> rest = []"
    unfolding fs host_ok_def h by (cases h) auto
  then show ?case unfolding IH by (simp add: all_less_Suc_shift)
qed simp

lemma probe_target_ok: "probe_target N i t hs = Inr p \<Longrightarrow> pr_ok p \<longleftrightarrow> probe_ok N hs i t"
  by (auto simp: probe_target_def probe_ok_def split: sum.splits if_splits)

lemma run_probes_ok:
  "run_probes N hs i ts = Inr ps \<Longrightarrow>
   filter (\<lambda>p. \<not> pr_ok p) ps = [] \<longleftrightarrow> (\<forall>k < length ts. probe_ok N hs (i + k) (ts ! k))"
proof (induction ts arbitrary: i ps)
  case (Cons t ts)
  then obtain p rest where p: "probe_target N i t hs = Inr p" and rest: "run_probes N hs (Suc i) ts = Inr rest"
    and ps: "ps = p # rest" by (auto simp: sbind_eq_Inr)
  have "filter (\<lambda>p. \<not> pr_ok p) rest = [] \<longleftrightarrow> (\<forall>k < length ts. probe_ok N hs (Suc i + k) (ts ! k))"
    by (rule Cons.IH [OF rest])
  then show ?case using probe_target_ok [OF p] by (simp add: ps all_less_Suc_shift)
qed simp

text \<open>A preflight that returns with its verdict and its new state.\<close>

lemma preflight_cases:
  assumes "preflight N g = Inr (st, g')"
  shows "(vs_ok st \<longleftrightarrow> \<not> g_vpn_required g \<or> healthy N g)
     \<and> g' = g\<lparr>g_state := if vs_ok st then READY else VPN_UNAVAILABLE\<rparr>"
proof -
  obtain iface where i: "detect_tun_interface N (g_interface_hint g) = Inr iface"
    using assms by (auto simp: preflight_def sbind_eq_Inr)
  show ?thesis
  proof (cases "iface = None \<and> g_vpn_required g")
    case True
    then show ?thesis using assms i by (auto simp: preflight_def unavailable_def healthy_def)
  next
    case noif: False
    then obtain fs where f: "dns_failures N 0 (g_probe_targets g) = Inr fs"
      using assms i by (auto simp: preflight_def sbind_eq_Inr Let_def)
    note dns = dns_failures_Nil [OF f, simplified]
    show ?thesis
    proof (cases "fs \<noteq> [] \<and> g_vpn_required g")
      case True
      then show ?thesis using assms i f noif dns by (auto simp: preflight_def unavailable_def healthy_def Let_def)
    next
      case False
      then obtain ps where p: "run_probes N (g_extra_headers g) 0 (g_probe_targets g) = Inr ps"
        using assms i f noif by (auto simp: preflight_def sbind_eq_Inr Let_def)
      note probes = run_probes_ok [OF p, simplified]
      show ?thesis
        using assms i f p noif False dns probes
        by (auto simp: preflight_def unavailable_def healthy_def Let_def split: if_splits)
    qed
  qed
qed

text \<open>
  C38. With the VPN required, a preflight reports success, and the guard becomes ready, exactly when a
  tunnel interface was detected, every probe host resolves and every probe is answered below 500;
  otherwise the state is \<^verbatim>\<open>VPN_UNAVAILABLE\<close>.  Without that requirement it always succeeds.
\<close>

theorem preflight_verdict:
  assumes "preflight N g = Inr (st, g')"
  shows "(vs_ok st \<longleftrightarrow> \<not> g_vpn_required g \<or> healthy N g) \<and> (is_ready g' \<longleftrightarrow> vs_ok st)
     \<and> (\<not> vs_ok st \<longrightarrow> g_state g' = VPN_UNAVAILABLE)"
  using preflight_cases [OF assms] by (auto simp: is_ready_def)

definition good_net :: net where
  "good_net = \<lparr>n_system = ''Linux'', n_cmd = (\<lambda>_. CmdResult 0 ''5: tun0: <UP>''), n_loads = (\<lambda>_. Inr JNull),
     n_resolves = (\<lambda>_ _. True), n_head = (\<lambda>_ _ _. Inr 200), n_latency_ms = (\<lambda>_. Finite 1), n_str = (\<lambda>_. ''down'')\<rparr>"

definition bad_net :: net where
  "bad_net = good_net\<lparr>n_head := (\<lambda>_ _ _. Inr 503)\<rparr>"

definition sample_guard :: guard where
  "sample_guard = guard_init [''https://Coda.example:8443/health''] (Some ''tun0'') 10 True []"

theorem preflight_verdict_witness:
  "\<exists>st g'. preflight bad_net sample_guard = Inr (st, g') \<and> \<not> is_ready g' \<and> g_state g' = VPN_UNAVAILABLE"
proof -
  have "\<not> isl (preflight bad_net sample_guard)" "\<not> vs_ok (fst (projr (preflight bad_net sample_guard)))" by code_simp+
  then obtain st g' where p: "preflight bad_net sample_guard = Inr (st, g')" "\<not> vs_ok st"
    by (cases "preflight bad_net sample_guard") auto
  from preflight_verdict [OF p(1)] p show ?thesis by blast
qed

section \<open>The watch loop\<close>

fun next_state :: "service_state \<Rightarrow> bool \<Rightarrow> service_state" where
  "next_state s True = READY"
| "next_state READY False = DEGRADED"
| "next_state s False = VPN_UNAVAILABLE"

fun notification :: "service_state \<Rightarrow> bool \<Rightarrow> service_state option" where
  "notification DEGRADED True = Some READY"
| "notification VPN_UNAVAILABLE True = Some READY"
| "notification READY False = Some DEGRADED"
| "notification s ok = None"

lemma watch_iteration_step:
  assumes "watch_iteration r g = Inr (g', msg)"
  shows "\<exists>ok. ok = (\<not> g_vpn_required g \<or> healthy (wr_net r) g)
     \<and> g' = g\<lparr>g_state := next_state (g_state g) ok\<rparr> \<and> msg = notification (g_state g) ok"
proof -
  from assms obtain st g1 where p: "preflight (wr_net r) g = Inr (st, g1)"
    and w: "(g', msg) = watch_react (g_state g) st g1"
    by (auto simp: watch_iteration_def sbind_eq_Inr split: option.splits)
  from preflight_cases [OF p] have ok: "vs_ok st = (\<not> g_vpn_required g \<or> healthy (wr_net r) g)"
    and g1: "g1 = g\<lparr>g_state := if vs_ok st then READY else VPN_UNAVAILABLE\<rparr>" by blast+
  have "g' = g\<lparr>g_state := next_state (g_state g) (vs_ok st)\<rparr>" "msg = notification (g_state g) (vs_ok st)"
    using w unfolding watch_react_def g1 by (cases "g_state g"; cases "vs_ok st"; simp)+
  with ok show ?thesis by blast
qed

text \<open>Notifications of a run from a state: the next one is \<open>DEGRADED\<close> from ready states, \<open>READY\<close> from the others.\<close>

fun alternating :: "service_state option \<Rightarrow> service_state list \<Rightarrow> bool" where
  "alternating prev [] = True"
| "alternating prev (n # ns) \<longleftrightarrow> (n = READY \<or> n = DEGRADED) \<and> prev \<noteq> Some n \<and> alternating (Some n) ns"

text \<open>The last notification a state is consistent with.\<close>

fun told :: "service_state \<Rightarrow> service_state option \<Rightarrow> bool" where
  "told READY p \<longleftrightarrow> p = None \<or> p = Some READY"
| "told BOOTING p \<longleftrightarrow> p = None"
| "told _ p \<longleftrightarrow> p = None \<or> p = Some DEGRADED"

lemma watch_while_alternates:
  assumes "watch_while rs g = (msgs, g', x)" and "told (g_state g) prev"
  shows "alternating prev msgs \<and> told (g_state g') (if msgs = [] then prev else Some (last msgs))"
  using assms
proof (induction rs arbitrary: g msgs prev)
  case Nil
  then show ?case by auto
next
  case (Cons r rs)
  show ?case
  proof (cases "g_running g")
    case False
    then show ?thesis using Cons.prems by auto
  next
    case run: True
    show ?thesis
    proof (cases "watch_iteration r g")
      case (Inl e)
      then show ?thesis using Cons.prems run by auto
    next
      case (Inr a)
      then obtain g1 msg where i: "watch_iteration r g = Inr (g1, msg)" by (cases a) auto
      from watch_iteration_step [OF this] obtain ok where g1: "g1 = g\<lparr>g_state := next_state (g_state g) ok\<rparr>"
        and n: "msg = notification (g_state g) ok" by blast
      let ?g2 = "if wr_stop r then guard_stop g1 else g1"
      have st: "g_state ?g2 = next_state (g_state g) ok" by (simp add: g1 guard_stop_def)
      show ?thesis
      proof (cases msg)
        case None
        then have w: "watch_while rs ?g2 = (msgs, g', x)" using Cons.prems(1) run i by simp
        have "told (g_state ?g2) prev"
          using None n Cons.prems(2) unfolding st by (cases "g_state g"; cases ok) auto
        from Cons.IH [OF w this] show ?thesis .
      next
        case (Some s)
        have s: "told (g_state ?g2) (Some s)" "s = READY \<or> s = DEGRADED" "prev \<noteq> Some s"
          using Some n Cons.prems(2) unfolding st by (cases "g_state g"; cases ok; auto)+
        show ?thesis
        proof (cases "wr_callback r s")
          case (Some e)
          then show ?thesis using Cons.prems(1) run i \<open>msg = Some s\<close> s st g1 by auto
        next
          case None
          obtain msgs' g'' x' where w: "watch_while rs ?g2 = (msgs', g'', x')" by (metis prod_cases3)
          then have eq: "msgs = s # msgs'" "g'' = g'" "x' = x"
            using Cons.prems(1) run i \<open>msg = Some s\<close> None by auto
          from Cons.IH [OF w [unfolded eq(2,3)] s(1)] s eq(1) show ?thesis by auto
        qed
      qed
    qed
  qed
qed

text \<open>
  C39. The callback of \<^verbatim>\<open>watch\<close> never hears the same state twice in a row: its notifications are
  \<^verbatim>\<open>READY\<close> and \<^verbatim>\<open>DEGRADED\<close> in strict alternation, for any sequence of network conditions and any
  failing callbacks, and the last one agrees with the state the guard ends in (\<^verbatim>\<open>READY\<close> with
  ready, \<^verbatim>\<open>DEGRADED\<close> with degraded or unavailable).
\<close>

theorem watch_notifications_alternate:
  assumes "watch rs (guard_init targets hint interval required headers) = (msgs, g', x)"
  shows "alternating None msgs
     \<and> (msgs \<noteq> [] \<longrightarrow> (last msgs = READY \<longleftrightarrow> is_ready g') \<and> (last msgs = DEGRADED \<longleftrightarrow> \<not> is_ready g'))"
proof -
  have "watch_while rs ((guard_init targets hint interval required headers)\<lparr>g_running := True\<rparr>) = (msgs, g', x)"
    using assms by (simp add: watch_def)
  moreover have "told (g_state ((guard_init targets hint interval required headers)\<lparr>g_running := True\<rparr>)) None"
    by (simp add: guard_init_def)
  ultimately have "alternating None msgs \<and> told (g_state g') (if msgs = [] then None else Some (last msgs))"
    by (rule watch_while_alternates)
  then show ?thesis by (cases "g_state g'") (auto simp: is_ready_def)
qed

definition sample_round :: "net \<Rightarrow> watch_round" where
  "sample_round N = \<lparr>wr_net = N, wr_sleep = None, wr_callback = (\<lambda>_. None), wr_stop = False\<rparr>"

theorem watch_notifications_alternate_witness:
  "alternating None (fst (watch (map sample_round [good_net, bad_net, bad_net, good_net, bad_net]) sample_guard))
   \<and> fst (watch (map sample_round [good_net, bad_net, bad_net, good_net, bad_net]) sample_guard) = [DEGRADED, READY, DEGRADED]"
proof -
  let ?w = "watch (map sample_round [good_net, bad_net, bad_net, good_net, bad_net]) sample_guard"
  have "fst ?w = [DEGRADED, READY, DEGRADED]" by code_simp
  moreover obtain msgs g' x where "?w = (msgs, g', x)" by (metis prod_cases3)
  moreover from this have "alternating None msgs"
    using watch_notifications_alternate unfolding sample_guard_def by blast
  ultimately show ?thesis by simp
qed

text \<open>
  The second failed check after a healthy one moves the guard from degraded to unavailable
  without any call of the callback.
\<close>

theorem degraded_to_unavailable_is_silent:
  assumes "g_state g = DEGRADED" and "g_vpn_required g" and "\<not> healthy (wr_net r) g"
    and "watch_iteration r g = Inr (g', msg)"
  shows "g_state g' = VPN_UNAVAILABLE \<and> msg = None"
  using watch_iteration_step [OF assms(4)] assms(1-3) by auto

theorem degraded_to_unavailable_is_silent_witness:
  "\<exists>g' msg. watch_iteration (sample_round bad_net) (sample_guard\<lparr>g_state := DEGRADED\<rparr>) = Inr (g', msg)
     \<and> g_state g' = VPN_UNAVAILABLE \<and> msg = None"
proof -
  let ?g = "sample_guard\<lparr>g_state := DEGRADED\<rparr>"
  have "\<not> isl (watch_iteration (sample_round bad_net) ?g)" by code_simp
  then obtain g' msg where w: "watch_iteration (sample_round bad_net) ?g = Inr (g', msg)"
    by (cases "watch_iteration (sample_round bad_net) ?g") auto
  have "\<not> healthy (wr_net (sample_round bad_net)) ?g"
    by (simp add: healthy_def probe_ok_def sample_round_def bad_net_def sample_guard_def guard_init_def)
  moreover have "g_vpn_required ?g" by (simp add: sample_guard_def guard_init_def)
  ultimately show ?thesis using degraded_to_unavailable_is_silent [OF _ _ _ w] w by simp
qed

section \<open>Interface listings\<close>

text \<open>
  An address line for interface \<open>i\<close>: the header line of \<open>i\<close>, then only indented or empty lines up
  to one whose text starts with \<^verbatim>\<open>inet\<close>.
\<close>

definition inet_block :: "string list \<Rightarrow> bool" where
  "inet_block ls \<longleftrightarrow> (\<exists>mid inet after. ls = mid @ inet # after
     \<and> list_all (\<lambda>l. \<not> header_line l) (mid @ [inet]) \<and> startswith (strip inet) ''inet '')"

definition has_address :: "string \<Rightarrow> string list \<Rightarrow> bool" where
  "has_address i ls \<longleftrightarrow> (\<exists>before hdr rest. ls = before @ hdr # rest \<and> header_line hdr
     \<and> hd (split_on (CHR '':'') hdr) = i \<and> inet_block rest)"

lemma inet_block_Cons:
  "inet_block (l # ls) \<longleftrightarrow> \<not> header_line l \<and> (startswith (strip l) ''inet '' \<or> inet_block ls)"
proof
  assume "inet_block (l # ls)"
  then obtain mid inet after where *: "l # ls = mid @ inet # after"
    "list_all (\<lambda>l. \<not> header_line l) (mid @ [inet])" "startswith (strip inet) ''inet ''"
    unfolding inet_block_def by blast
  then show "\<not> header_line l \<and> (startswith (strip l) ''inet '' \<or> inet_block ls)"
  proof (cases mid)
    case (Cons m ms)
    then have "ls = ms @ inet # after" "\<not> header_line l" "list_all (\<lambda>l. \<not> header_line l) (ms @ [inet])"
      using * by simp_all
    then show ?thesis using *(3) unfolding inet_block_def by blast
  qed (use * in simp)
next
  assume *: "\<not> header_line l \<and> (startswith (strip l) ''inet '' \<or> inet_block ls)"
  show "inet_block (l # ls)"
  proof (cases "startswith (strip l) ''inet ''")
    case True
    then show ?thesis using * unfolding inet_block_def
      by (intro exI [of _ "[]"] exI [of _ l] exI [of _ ls]) simp
  next
    case False
    then obtain mid inet after where "ls = mid @ inet # after"
      "list_all (\<lambda>l. \<not> header_line l) (mid @ [inet])" "startswith (strip inet) ''inet ''"
      using * unfolding inet_block_def by blast
    then show ?thesis using * unfolding inet_block_def
      by (intro exI [of _ "l # mid"] exI [of _ inet] exI [of _ after]) simp
  qed
qed

lemma has_address_Cons:
  "has_address i (l # ls) \<longleftrightarrow> header_line l \<and> hd (split_on (CHR '':'') l) = i \<and> inet_block ls \<or> has_address i ls"
  unfolding has_address_def by (auto simp: Cons_eq_append_conv)

lemma darwin_loop_correct:
  "(darwin_loop current ls = Some i \<longrightarrow> tun_name i \<and> (current = Some i \<and> inet_block ls \<or> has_address i ls))
   \<and> (darwin_loop current ls = None \<longrightarrow>
        (\<forall>j. j \<noteq> [] \<longrightarrow> tun_name j \<longrightarrow> \<not> (current = Some j \<and> inet_block ls) \<and> \<not> has_address j ls))"
proof (induction ls arbitrary: current)
  case Nil
  then show ?case by (simp add: inet_block_def has_address_def)
next
  case (Cons l ls)
  show ?case
  proof (cases "header_line l")
    case True
    then show ?thesis using Cons.IH [of "Some (hd (split_on (CHR '':'') l))"]
      unfolding has_address_Cons inet_block_Cons by simp
  next
    case False
    then show ?thesis using Cons.IH [of current]
      unfolding has_address_Cons inet_block_Cons by (cases current; simp; blast?)
  qed
qed

text \<open>
  C40. On macOS the detected interface is a \<^verbatim>\<open>utun\<close> or \<^verbatim>\<open>tun\<close> interface of the listing that has an
  \<^verbatim>\<open>inet\<close> address, and one is detected whenever the listing has any.
\<close>

theorem darwin_detection_exact:
  "(\<forall>i. parse_darwin_tun_interfaces out = Some i \<longrightarrow> tun_name i \<and> has_address i (splitlines out))
   \<and> (parse_darwin_tun_interfaces out = None \<longrightarrow>
        \<not> (\<exists>j. tun_name j \<and> has_address j (splitlines out)))"
proof -
  have "tun_name j \<Longrightarrow> j \<noteq> []" for j by (auto simp: tun_name_def startswith_def)
  then show ?thesis
    using darwin_loop_correct [of None "splitlines out"] unfolding parse_darwin_tun_interfaces_def by blast
qed

definition sample_ifconfig :: string where
  "sample_ifconfig = ''en0: flags'' @ [CHR 0x0A] @ '' inet 10.0.0.1'' @ [CHR 0x0A] @ ''utun3: flags'' @ [CHR 0x0A]
     @ '' mtu 1500'' @ [CHR 0x0A] @ '' inet 10.8.0.2'' @ [CHR 0x0A]"

theorem darwin_detection_exact_witness: "tun_name ''utun3'' \<and> has_address ''utun3'' (splitlines sample_ifconfig)"
proof -
  have "parse_darwin_tun_interfaces sample_ifconfig = Some ''utun3''" by code_simp
  then show ?thesis using darwin_detection_exact [of sample_ifconfig] by blast
qed

text \<open>
  On Linux with an interface hint, any successful \<^verbatim>\<open>ip link show\<close> whose output contains the word
  \<^verbatim>\<open>group\<close>, which \<^verbatim>\<open>ip\<close> prints for every link, counts as an interface that is up: the substring test
  for \<^verbatim>\<open>up\<close> is satisfied by \<^verbatim>\<open>group\<close> itself.
\<close>

theorem hinted_detection_ignores_state:
  assumes "n_system N = ''Linux''" and "h \<noteq> []" and "n_cmd N [''ip'', ''link'', ''show'', h] = CmdResult 0 out"
    and "str_in ''group'' out"
  shows "detect_tun_interface N (Some h) = Inr (Some h)"
proof -
  obtain a b where "out = a @ ''group'' @ b" using assms(4) unfolding str_in_iff by blast
  then have "out = (a @ ''gro'') @ ''up'' @ b" by simp
  then have "looks_up out" unfolding looks_up_def str_in_iff by blast
  then show ?thesis using assms by (simp add: detect_tun_interface_def detect_hinted_def hint_cmd_def)
qed

definition down_link :: string where
  "down_link = ''5: tun0: <POINTOPOINT,MULTICAST,NOARP> mtu 1500 qdisc noop state DOWN mode DEFAULT group default qlen 500''"

theorem hinted_detection_ignores_state_witness:
  "detect_tun_interface (good_net\<lparr>n_cmd := (\<lambda>_. CmdResult 0 down_link)\<rparr>) (Some ''tun0'') = Inr (Some ''tun0'')"
proof (rule hinted_detection_ignores_state)
  show "str_in ''group'' down_link" by code_simp
qed (simp_all add: good_net_def)

end
