(* ===== verification/VPN_Service.thy ===== *)
theory VPN_Service
  imports Guard Executor Auth Effects
begin

text \<open>
  Provisioning and the OpenVPN daemon: \<^verbatim>\<open>vpn/service.py\<close> (its persistence functions are in
  \<open>Config\<close>).  The state is the settings object, the disk and the log of what was done to the outside
  world; the record \<open>svc_env\<close> answers the cloud, the operating system and the clock, each answer
  depending on the log so far.
\<close>

section \<open>Profiles\<close>

definition DANGEROUS_OVPN_DIRECTIVES :: "string list" where
  "DANGEROUS_OVPN_DIRECTIVES =
     [''script-security'', ''up'', ''down'', ''client-connect'', ''client-disconnect'', ''learn-address'',
      ''auth-user-pass-verify'', ''tls-verify'', ''ipchange'', ''route-up'', ''route-pre-down'', ''plugin'']"

definition directive :: "string \<Rightarrow> string" where
  "directive line = (case split_ws (strip line) of [] \<Rightarrow> [] | w # _ \<Rightarrow> lower w)"

fun validate_lines :: "nat \<Rightarrow> string list \<Rightarrow> exc + unit" where
  "validate_lines n [] = Inr ()"
| "validate_lines n (l # ls) =
     (if directive l \<in> set DANGEROUS_OVPN_DIRECTIVES
      then Inl (Coda (NodeError (''Refusing OpenVPN profile: forbidden directive '' @ [CHR 0x27] @ directive l
             @ [CHR 0x27] @ '' on line '' @ show_nat n)))
      else validate_lines (Suc n) ls)"

definition validate_vpn_profile :: "string \<Rightarrow> exc + unit" where
  "validate_vpn_profile profile = validate_lines 1 (splitlines profile)"

definition with_reneg :: "string \<Rightarrow> string" where
  "with_reneg profile =
     (if str_in ''reneg-sec'' profile then profile
      else rstrip profile @ [CHR 0x0A] @ ''reneg-sec 0'' @ [CHR 0x0A])"

definition write_vpn_profile :: "os_env \<Rightarrow> string \<Rightarrow> string \<Rightarrow> disk \<Rightarrow> exc + disk" where
  "write_vpn_profile OS path profile D =
     sbind (validate_vpn_profile profile) (\<lambda>_. Inr (write_secure_text OS path (with_reneg profile) D))"

section \<open>The outside world\<close>

text \<open>
  The answer of the connect endpoint: status, text and parsed body, or an exception of the client.
  \<open>KillCaught\<close> is a \<^verbatim>\<open>PermissionError\<close>, \<^verbatim>\<open>ProcessLookupError\<close>, \<^verbatim>\<open>ValueError\<close> or \<^verbatim>\<open>TimeoutExpired\<close>.  A started
  daemon writes its process id file.  \<open>SvKill\<close> is \<^verbatim>\<open>SIGTERM\<close> or \<^verbatim>\<open>taskkill\<close>, \<open>SvForce\<close> is \<^verbatim>\<open>SIGKILL\<close>,
  \<open>SvProbe\<close> is signal 0, whose \<^verbatim>\<open>OSError\<close>s answer \<open>False\<close>; \<open>SvSpawn\<close> starts the server in the background
  and \<open>SvServe\<close> runs it in the foreground (these four belong to the daemon and the command line).
\<close>

datatype connect_reply = ConnectResponse nat string "exc + json" | ConnectRaise exc
datatype kill_reply = KillDone | KillCaught | KillRaise exc
datatype start_reply = Started string | StartFailed string | StartRaise exc

datatype svc_event =
    SvPost "(string \<times> string) list" dict connect_reply
  | SvSleep rat "exc option"
  | SvDetect "exc + string option"
  | SvStart string start_reply
  | SvKill int kill_reply
  | SvForce int kill_reply
  | SvProbe int "exc + bool"
  | SvSpawn "string list" "(string \<times> string) list" "exc + int"
  | SvServe string int "exc option"

record node_state =
  ns_settings :: settings
  ns_disk :: disk
  ns_log :: "svc_event list"

record svc_env =
  v_os :: os_env
  v_post :: "svc_event list \<Rightarrow> connect_reply"
  v_sleep :: "svc_event list \<Rightarrow> exc option"
  v_net :: "svc_event list \<Rightarrow> net"
  v_monotonic :: "svc_event list \<Rightarrow> rat"
  v_which :: "svc_event list \<Rightarrow> string option"
  v_start :: "svc_event list \<Rightarrow> start_reply"
  v_kill :: "svc_event list \<Rightarrow> kill_reply"
  v_probe :: "svc_event list \<Rightarrow> int \<Rightarrow> exc + bool"
  v_spawn :: "svc_event list \<Rightarrow> exc + int"
  v_serve :: "svc_event list \<Rightarrow> exc option"
  v_executable :: string
  v_clock :: "svc_event list \<Rightarrow> int"
  v_jwt :: jwt_encode
  v_py :: "nat pyenv"
  v_device :: "nat \<Rightarrow> device_spec option"
  v_fingerprint :: string
  v_dumps :: "json \<Rightarrow> string"
  v_loads :: "string \<Rightarrow> exc + json"
  v_str_of :: "json \<Rightarrow> string"
  v_exc_str :: "exc \<Rightarrow> string"
  v_show_secs :: "rat \<Rightarrow> string"

definition OPENVPN_PID_PATH :: "os_env \<Rightarrow> string" where
  "OPENVPN_PID_PATH OS = os_tmp OS @ ''/coda-node-openvpn.pid''"

definition OPENVPN_LOG_PATH :: "os_env \<Rightarrow> string" where
  "OPENVPN_LOG_PATH OS = os_tmp OS @ ''/coda-node-openvpn.log''"

definition svc_ask :: "(svc_event list \<Rightarrow> 'r) \<Rightarrow> ('r \<Rightarrow> svc_event) \<Rightarrow> (node_state, 'r) prog" where
  "svc_ask reply ev =
     bind (gets (\<lambda>s. reply (ns_log s))) (\<lambda>r. bind (modify (ns_log_update (\<lambda>h. ev r # h))) (\<lambda>_. ret r))"

definition svc_sleep :: "svc_env \<Rightarrow> rat \<Rightarrow> (node_state, unit) prog" where
  "svc_sleep V d =
     bind (svc_ask (v_sleep V) (SvSleep d)) (\<lambda>r. case r of None \<Rightarrow> ret () | Some e \<Rightarrow> raise e)"

definition detect_tunnel :: "svc_env \<Rightarrow> string option \<Rightarrow> (node_state, string option) prog" where
  "detect_tunnel V hint =
     bind (svc_ask (\<lambda>h. detect_tun_interface (v_net V h) hint) SvDetect) of_sum"

section \<open>The daemon\<close>

definition start_openvpn :: "svc_env \<Rightarrow> string \<Rightarrow> (node_state, unit) prog" where
  "start_openvpn V profile_path =
     bind (gets (\<lambda>s. v_which V (ns_log s))) (\<lambda>bin.
       case bin of
         None \<Rightarrow> raise (Coda (NodeError ''openvpn binary not found. Install OpenVPN or disable node auto VPN.''))
       | Some _ \<Rightarrow>
           bind (svc_ask (v_start V) (SvStart profile_path)) (\<lambda>r.
             case r of
               StartRaise e \<Rightarrow> raise e
             | StartFailed err \<Rightarrow>
                 raise (Coda (NodeError (''Failed to start OpenVPN: '' @
                   (if strip err \<noteq> [] then strip err else ''unknown openvpn error''))))
             | Started pid \<Rightarrow>
                 modify (ns_disk_update (write_text (v_os V) (OPENVPN_PID_PATH (v_os V)) pid))))"

definition read_openvpn_log_tail :: "os_env \<Rightarrow> disk \<Rightarrow> nat \<Rightarrow> string" where
  "read_openvpn_log_tail OS D max_lines =
     (case D (OPENVPN_LOG_PATH OS) of
        None \<Rightarrow> []
      | Some f \<Rightarrow> (let ls = splitlines (f_content f) in join [CHR 0x0A] (drop (length ls - max_lines) ls)))"

definition kill_openvpn_daemon :: "svc_env \<Rightarrow> (node_state, bool) prog" where
  "kill_openvpn_daemon V =
     (let path = OPENVPN_PID_PATH (v_os V);
          unlink = modify (ns_disk_update (\<lambda>D. D(path := None))) in
      bind (gets (\<lambda>s. ns_disk s path)) (\<lambda>f.
        case f of
          None \<Rightarrow> ret False
        | Some pf \<Rightarrow>
            (case py_int (strip (f_content pf)) of
               None \<Rightarrow> bind unlink (\<lambda>_. ret False)
             | Some pid \<Rightarrow>
                 bind (svc_ask (v_kill V) (SvKill pid)) (\<lambda>r.
                   case r of
                     KillDone \<Rightarrow> bind unlink (\<lambda>_. ret True)
                   | KillCaught \<Rightarrow> bind unlink (\<lambda>_. ret False)
                   | KillRaise e \<Rightarrow> raise e))))"

text \<open>\<^verbatim>\<open>_wait_for_tunnel\<close> with the deadline already computed; fuel bounds the polls followed.\<close>

definition TUNNEL_TIMEOUT :: rat where "TUNNEL_TIMEOUT = 30"
definition TUNNEL_POLL_INTERVAL :: rat where "TUNNEL_POLL_INTERVAL = 1"

definition tunnel_timed_out :: "svc_env \<Rightarrow> rat \<Rightarrow> (node_state, string) prog" where
  "tunnel_timed_out V timeout =
     bind (gets (\<lambda>s. read_openvpn_log_tail (v_os V) (ns_disk s) 20)) (\<lambda>detail.
     bind (kill_openvpn_daemon V) (\<lambda>_.
       raise (Coda (NodeError (''OpenVPN daemon started but no VPN tunnel interface appeared within ''
         @ v_show_secs V timeout @ ''s. Check firewall rules and VPN endpoint connectivity.''
         @ (if detail \<noteq> [] then [CHR 0x0A] @ ''OpenVPN log tail:'' @ [CHR 0x0A] @ detail else []))))))"

fun poll_tunnel :: "svc_env \<Rightarrow> nat \<Rightarrow> rat \<Rightarrow> rat \<Rightarrow> rat \<Rightarrow> string option \<Rightarrow> (node_state, string) prog" where
  "poll_tunnel V fuel deadline timeout interval hint =
     bind (gets (\<lambda>s. v_monotonic V (ns_log s))) (\<lambda>now.
       if now < deadline then
         (case fuel of
            0 \<Rightarrow> stuck
          | Suc fuel' \<Rightarrow>
              bind (detect_tunnel V hint) (\<lambda>iface.
                case iface of
                  Some i \<Rightarrow> ret i
                | None \<Rightarrow> bind (svc_sleep V interval) (\<lambda>_. poll_tunnel V fuel' deadline timeout interval hint)))
       else tunnel_timed_out V timeout)"

declare poll_tunnel.simps [simp del]

definition wait_for_tunnel :: "svc_env \<Rightarrow> nat \<Rightarrow> string option \<Rightarrow> rat \<Rightarrow> rat \<Rightarrow> (node_state, string) prog" where
  "wait_for_tunnel V fuel hint timeout interval =
     bind (gets (\<lambda>s. v_monotonic V (ns_log s) + timeout)) (\<lambda>deadline.
       poll_tunnel V fuel deadline timeout interval hint)"

definition start_and_wait :: "svc_env \<Rightarrow> nat \<Rightarrow> (node_state, unit) prog" where
  "start_and_wait V fuel =
     bind (gets (\<lambda>s. s_node_vpn_profile_path (ns_settings s))) (\<lambda>path.
     bind (start_openvpn V path) (\<lambda>_.
     bind (gets (\<lambda>s. s_vpn_interface_hint (ns_settings s))) (\<lambda>hint.
     bind (wait_for_tunnel V fuel hint TUNNEL_TIMEOUT TUNNEL_POLL_INTERVAL) (\<lambda>_. ret ()))))"

section \<open>Bundles\<close>

definition missing_key :: "string \<Rightarrow> exc" where
  "missing_key key = Coda (NodeError (''Node response missing valid '' @ [CHR 0x27] @ key @ [CHR 0x27]))"

definition as_str :: "dict \<Rightarrow> string \<Rightarrow> exc + string" where
  "as_str data key =
     (case map_of data key of
        Some (JStr v) \<Rightarrow> if v \<noteq> [] then Inr v else Inl (missing_key key)
      | _ \<Rightarrow> Inl (missing_key key))"

text \<open>\<^verbatim>\<open>bool\<close> is a subclass of \<^verbatim>\<open>int\<close>.\<close>

fun int_value :: "json \<Rightarrow> int option" where
  "int_value (JInt i) = Some i"
| "int_value (JBool b) = Some (if b then 1 else 0)"
| "int_value _ = None"

definition as_int :: "dict \<Rightarrow> string \<Rightarrow> int \<Rightarrow> exc + int" where
  "as_int data key dflt =
     (case map_of data key of
        None \<Rightarrow> Inr dflt
      | Some v \<Rightarrow> (case int_value v of
                    Some i \<Rightarrow> Inr i
                  | None \<Rightarrow> Inl (Coda (NodeError (''Node response has invalid '' @ [CHR 0x27] @ key @ [CHR 0x27])))))"

text \<open>A non-empty string under a key.\<close>

definition some_str :: "dict \<Rightarrow> string \<Rightarrow> string option" where
  "some_str d key = (case map_of d key of Some (JStr v) \<Rightarrow> if v \<noteq> [] then Some v else None | _ \<Rightarrow> None)"

text \<open>
  Assignment to a field of the settings.  With \<^verbatim>\<open>validate_assignment\<close> the whole model is validated
  again: \<^verbatim>\<open>merge_persisted_runtime_config\<close> runs on the fields as they are, so that without a node token the
  blank ones are filled from the persisted configuration; then the field is set; then the three
  validators run, whose own assignments go through the same steps.  A persisted value of another type
  than its field's does not occur and is left out.
\<close>

definition str_fields :: "(string \<times> (settings \<Rightarrow> string) \<times> (string \<Rightarrow> settings \<Rightarrow> settings)) list" where
  "str_fields =
     [(''qpu_id'', s_qpu_id, \<lambda>v. s_qpu_id_update (\<lambda>_. v)),
      (''qpu_display_name'', s_qpu_display_name, \<lambda>v. s_qpu_display_name_update (\<lambda>_. v)),
      (''native_gate_set'', s_native_gate_set, \<lambda>v. s_native_gate_set_update (\<lambda>_. v)),
      (''jwt_key_id'', s_jwt_key_id, \<lambda>v. s_jwt_key_id_update (\<lambda>_. v)),
      (''redis_url'', s_redis_url, \<lambda>v. s_redis_url_update (\<lambda>_. v)),
      (''webapp_url'', s_webapp_url, \<lambda>v. s_webapp_url_update (\<lambda>_. v)),
      (''connect_path'', s_connect_path, \<lambda>v. s_connect_path_update (\<lambda>_. v)),
      (''heartbeat_path'', s_heartbeat_path, \<lambda>v. s_heartbeat_path_update (\<lambda>_. v)),
      (''webhook_path'', s_webhook_path, \<lambda>v. s_webhook_path_update (\<lambda>_. v)),
      (''node_vpn_profile_path'', s_node_vpn_profile_path, \<lambda>v. s_node_vpn_profile_path_update (\<lambda>_. v)),
      (''node_machine_fingerprint'', s_node_machine_fingerprint, \<lambda>v. s_node_machine_fingerprint_update (\<lambda>_. v)),
      (''jwt_private_key'', s_jwt_private_key, \<lambda>v. s_jwt_private_key_update (\<lambda>_. v))]"

definition fill_blank :: "settings \<Rightarrow> string \<times> json \<Rightarrow> settings" where
  "fill_blank s kv =
     (case snd kv of
        JStr v \<Rightarrow>
          if fst kv = ''vpn_interface_hint''
          then (if s_vpn_interface_hint s \<in> {None, Some []} then s\<lparr>s_vpn_interface_hint := Some v\<rparr> else s)
          else (case map_of str_fields (fst kv) of
                  Some (get, upd) \<Rightarrow> if get s = [] then upd v s else s
                | None \<Rightarrow> s)
      | JNull \<Rightarrow>
          if fst kv = ''vpn_interface_hint'' \<and> s_vpn_interface_hint s = Some [] then s\<lparr>s_vpn_interface_hint := None\<rparr> else s
      | JList vs \<Rightarrow>
          if fst kv = ''vpn_probe_targets'' \<and> s_vpn_probe_targets s = []
          then s\<lparr>s_vpn_probe_targets := map (\<lambda>x. case x of JStr v \<Rightarrow> v | _ \<Rightarrow> []) vs\<rparr> else s
      | _ \<Rightarrow> s)"

definition merge_on_assignment :: "svc_env \<Rightarrow> disk \<Rightarrow> settings \<Rightarrow> exc + settings" where
  "merge_on_assignment V D s =
     (if s_node_token s \<noteq> [] then Inr s
      else sbind (load_persisted_runtime_config (v_os V) (v_loads V) (v_str_of V) D) (\<lambda>persisted.
             Inr (foldl fill_blank s persisted)))"

definition set_field :: "svc_env \<Rightarrow> (settings \<Rightarrow> settings) \<Rightarrow> (node_state, unit) prog" where
  "set_field V f =
     bind (gets (\<lambda>s. merge_on_assignment V (ns_disk s) (ns_settings s))) (\<lambda>r.
     bind (of_sum r) (\<lambda>st. modify (ns_settings_update (\<lambda>_. f st))))"

definition validate_credentials :: "(node_state, unit) prog" where
  "validate_credentials =
     bind (gets (\<lambda>s. check_jwt_or_node_token (ns_settings s))) (\<lambda>r. bind (of_sum r) (\<lambda>_. ret ()))"

text \<open>The assignment inside a validator validates again; there only the later validators can act.\<close>

definition validate_factory :: "svc_env \<Rightarrow> (node_state, unit) prog" where
  "validate_factory V =
     bind (gets (\<lambda>s. (ns_settings s, apply_device_config_executor_factory (ns_disk s) (ns_settings s)))) (\<lambda>(st, st').
       if s_executor_factory st' = s_executor_factory st then ret ()
       else bind (set_field V (s_executor_factory_update (\<lambda>_. s_executor_factory st'))) (\<lambda>_. validate_credentials))"

definition validate_device :: "svc_env \<Rightarrow> (node_state, unit) prog" where
  "validate_device V =
     bind (gets (\<lambda>s. (ns_settings s, apply_default_device_config (ns_disk s) (ns_settings s)))) (\<lambda>(st, st').
       if s_device_config st' = s_device_config st then ret ()
       else bind (set_field V (s_device_config_update (\<lambda>_. s_device_config st'))) (\<lambda>_.
            bind (validate_factory V) (\<lambda>_. validate_credentials)))"

definition assign :: "svc_env \<Rightarrow> (settings \<Rightarrow> settings) \<Rightarrow> (node_state, unit) prog" where
  "assign V f =
     bind (set_field V f) (\<lambda>_.
     bind (validate_device V) (\<lambda>_.
     bind (validate_factory V) (\<lambda>_. validate_credentials)))"

definition assign_if :: "svc_env \<Rightarrow> 'a option \<Rightarrow> ('a \<Rightarrow> settings \<Rightarrow> settings) \<Rightarrow> (node_state, unit) prog" where
  "assign_if V v f = (case v of None \<Rightarrow> ret () | Some x \<Rightarrow> assign V (f x))"

definition resolve_machine_fingerprint :: "svc_env \<Rightarrow> (node_state, string) prog" where
  "resolve_machine_fingerprint V =
     bind (gets (\<lambda>s. let f = s_node_machine_fingerprint (ns_settings s)
                     in if f \<noteq> [] then f else v_fingerprint V)) (\<lambda>f.
     bind (assign V (s_node_machine_fingerprint_update (\<lambda>_. f))) (\<lambda>_. ret f))"

section \<open>The connect request\<close>

definition connect_error :: "nat \<Rightarrow> string \<Rightarrow> exc" where
  "connect_error st text = Coda (NodeError (''Node request failed ('' @ show_nat st @ ''): '' @ take 400 text))"

text \<open>One attempt: a parsed body, or the exception that is retried.\<close>

definition connect_once :: "svc_env \<Rightarrow> string \<Rightarrow> dict \<Rightarrow> (node_state, exc + json) prog" where
  "connect_once V auth payload =
     bind (gets (\<lambda>s. dict_merge [(''Authorization'', auth)] (s_node_connect_headers (ns_settings s)))) (\<lambda>headers.
     bind (svc_ask (v_post V) (SvPost headers payload)) (\<lambda>r.
       case r of
         ConnectResponse st text body \<Rightarrow>
           if 200 \<le> st \<and> st < 300 then bind (of_sum body) (\<lambda>j. ret (Inr j))
           else if st < 500 then raise (connect_error st text)
           else ret (Inl (HTTPStatusErr st text))
       | ConnectRaise e \<Rightarrow> (case e of TransportErr _ \<Rightarrow> ret (Inl e) | _ \<Rightarrow> raise e)))"

fun connect_attempts ::
  "svc_env \<Rightarrow> string \<Rightarrow> dict \<Rightarrow> int \<Rightarrow> nat \<Rightarrow> nat \<Rightarrow> exc option \<Rightarrow> (node_state, json) prog" where
  "connect_attempts V auth payload max_retries k 0 last_exc =
     raise (Coda (NodeError (''Node connect failed after '' @ show_int max_retries @ '' attempts: ''
       @ (case last_exc of None \<Rightarrow> ''None'' | Some e \<Rightarrow> v_exc_str V e))))"
| "connect_attempts V auth payload max_retries k (Suc n) last_exc =
     bind (connect_once V auth payload) (\<lambda>r.
       case r of
         Inr j \<Rightarrow> ret j
       | Inl e \<Rightarrow>
           bind (if n \<noteq> 0 then svc_sleep V (2 ^ (k - 1)) else ret ()) (\<lambda>_.
             connect_attempts V auth payload max_retries (Suc k) n (Some e)))"

definition post_connect :: "svc_env \<Rightarrow> string \<Rightarrow> dict \<Rightarrow> int \<Rightarrow> (node_state, json) prog" where
  "post_connect V auth payload max_retries =
     connect_attempts V auth payload max_retries 1 (nat max_retries) None"

definition connectivity_payload_for_connect :: "svc_env \<Rightarrow> settings \<Rightarrow> exc + int list list option" where
  "connectivity_payload_for_connect V s =
     (case sbind (load_executor (v_py V) (s_executor_factory s)) (\<lambda>x.
             resolve_connectivity_from_device_spec (v_device V x)) of
        Inr c \<Rightarrow> Inr c
      | Inl e \<Rightarrow> if is_Exception e then Inr None else Inl e)"

definition connect_payload :: "string \<Rightarrow> int list list option \<Rightarrow> dict" where
  "connect_payload fingerprint connectivity =
     (''machine_fingerprint'', JStr fingerprint) #
     (case connectivity of
        None \<Rightarrow> []
      | Some edges \<Rightarrow> [(''connectivity'', JList (map (\<lambda>e. JList (map JInt e)) edges))])"

definition fetch_node_bundle :: "svc_env \<Rightarrow> int list list option \<Rightarrow> (node_state, json) prog" where
  "fetch_node_bundle V connectivity =
     bind (gets (\<lambda>s. s_node_token (ns_settings s))) (\<lambda>token.
       if token = [] then raise (Coda (NodeError ''node token is empty''))
       else
         bind (resolve_machine_fingerprint V) (\<lambda>f.
         bind (gets (\<lambda>s. s_node_connect_retries (ns_settings s))) (\<lambda>n.
           post_connect V (''Bearer '' @ token) (connect_payload f connectivity) n)))"

definition fetch_reconnect_bundle :: "svc_env \<Rightarrow> int list list option \<Rightarrow> (node_state, json) prog" where
  "fetch_reconnect_bundle V connectivity =
     bind (resolve_machine_fingerprint V) (\<lambda>f.
     bind (gets (\<lambda>s. sign_token (v_jwt V) (v_clock V (ns_log s)) (s_qpu_id (ns_settings s))
              (s_jwt_private_key (ns_settings s)) DEFAULT_ISSUER DEFAULT_TTL (Some (s_jwt_key_id (ns_settings s))))) (\<lambda>r.
     bind (of_sum r) (\<lambda>token.
     bind (gets (\<lambda>s. s_node_connect_retries (ns_settings s))) (\<lambda>n.
       post_connect V (''Bearer '' @ token) (connect_payload f connectivity) n))))"

section \<open>Applying a bundle\<close>

text \<open>\<^verbatim>\<open>bundle.get(a) or bundle.get(b) or ""\<close>.\<close>

definition display_name :: "dict \<Rightarrow> exc + string" where
  "display_name d =
     (let pick = (\<lambda>k. case map_of d k of Some v \<Rightarrow> if truthy v then Some v else None | None \<Rightarrow> None) in
      case (case pick ''qpu_display_name'' of Some v \<Rightarrow> Some v | None \<Rightarrow> pick ''qpu_label'') of
        None \<Rightarrow> Inr []
      | Some (JStr s) \<Rightarrow> Inr s
      | Some _ \<Rightarrow> Inl (ValueErr ''qpu_display_name''))"

text \<open>A credential: taken from the bundle, or required to be present already.\<close>

definition assign_credential ::
  "svc_env \<Rightarrow> dict \<Rightarrow> string \<Rightarrow> (settings \<Rightarrow> string) \<Rightarrow> (string \<Rightarrow> settings \<Rightarrow> settings) \<Rightarrow> (node_state, unit) prog" where
  "assign_credential V d key current upd =
     (case some_str d key of
        Some v \<Rightarrow> assign V (upd v)
      | None \<Rightarrow> bind (gets (\<lambda>s. current (ns_settings s))) (\<lambda>c.
          if c = [] then raise (missing_key key) else ret ()))"

definition apply_identity :: "svc_env \<Rightarrow> dict \<Rightarrow> (node_state, unit) prog" where
  "apply_identity V d =
     bind (of_sum (as_str d ''qpu_id'')) (\<lambda>v.
     bind (assign V (s_qpu_id_update (\<lambda>_. v))) (\<lambda>_.
     bind (of_sum (display_name d)) (\<lambda>v.
     bind (assign V (s_qpu_display_name_update (\<lambda>_. v))) (\<lambda>_.
     bind (of_sum (as_str d ''native_gate_set'')) (\<lambda>v.
     bind (assign V (s_native_gate_set_update (\<lambda>_. v))) (\<lambda>_.
     bind (gets (\<lambda>s. as_int d ''num_qubits'' (s_num_qubits (ns_settings s)))) (\<lambda>r.
     bind (of_sum r) (\<lambda>n. assign V (s_num_qubits_update (\<lambda>_. n))))))))))"

definition apply_endpoints :: "svc_env \<Rightarrow> dict \<Rightarrow> (node_state, unit) prog" where
  "apply_endpoints V d =
     bind (assign_credential V d ''jwt_private_key'' s_jwt_private_key (\<lambda>v. s_jwt_private_key_update (\<lambda>_. v))) (\<lambda>_.
     bind (assign_credential V d ''jwt_key_id'' s_jwt_key_id (\<lambda>v. s_jwt_key_id_update (\<lambda>_. v))) (\<lambda>_.
     bind (of_sum (as_str d ''redis_url'')) (\<lambda>v.
     bind (assign V (s_redis_url_update (\<lambda>_. v))) (\<lambda>_.
     bind (of_sum (as_str d (if map_of d ''webapp_url'' \<noteq> None then ''webapp_url'' else ''cloud_base_url''))) (\<lambda>v.
     bind (assign V (s_webapp_url_update (\<lambda>_. v))) (\<lambda>_.
     bind (assign_if V (some_str d ''connect_path'') (\<lambda>v. s_connect_path_update (\<lambda>_. v))) (\<lambda>_.
     bind (assign_if V (some_str d ''heartbeat_path'') (\<lambda>v. s_heartbeat_path_update (\<lambda>_. v))) (\<lambda>_.
       assign_if V (some_str d ''webhook_path'') (\<lambda>v. s_webhook_path_update (\<lambda>_. v))))))))))"

definition str_list :: "json \<Rightarrow> string list option" where
  "str_list v =
     (case v of
        JList xs \<Rightarrow>
          if list_all (\<lambda>x. case x of JStr _ \<Rightarrow> True | _ \<Rightarrow> False) xs \<and> xs \<noteq> []
          then Some (map (\<lambda>x. case x of JStr s \<Rightarrow> s | _ \<Rightarrow> []) xs) else None
      | _ \<Rightarrow> None)"

definition hint_value :: "dict \<Rightarrow> string option option" where
  "hint_value vpn =
     (case map_of vpn ''interface_hint'' of
        None \<Rightarrow> Some None | Some JNull \<Rightarrow> Some None | Some (JStr h) \<Rightarrow> Some (Some h) | Some _ \<Rightarrow> None)"

definition apply_vpn_settings :: "svc_env \<Rightarrow> dict \<Rightarrow> (node_state, unit) prog" where
  "apply_vpn_settings V vpn =
     bind (assign_if V (case map_of vpn ''required'' of Some (JBool b) \<Rightarrow> Some b | _ \<Rightarrow> None)
             (\<lambda>b. s_vpn_required_update (\<lambda>_. b))) (\<lambda>_.
     bind (assign_if V (hint_value vpn) (\<lambda>h. s_vpn_interface_hint_update (\<lambda>_. h))) (\<lambda>_.
     bind (assign_if V (Option.bind (map_of vpn ''check_interval_sec'') int_value)
             (\<lambda>i. s_vpn_check_interval_sec_update (\<lambda>_. i))) (\<lambda>_.
       assign_if V (Option.bind (map_of vpn ''probe_targets'') str_list) (\<lambda>ts. s_vpn_probe_targets_update (\<lambda>_. ts)))))"

text \<open>Writing the profile and bringing the tunnel up.\<close>

definition install_profile :: "svc_env \<Rightarrow> nat \<Rightarrow> string \<Rightarrow> (node_state, unit) prog" where
  "install_profile V fuel profile =
     bind (gets (\<lambda>s. write_vpn_profile (v_os V) (s_node_vpn_profile_path (ns_settings s)) profile (ns_disk s))) (\<lambda>r.
     bind (of_sum r) (\<lambda>D.
     bind (modify (ns_disk_update (\<lambda>_. D))) (\<lambda>_.
     bind (gets (\<lambda>s. s_vpn_interface_hint (ns_settings s))) (\<lambda>hint.
     bind (detect_tunnel V hint) (\<lambda>iface.
       case iface of Some _ \<Rightarrow> ret () | None \<Rightarrow> start_and_wait V fuel)))))"

definition apply_vpn :: "svc_env \<Rightarrow> nat \<Rightarrow> dict \<Rightarrow> (node_state, unit) prog" where
  "apply_vpn V fuel vpn =
     bind (apply_vpn_settings V vpn) (\<lambda>_.
     bind (gets (\<lambda>s. (s_vpn_required (ns_settings s), s_node_auto_vpn (ns_settings s)))) (\<lambda>(required, auto_vpn).
       case some_str vpn ''client_profile_ovpn'' of
         None \<Rightarrow>
           if required
           then raise (Coda (NodeError ''VPN is required but node response did not include a VPN profile. Check VPN infrastructure status in the coda admin panel.''))
           else ret ()
       | Some profile \<Rightarrow> if auto_vpn then install_profile V fuel profile else ret ()))"

definition apply_node_bundle :: "svc_env \<Rightarrow> nat \<Rightarrow> json \<Rightarrow> (node_state, unit) prog" where
  "apply_node_bundle V fuel bundle =
     (case bundle of
        JObj d \<Rightarrow>
          bind (apply_identity V d) (\<lambda>_.
          bind (apply_endpoints V d) (\<lambda>_.
            case map_of d ''vpn'' of Some (JObj vpn) \<Rightarrow> apply_vpn V fuel vpn | _ \<Rightarrow> ret ()))
      | _ \<Rightarrow> raise (OtherExc ''AttributeError''))"

section \<open>Connecting\<close>

definition ensure_persisted_vpn :: "svc_env \<Rightarrow> nat \<Rightarrow> (node_state, unit) prog" where
  "ensure_persisted_vpn V fuel =
     bind (gets (\<lambda>s. (ns_disk s, ns_settings s))) (\<lambda>(D, st).
       if D (PERSISTED_CONFIG_PATH (v_os V)) = None then ret ()
       else if \<not> s_node_auto_vpn st then ret ()
       else if D (s_node_vpn_profile_path st) = None then
         (if s_vpn_required st
          then raise (Coda (NodeError ''Persisted VPN profile not found. Re-run node provisioning with a new token.''))
          else ret ())
       else
         bind (detect_tunnel V (s_vpn_interface_hint st)) (\<lambda>iface.
           case iface of Some _ \<Rightarrow> ret () | None \<Rightarrow> start_and_wait V fuel))"

definition apply_and_persist :: "svc_env \<Rightarrow> nat \<Rightarrow> json \<Rightarrow> (node_state, unit) prog" where
  "apply_and_persist V fuel bundle =
     bind (apply_node_bundle V fuel bundle) (\<lambda>_.
     bind (gets ns_settings) (\<lambda>st.
       modify (ns_disk_update (persist_runtime_config (v_os V) (v_dumps V) st))))"

definition connect_settings :: "svc_env \<Rightarrow> nat \<Rightarrow> (node_state, unit) prog" where
  "connect_settings V fuel =
     bind (resolve_machine_fingerprint V) (\<lambda>_.
     bind (gets (\<lambda>s. connectivity_payload_for_connect V (ns_settings s))) (\<lambda>r.
     bind (of_sum r) (\<lambda>connectivity.
     bind (gets (\<lambda>s. s_node_token (ns_settings s))) (\<lambda>token.
     bind (if token \<noteq> [] then fetch_node_bundle V connectivity
           else bind (ensure_persisted_vpn V fuel) (\<lambda>_. fetch_reconnect_bundle V connectivity)) (\<lambda>bundle.
       catch (apply_and_persist V fuel bundle)
         (\<lambda>e. if is_Exception e
              then Some (bind (gets (\<lambda>s. s_node_token (ns_settings s))) (\<lambda>token'.
                     bind (if token' \<noteq> [] then bind (kill_openvpn_daemon V) (\<lambda>_. ret ()) else ret ()) (\<lambda>_.
                       raise e)))
              else None))))))"

section \<open>Sample environments\<close>

definition offline_net :: net where
  "offline_net = \<lparr>n_system = ''Linux'', n_cmd = (\<lambda>_. CmdCaught), n_loads = (\<lambda>_. Inl (ValueErr [])),
     n_resolves = (\<lambda>_ _. False), n_head = (\<lambda>_ _ _. Inl (TransportErr [])), n_latency_ms = (\<lambda>_. Finite 0), n_str = (\<lambda>_. [])\<rparr>"

definition bare_py :: "nat pyenv" where
  "bare_py = \<lparr>import_module = (\<lambda>_. Inr ()), get_attr = (\<lambda>_ _. Inl (OtherExc ''AttributeError'')), get_attr_opt = (\<lambda>_ _. None),
     has_run = (\<lambda>_. True), is_callable = (\<lambda>_. False), signature_params = (\<lambda>_. Inr 0), call_settings = Inr, call_plain = Inr,
     packages = None, find_spec = (\<lambda>_. SpecNone), noop_executor = 0\<rparr>"

definition sample_bundle :: dict where
  "sample_bundle =
     [(''qpu_id'', JStr ''q1''), (''native_gate_set'', JStr ''cz''), (''jwt_private_key'', JStr ''pem''),
      (''jwt_key_id'', JStr ''k1''), (''redis_url'', JStr ''redis://r''), (''webapp_url'', JStr ''https://c'')]"

text \<open>A cloud that answers every connect request alike, a clock that the sleeps move.\<close>

definition slept :: "svc_event list \<Rightarrow> rat" where
  "slept h = sum_list (map (\<lambda>ev. case ev of SvSleep d _ \<Rightarrow> max 0 d | _ \<Rightarrow> 0) h)"

definition sample_svc :: "connect_reply \<Rightarrow> svc_env" where
  "sample_svc reply = \<lparr>v_os = sample_os, v_post = (\<lambda>_. reply), v_sleep = (\<lambda>_. None), v_net = (\<lambda>_. offline_net),
     v_monotonic = slept, v_which = (\<lambda>_. None), v_start = (\<lambda>_. StartFailed []), v_kill = (\<lambda>_. KillDone),
     v_probe = (\<lambda>_ _. Inr False), v_spawn = (\<lambda>_. Inr 4242), v_serve = (\<lambda>_. None), v_executable = ''python'', v_clock = (\<lambda>_. 0),
     v_jwt = (\<lambda>_ _ _. Inr ''token''), v_py = bare_py, v_device = (\<lambda>_. None), v_fingerprint = ''host-1'',
     v_dumps = (\<lambda>_. ''{}''), v_loads = (\<lambda>_. Inr (JObj [])), v_str_of = (\<lambda>_. []), v_exc_str = (\<lambda>_. []),
     v_show_secs = (\<lambda>_. [])\<rparr>"

definition fresh_node :: node_state where
  "fresh_node = \<lparr>ns_settings = (default_settings sample_os)\<lparr>s_node_token := ''t''\<rparr>, ns_disk = (\<lambda>_. None), ns_log = []\<rparr>"

end
