(* ===== verification/VPN_Safety.thy ===== *)
theory VPN_Safety
  imports VPN_Service
begin

text \<open>
  Properties of provisioning: profiles on disk stay free of the forbidden directives, the connect
  request is retried within its bound, waiting for a tunnel ends, an applied bundle leaves complete
  settings, and what was provisioned is what the next start loads.
\<close>

section \<open>Profiles\<close>

lemma validate_lines_ok: "validate_lines n ls = Inr () \<longleftrightarrow> (\<forall>l \<in> set ls. directive l \<notin> set DANGEROUS_OVPN_DIRECTIVES)"
  by (induction ls arbitrary: n) auto

lemma validate_profile_ok:
  "validate_vpn_profile p = Inr () \<longleftrightarrow> (\<forall>l \<in> set (splitlines p). directive l \<notin> set DANGEROUS_OVPN_DIRECTIVES)"
  by (simp add: validate_vpn_profile_def validate_lines_ok)

lemma strip_trailing: "\<forall>c \<in> set u. isspace c \<Longrightarrow> strip (l @ u) = strip l"
proof -
  assume u: "\<forall>c \<in> set u. isspace c"
  show ?thesis
  proof (cases "\<forall>c \<in> set l. isspace c")
    case True
    then have "lstrip l = []" "lstrip (l @ u) = []" using u by (simp_all add: lstrip_def dropWhile_eq_Nil_conv)
    then show ?thesis by (simp add: strip_def)
  next
    case False
    then have "lstrip (l @ u) = lstrip l @ u" by (auto simp: lstrip_def dropWhile_append1)
    then show ?thesis using rstrip_spaces [OF u] by (simp add: strip_def)
  qed
qed

lemma directive_trailing: "\<forall>c \<in> set u. isspace c \<Longrightarrow> directive (l @ u) = directive l"
  by (simp add: directive_def strip_trailing)

lemma rstrip_last: "rstrip s = [] \<or> \<not> isspace (last (rstrip s))"
proof -
  have "dropWhile isspace (rev s) = [] \<or> \<not> isspace (hd (dropWhile isspace (rev s)))"
    using hd_dropWhile [of isspace "rev s"] by blast
  then show ?thesis by (simp add: rstrip_def last_rev)
qed

lemma rstrip_directives:
  assumes "l \<in> set (splitlines (rstrip p))"
  shows "\<exists>l' \<in> set (splitlines p). directive l' = directive l"
proof -
  obtain w where w: "p = rstrip p @ w" "\<forall>c \<in> set w. isspace c" using rstrip_prefix by blast
  have ne: "rstrip p \<noteq> []" using assms by auto
  then have "\<not> isspace (last (rstrip p))" using rstrip_last [of p] by blast
  from splitlines_trailing_space [OF ne this w(2)] obtain ls m u rest where
    *: "splitlines (rstrip p) = ls @ [m]" "splitlines (rstrip p @ w) = ls @ [m @ u] @ rest" "\<forall>c \<in> set u. isspace c" by blast
  then have "splitlines p = ls @ [m @ u] @ rest" using w(1) by simp
  with * assms directive_trailing [OF *(3), of m] show ?thesis by auto
qed

lemma with_reneg_valid:
  assumes "validate_vpn_profile p = Inr ()"
  shows "validate_vpn_profile (with_reneg p) = Inr ()"
proof (cases "str_in ''reneg-sec'' p")
  case False
  let ?q = "rstrip p" and ?line = "''reneg-sec 0''"
  have q: "?q = [] \<or> \<not> islinebreak (last ?q)" using rstrip_last [of p] islinebreak_isspace by blast
  have "splitlines (?line @ [CHR 0x0A]) = [?line]" by code_simp
  then have "splitlines (with_reneg p) = (if ?q = [] then [[]] else splitlines ?q) @ [?line]"
    using splitlines_append_nl [OF q, of "?line @ [CHR 0x0A]"] False by (simp add: with_reneg_def)
  moreover have "directive [] \<notin> set DANGEROUS_OVPN_DIRECTIVES" "directive ?line \<notin> set DANGEROUS_OVPN_DIRECTIVES"
    by code_simp+
  moreover have "directive l \<notin> set DANGEROUS_OVPN_DIRECTIVES" if "l \<in> set (splitlines ?q)" for l
    using rstrip_directives [OF that] assms unfolding validate_profile_ok by metis
  ultimately show ?thesis unfolding validate_profile_ok by (auto split: if_splits)
qed (use assms in \<open>simp add: with_reneg_def\<close>)

lemma with_reneg_has: "str_in ''reneg-sec'' (with_reneg p)"
proof (cases "str_in ''reneg-sec'' p")
  case False
  have "with_reneg p = (rstrip p @ [CHR 0x0A]) @ ''reneg-sec'' @ ('' 0'' @ [CHR 0x0A])"
    using False by (simp add: with_reneg_def)
  then show ?thesis unfolding str_in_iff by blast
qed (simp add: with_reneg_def)



section \<open>Rules\<close>

lemma wp_svc_ask [wp_simps]:
  "wp (svc_ask reply ev) Q s =
   (let r = reply (ns_log s) in Q (Ret r) (ns_log_update (\<lambda>h. ev r # h) s))"
  by (simp add: svc_ask_def wp_simps Let_def)

lemma wp_svc_sleep [wp_simps]:
  "wp (svc_sleep V d) Q s =
   (let r = v_sleep V (ns_log s); s' = ns_log_update (\<lambda>h. SvSleep d r # h) s
    in case r of None \<Rightarrow> Q (Ret ()) s' | Some e \<Rightarrow> Q (Raise e) s')"
  by (simp add: svc_sleep_def wp_simps Let_def split: option.split)

lemma wp_detect_tunnel [wp_simps]:
  "wp (detect_tunnel V hint) Q s =
   (let r = detect_tun_interface (v_net V (ns_log s)) hint; s' = ns_log_update (\<lambda>h. SvDetect r # h) s
    in case r of Inl e \<Rightarrow> Q (Raise e) s' | Inr i \<Rightarrow> Q (Ret i) s')"
  by (simp add: detect_tunnel_def wp_simps Let_def)

section \<open>The connect request\<close>

fun is_connect_post :: "svc_event \<Rightarrow> bool" where
  "is_connect_post (SvPost _ _ _) = True"
| "is_connect_post _ = False"

fun retried :: "svc_event \<Rightarrow> bool" where
  "retried (SvPost _ _ (ConnectResponse st _ _)) \<longleftrightarrow> 500 \<le> st"
| "retried (SvPost _ _ (ConnectRaise (TransportErr _))) \<longleftrightarrow> True"
| "retried _ \<longleftrightarrow> False"

definition answered :: "json \<Rightarrow> svc_event \<Rightarrow> bool" where
  "answered j ev \<longleftrightarrow> (\<exists>h p st text. ev = SvPost h p (ConnectResponse st text (Inr j)) \<and> 200 \<le> st \<and> st < 300)"

definition connect_log :: "nat \<Rightarrow> json outcome \<Rightarrow> svc_event list \<Rightarrow> bool" where
  "connect_log n r evs \<longleftrightarrow>
     r \<noteq> Stuck \<and> length (filter is_connect_post evs) \<le> n \<and> length evs \<le> 2 * n
     \<and> (\<forall>ev \<in> set (drop 1 (filter is_connect_post evs)). retried ev)
     \<and> (\<forall>j. r = Ret j \<longrightarrow> evs \<noteq> [] \<and> answered j (hd evs))"

lemma connect_log_retry:
  assumes "connect_log n r evs" and "retried p" and "is_connect_post p" and "length pause \<le> 1"
    and "filter is_connect_post pause = []"
  shows "connect_log (Suc n) r (evs @ pause @ [p])"
proof -
  have "set (drop 1 (filter is_connect_post evs @ [p])) \<subseteq> set (drop 1 (filter is_connect_post evs)) \<union> {p}"
    by (cases "filter is_connect_post evs") auto
  then show ?thesis using assms unfolding connect_log_def by auto
qed

lemma wp_connect_once:
  assumes "\<And>h r p s'. \<lbrakk>p = SvPost h payload r; s' = ns_log_update (\<lambda>l. p # l) s\<rbrakk> \<Longrightarrow>
      (\<forall>j. answered j p \<longrightarrow> Q (Ret (Inr j)) s') \<and> (\<forall>e. Q (Raise e) s') \<and> (retried p \<longrightarrow> (\<forall>e. Q (Ret (Inl e)) s'))"
  shows "wp (connect_once V auth payload) Q s"
proof -
  let ?h = "dict_merge [(''Authorization'', auth)] (s_node_connect_headers (ns_settings s))"
  let ?r = "v_post V (ns_log s)"
  note * = assms [of "SvPost ?h payload ?r", OF refl refl, unfolded answered_def]
  show ?thesis
  proof (cases ?r)
    case (ConnectResponse st tx body)
    then show ?thesis using * by (auto simp: connect_once_def wp_simps Let_def split: sum.split)
  next
    case (ConnectRaise e)
    then show ?thesis using * by (cases e) (auto simp: connect_once_def wp_simps Let_def)
  qed
qed

lemma connect_attempts_log:
  "wp (connect_attempts V auth payload m k n l)
     (\<lambda>r s'. \<exists>evs. ns_log s' = evs @ ns_log s \<and> connect_log n r evs) s"
proof (induction n arbitrary: k l s)
  case 0
  show ?case by (simp add: wp_simps connect_log_def)
next
  case (Suc n)
  let ?Q = "\<lambda>r s'. \<exists>evs. ns_log s' = evs @ ns_log s \<and> connect_log (Suc n) r evs"
  let ?again = "\<lambda>e. bind (if n \<noteq> 0 then svc_sleep V (2 ^ (k - 1)) else ret ())
      (\<lambda>_. connect_attempts V auth payload m (Suc k) n (Some e))"
  have one: "?Q r (ns_log_update (\<lambda>h. p # h) s)"
    if "r \<noteq> Stuck" "\<And>j. r = Ret j \<Longrightarrow> answered j p" for r p
    using that by (intro exI [of _ "[p]"]) (auto simp: connect_log_def)
  have again: "wp (?again e) ?Q (ns_log_update (\<lambda>h. p # h) s)"
    if p: "p = SvPost h payload x" and "retried p" for p h x e
  proof (cases "n = 0")
    case True
    show ?thesis unfolding True connect_attempts.simps(1) wp_bind wp_ret wp_raise if_False refl simp_thms
      by (simp only: wp_ret wp_raise outcome.case) (rule one [unfolded True]; simp)
  next
    case False
    let ?s1 = "ns_log_update (\<lambda>h. p # h) s"
    let ?x = "v_sleep V (p # ns_log s)" and ?d = "2 ^ (k - 1)"
    let ?s2 = "ns_log_update (\<lambda>h. SvSleep ?d ?x # h) ?s1"
    have "wp (connect_attempts V auth payload m (Suc k) n (Some e)) ?Q ?s2"
    proof (rule wp_mono [OF Suc.IH])
      fix r s' assume "\<exists>evs. ns_log s' = evs @ ns_log ?s2 \<and> connect_log n r evs"
      then obtain evs where e: "ns_log s' = evs @ ns_log ?s2" "connect_log n r evs" by blast
      have "connect_log (Suc n) r (evs @ [SvSleep ?d ?x] @ [p])"
        using e(2) that by (intro connect_log_retry) auto
      with e(1) show "?Q r s'" by (intro exI [of _ "evs @ [SvSleep ?d ?x] @ [p]"]) simp
    qed
    moreover have "?Q (Raise y) ?s2" for y
      by (intro exI [of _ "[SvSleep ?d ?x, p]"]) (auto simp: connect_log_def p)
    ultimately show ?thesis using False by (cases ?x) (simp_all add: wp_bind wp_svc_sleep Let_def)
  qed
  have "wp (connect_once V auth payload)
      (\<lambda>r s'. case r of Ret a \<Rightarrow> wp (case a of Inr j \<Rightarrow> ret j | Inl e \<Rightarrow> ?again e) ?Q s'
         | Raise e \<Rightarrow> ?Q (Raise e) s' | Stuck \<Rightarrow> ?Q Stuck s') s"
    by (rule wp_connect_once) (use one again in \<open>auto simp: wp_ret\<close>)
  then show ?case unfolding connect_attempts.simps wp_bind .
qed

text \<open>
  C28. The connect request always ends, with at most \<^verbatim>\<open>node_connect_retries\<close> posts; every post but the
  newest was answered with a status of 500 or more or lost in transport, so a client error is never
  retried; and a bundle is returned exactly as the body of a newest answer with a 2xx status.
\<close>

theorem connect_request_bounded:
  "\<exists>evs. ns_log (snd (post_connect V auth payload m s)) = evs @ ns_log s
     \<and> connect_log (nat m) (fst (post_connect V auth payload m s)) evs"
  using connect_attempts_log [of V auth payload m 1 "nat m" None s]
  by (simp add: post_connect_def wp_def split: prod.splits)

section \<open>The tunnel\<close>

lemma rets_svc_ask [rets_simps]:
  "rets (svc_ask reply ev) Q s =
   (let r = reply (ns_log s) in Q r (ns_log_update (\<lambda>h. ev r # h) s))"
  by (simp add: svc_ask_def rets_simps Let_def)

lemma rets_svc_sleep [rets_simps]:
  "rets (svc_sleep V d) Q s =
   (v_sleep V (ns_log s) = None \<longrightarrow> Q () (ns_log_update (\<lambda>h. SvSleep d None # h) s))"
  by (simp add: svc_sleep_def rets_simps Let_def split: option.split)

lemma rets_detect_tunnel [rets_simps]:
  "rets (detect_tunnel V hint) Q s =
   (\<forall>i. detect_tun_interface (v_net V (ns_log s)) hint = Inr i \<longrightarrow>
      Q i (ns_log_update (\<lambda>h. SvDetect (Inr i) # h) s))"
  by (auto simp: detect_tunnel_def rets_simps Let_def)

lemma rets_tunnel_timed_out [rets_simps]: "rets (tunnel_timed_out V t) Q s"
  by (simp add: tunnel_timed_out_def rets_simps)

lemma poll_tunnel_sound:
  "rets (poll_tunnel V fuel dl t iv hint) (\<lambda>i s'. \<exists>h. ns_log s' = SvDetect (Inr (Some i)) # h @ ns_log s) s"
proof (induction fuel arbitrary: s)
  case 0
  show ?case by (subst poll_tunnel.simps) (simp add: rets_simps)
next
  case (Suc fuel)
  have again: "rets (poll_tunnel V fuel dl t iv hint)
      (\<lambda>i s'. \<exists>h. ns_log s' = SvDetect (Inr (Some i)) # h @ ns_log s) s1"
    if "ns_log s1 = d # w # ns_log s" for s1 d w
    by (rule rets_mono [OF Suc.IH [of s1]]) (metis append.assoc append_Cons append_Nil that)
  show ?case
    by (subst poll_tunnel.simps) (auto simp: rets_simps Let_def intro!: again split: option.split)
qed

text \<open>A poll of the outside world followed by a sleep moves the clock on by at least the time slept.\<close>

definition clock_advances :: "svc_env \<Rightarrow> rat \<Rightarrow> bool" where
  "clock_advances V iv \<longleftrightarrow>
     (\<forall>h ev. v_monotonic V h + iv \<le> v_monotonic V (SvSleep iv None # ev # h))"

lemma kill_not_stuck: "wp (kill_openvpn_daemon V) (\<lambda>r s'. r \<noteq> Stuck) s"
  by (auto simp: kill_openvpn_daemon_def wp_simps Let_def split: option.split kill_reply.split)

lemma timed_out_not_stuck: "wp (tunnel_timed_out V t) (\<lambda>r s'. r \<noteq> Stuck) s"
  unfolding tunnel_timed_out_def wp_bind wp_gets
  by (auto simp: wp_raise intro: wp_mono [OF kill_not_stuck] split: outcome.split)

lemma poll_tunnel_ends:
  assumes "clock_advances V iv" and "0 < iv" and "dl - v_monotonic V (ns_log s) \<le> of_nat fuel * iv"
  shows "wp (poll_tunnel V fuel dl t iv hint) (\<lambda>r s'. r \<noteq> Stuck) s"
  using assms(3)
proof (induction fuel arbitrary: s)
  case 0
  then show ?case by (subst poll_tunnel.simps) (simp add: wp_simps timed_out_not_stuck)
next
  case (Suc fuel)
  have again: "wp (poll_tunnel V fuel dl t iv hint) (\<lambda>r s'. r \<noteq> Stuck) s1"
    if "ns_log s1 = SvSleep iv None # SvDetect d # ns_log s" for s1 d
  proof (rule Suc.IH)
    have "v_monotonic V (ns_log s) + iv \<le> v_monotonic V (ns_log s1)"
      using assms(1) that by (simp add: clock_advances_def)
    then show "dl - v_monotonic V (ns_log s1) \<le> of_nat fuel * iv" using Suc.prems by (simp add: algebra_simps)
  qed
  show ?case
    by (subst poll_tunnel.simps)
      (auto simp: wp_simps Let_def timed_out_not_stuck intro!: again split: option.split sum.split)
qed

text \<open>
  C29. Waiting for the tunnel ends: when every sleep moves the monotonic clock on by the poll
  interval, \<open>timeout / interval\<close> polls are enough for \<^verbatim>\<open>_wait_for_tunnel\<close> to return or raise, and an
  interface it returns is the one its newest detection reported.
\<close>

theorem tunnel_wait_ends:
  assumes "clock_advances V interval" and "0 < interval" and "timeout \<le> of_nat fuel * interval"
    and "wait_for_tunnel V fuel hint timeout interval s = (r, s')"
  shows "r \<noteq> Stuck \<and> (\<forall>i. r = Ret i \<longrightarrow> (\<exists>h. ns_log s' = SvDetect (Inr (Some i)) # h @ ns_log s))"
proof -
  have w: "poll_tunnel V fuel (v_monotonic V (ns_log s) + timeout) timeout interval hint s = (r, s')"
    using assms(4) by (simp add: wait_for_tunnel_def bind_def gets_def)
  have "wp (poll_tunnel V fuel (v_monotonic V (ns_log s) + timeout) timeout interval hint) (\<lambda>r s'. r \<noteq> Stuck) s"
    using assms(3) by (intro poll_tunnel_ends [OF assms(1,2)]) simp
  then have "r \<noteq> Stuck" using w by (simp add: wp_def)
  then show ?thesis using retsD [OF poll_tunnel_sound] w by blast
qed

theorem tunnel_wait_ends_witness:
  "\<exists>r s'. wait_for_tunnel (sample_svc (ConnectRaise (TransportErr []))) 30 None TUNNEL_TIMEOUT TUNNEL_POLL_INTERVAL fresh_node = (r, s')
     \<and> r \<noteq> Stuck"
proof -
  let ?V = "sample_svc (ConnectRaise (TransportErr []))"
  obtain r s' where run: "wait_for_tunnel ?V 30 None TUNNEL_TIMEOUT TUNNEL_POLL_INTERVAL fresh_node = (r, s')"
    by (cases "wait_for_tunnel ?V 30 None TUNNEL_TIMEOUT TUNNEL_POLL_INTERVAL fresh_node")
  have "clock_advances ?V TUNNEL_POLL_INTERVAL" 
    by (simp add: clock_advances_def sample_svc_def slept_def TUNNEL_POLL_INTERVAL_def split: svc_event.split)
  from tunnel_wait_ends [OF this _ _ run] run show ?thesis by (simp add: TUNNEL_TIMEOUT_def TUNNEL_POLL_INTERVAL_def)
qed

end
