(* ===== verification/Provision_Safety.thy ===== *)
theory Provision_Safety
  imports VPN_Safety
begin

text \<open>
  Properties of provisioning as a whole: what a bundle leaves in the settings, what the re-validation
  of an assignment may change, and that the provisioned node starts again from its own disk.
\<close>

section \<open>What the VPN operations leave alone\<close>

text \<open>
  The operations on the tunnel only write to the log and the disk: any preorder that allows both
  contains them.
\<close>

locale svc_order = step_order le for le :: "node_state \<Rightarrow> node_state \<Rightarrow> bool" +
  assumes le_log: "le s (ns_log_update (\<lambda>h. ev # h) s)" and le_disk: "le s (ns_disk_update g s)"
begin

lemma stays_log [stays_rules]: "stays le (modify (ns_log_update (\<lambda>h. ev # h)))"
  by (rule stays_modify) (rule le_log)

lemma stays_disk [stays_rules]: "stays le (modify (ns_disk_update g))"
  by (rule stays_modify) (rule le_disk)

lemma stays_svc_ask [stays_rules]: "stays le (svc_ask r ev)"
  unfolding svc_ask_def by (intro stays_rules)

lemma stays_svc_sleep [stays_rules]: "stays le (svc_sleep V d)"
  unfolding svc_sleep_def by (intro stays_rules)

lemma stays_detect [stays_rules]: "stays le (detect_tunnel V h)"
  unfolding detect_tunnel_def by (intro stays_rules)

lemma stays_start_openvpn [stays_rules]: "stays le (start_openvpn V p)"
  unfolding start_openvpn_def by (intro stays_rules) (auto split: start_reply.split intro!: stays_rules)

lemma stays_kill [stays_rules]: "stays le (kill_openvpn_daemon V)"
  unfolding kill_openvpn_daemon_def Let_def
  by (intro stays_rules) (auto split: kill_reply.split intro!: stays_rules)

lemma stays_timed_out [stays_rules]: "stays le (tunnel_timed_out V t)"
  unfolding tunnel_timed_out_def by (intro stays_rules)

lemma stays_poll [stays_rules]: "stays le (poll_tunnel V fuel dl t iv h)"
proof (induction fuel)
  case 0
  show ?case by (subst poll_tunnel.simps) (auto intro!: stays_rules)
next
  case (Suc fuel)
  show ?case by (subst poll_tunnel.simps) (auto intro!: stays_rules Suc)
qed

lemma stays_start_and_wait [stays_rules]: "stays le (start_and_wait V fuel)"
  unfolding start_and_wait_def wait_for_tunnel_def by (intro stays_rules)

lemma stays_install [stays_rules]: "stays le (install_profile V fuel p)"
  unfolding install_profile_def by (intro stays_rules)

lemma stays_ensure [stays_rules]: "stays le (ensure_persisted_vpn V fuel)"
  unfolding ensure_persisted_vpn_def by (intro stays_rules)

end

interpretation same_settings: svc_order "\<lambda>s s'. ns_settings s' = ns_settings s"
  by unfold_locales auto

definition log_grows :: "node_state \<Rightarrow> node_state \<Rightarrow> bool" where
  "log_grows s s' \<longleftrightarrow> (\<exists>h. ns_log s' = h @ ns_log s)"

interpretation growing_log: svc_order log_grows
proof
  show "log_grows s s" for s by (simp add: log_grows_def)
  show "log_grows s s''" if "log_grows s s'" "log_grows s' s''" for s s' s''
    using that unfolding log_grows_def by (metis append.assoc)
  show "log_grows s (ns_log_update (\<lambda>h. ev # h) s)" for s ev
    by (auto simp: log_grows_def intro: exI [of _ "[ev]"])
  show "log_grows s (ns_disk_update g s)" for s g by (simp add: log_grows_def)
qed

section \<open>Assignment\<close>

text \<open>
  A condition on the settings is \<open>stable\<close> when filling blank fields from the persisted configuration
  and the two device fields leave it true: exactly what validation may do behind an assignment.
\<close>

definition stable :: "(settings \<Rightarrow> bool) \<Rightarrow> bool" where
  "stable P \<longleftrightarrow> (\<forall>s. P s \<longrightarrow>
     (\<forall>kv. P (fill_blank s kv)) \<and> (\<forall>v. P (s\<lparr>s_executor_factory := v\<rparr>)) \<and> (\<forall>v. P (s\<lparr>s_device_config := v\<rparr>)))"

lemma stable_conj [intro]: "stable P \<Longrightarrow> stable Q \<Longrightarrow> stable (\<lambda>s. P s \<and> Q s)"
  by (auto simp: stable_def)

lemma stable_True [intro]: "stable (\<lambda>_. True)"
  by (simp add: stable_def)

lemma stable_imp [intro]: "(b \<Longrightarrow> stable P) \<Longrightarrow> stable (\<lambda>s. b \<longrightarrow> P s)"
  by (auto simp: stable_def)

lemma fill_blank_cases:
  "fill_blank s kv = s
   \<or> (\<exists>get upd v k. (k, get, upd) \<in> set str_fields \<and> get s = [] \<and> fill_blank s kv = upd v s)
   \<or> (\<exists>h. fill_blank s kv = s\<lparr>s_vpn_interface_hint := h\<rparr>)
   \<or> (\<exists>ts. fill_blank s kv = s\<lparr>s_vpn_probe_targets := ts\<rparr>)"
proof (cases "snd kv")
  case (JStr v)
  show ?thesis
  proof (cases "map_of str_fields (fst kv)")
    case (Some gu)
    then have "(fst kv, fst gu, snd gu) \<in> set str_fields" by (auto dest: map_of_SomeD)
    then show ?thesis using Some JStr by (cases gu) (auto simp: fill_blank_def)
  qed (use JStr in \<open>auto simp: fill_blank_def\<close>)
qed (auto simp: fill_blank_def)

text \<open>A field of the persisted configuration that is not blank keeps its value.\<close>

lemma stable_field:
  assumes "\<And>s k get upd v. (k, get, upd) \<in> set str_fields \<Longrightarrow> get s = [] \<Longrightarrow> g s \<noteq> [] \<Longrightarrow> g (upd v s) = g s"
    and "\<And>s h. g (s\<lparr>s_vpn_interface_hint := h\<rparr>) = g s" and "\<And>s ts. g (s\<lparr>s_vpn_probe_targets := ts\<rparr>) = g s"
    and "\<And>s v. g (s\<lparr>s_executor_factory := v\<rparr>) = g s" and "\<And>s v. g (s\<lparr>s_device_config := v\<rparr>) = g s"
    and "\<And>v. R v \<Longrightarrow> v \<noteq> []"
  shows "stable (\<lambda>s. R (g s))"
proof -
  have "g (fill_blank s kv) = g s" if "g s \<noteq> []" for s kv
    using fill_blank_cases [of s kv] assms(1) [OF _ _ that] assms(2,3) by metis
  then show ?thesis using assms(6) by (simp add: stable_def assms(4,5))
qed

lemma stable_fields [intro]:
  assumes "\<And>v. R v \<Longrightarrow> v \<noteq> []"
  shows "stable (\<lambda>s. R (s_qpu_id s))" "stable (\<lambda>s. R (s_native_gate_set s))" "stable (\<lambda>s. R (s_redis_url s))"
    "stable (\<lambda>s. R (s_webapp_url s))" "stable (\<lambda>s. R (s_jwt_private_key s))" "stable (\<lambda>s. R (s_jwt_key_id s))"
  by (rule stable_field [where R = R]; use assms in \<open>auto simp: str_fields_def\<close>)+

lemma stable_merge:
  assumes "stable P" "P s" "merge_on_assignment V D s = Inr s'"
  shows "P s'"
proof -
  have "P (foldl fill_blank s p)" if "P s" for p s
    using that by (induction p arbitrary: s) (use assms(1) in \<open>auto simp: stable_def\<close>)
  then show ?thesis using assms(2,3) by (auto simp: merge_on_assignment_def sbind_eq_Inr split: if_splits)
qed

lemma rets_set_field:
  assumes "stable P" "P (ns_settings s)" "\<And>st. P st \<Longrightarrow> Q (f st)"
  shows "rets (set_field V f) (\<lambda>_ s'. Q (ns_settings s') \<and> ns_disk s' = ns_disk s \<and> ns_log s' = ns_log s) s"
  using assms by (auto simp: set_field_def rets_simps dest: stable_merge)

lemma rets_credentials: "Q () s \<Longrightarrow> rets validate_credentials Q s"
  by (simp add: validate_credentials_def rets_simps)

lemma rets_factory:
  assumes "stable P" "P (ns_settings s)"
  shows "rets (validate_factory V) (\<lambda>_ s'. P (ns_settings s') \<and> ns_disk s' = ns_disk s \<and> ns_log s' = ns_log s) s"
  using assms unfolding validate_factory_def
  by (auto simp: rets_simps stable_def intro!: rets_credentials rets_mono [OF rets_set_field [where P = P and Q = P]])

lemma rets_device:
  assumes "stable P" "P (ns_settings s)"
  shows "rets (validate_device V) (\<lambda>_ s'. P (ns_settings s') \<and> ns_disk s' = ns_disk s \<and> ns_log s' = ns_log s) s"
  using assms unfolding validate_device_def
  by (auto simp: rets_simps stable_def intro!: rets_credentials rets_mono [OF rets_set_field [where P = P and Q = P]]
      rets_mono [OF rets_factory [where P = P]])

lemma rets_assign:
  assumes "stable P" "P (ns_settings s)" "stable Q" "\<And>st. P st \<Longrightarrow> Q (f st)"
    and "\<And>s'. Q (ns_settings s') \<Longrightarrow> ns_disk s' = ns_disk s \<Longrightarrow> ns_log s' = ns_log s \<Longrightarrow> R () s'"
  shows "rets (assign V f) R s"
  unfolding assign_def rets_bind
  by (rule rets_mono [OF rets_set_field [where P = P and Q = Q and f = f and s = s, OF assms(1,2,4)]], assumption)
    (auto intro!: rets_credentials assms(5) rets_mono [OF rets_device [OF assms(3)]] rets_mono [OF rets_factory [OF assms(3)]])

section \<open>Bundles\<close>

lemma as_str_nonempty: "as_str d k = Inr v \<Longrightarrow> v \<noteq> []"
  by (auto simp: as_str_def split: option.splits json.splits if_splits)

lemma some_str_nonempty: "some_str d k = Some v \<Longrightarrow> v \<noteq> []"
  by (auto simp: some_str_def split: option.splits json.splits if_splits)

text \<open>A credential after a bundle: the bundle's if it has one, and in any case present.\<close>

definition credential :: "dict \<Rightarrow> string \<Rightarrow> string \<Rightarrow> bool" where
  "credential d k v \<longleftrightarrow> v \<noteq> [] \<and> (some_str d k = None \<or> some_str d k = Some v)"

definition webapp_key :: "dict \<Rightarrow> string" where
  "webapp_key d = (if map_of d ''webapp_url'' \<noteq> None then ''webapp_url'' else ''cloud_base_url'')"

definition bundle_identity :: "dict \<Rightarrow> settings \<Rightarrow> bool" where
  "bundle_identity d st \<longleftrightarrow>
     as_str d ''qpu_id'' = Inr (s_qpu_id st) \<and> as_str d ''native_gate_set'' = Inr (s_native_gate_set st)"

definition bundle_endpoints :: "dict \<Rightarrow> settings \<Rightarrow> bool" where
  "bundle_endpoints d st \<longleftrightarrow>
     credential d ''jwt_private_key'' (s_jwt_private_key st) \<and> credential d ''jwt_key_id'' (s_jwt_key_id st)
     \<and> as_str d ''redis_url'' = Inr (s_redis_url st) \<and> as_str d (webapp_key d) = Inr (s_webapp_url st)"

lemmas stable_bundle = as_str_nonempty credential_def

lemma stable_identity: "stable (bundle_identity d)"
  unfolding bundle_identity_def by (intro stable_conj stable_fields) (auto dest: as_str_nonempty)

lemma stable_endpoints: "stable (bundle_endpoints d)"
  unfolding bundle_endpoints_def
  by (intro stable_conj stable_fields) (auto dest: as_str_nonempty simp: credential_def)

subsection \<open>Triples on the settings\<close>

definition triple :: "(settings \<Rightarrow> bool) \<Rightarrow> (node_state, 'a) prog \<Rightarrow> (settings \<Rightarrow> bool) \<Rightarrow> bool" where
  "triple P m Q \<longleftrightarrow> (\<forall>s. P (ns_settings s) \<longrightarrow> rets m (\<lambda>_ s'. Q (ns_settings s')) s)"

definition step_ok :: "(settings \<Rightarrow> bool) \<Rightarrow> (settings \<Rightarrow> settings) \<Rightarrow> (settings \<Rightarrow> bool) \<Rightarrow> bool" where
  "step_ok P f Q \<longleftrightarrow> stable P \<and> stable Q \<and> (\<forall>st. P st \<longrightarrow> Q (f st))"

lemmas step_okI = step_ok_def [THEN iffD2, OF conjI, OF _ conjI, OF _ _ allI, OF _ _ impI]

lemma triple_seq: "triple P m Q \<Longrightarrow> (\<And>a. triple Q (n a) R) \<Longrightarrow> triple P (bind m n) R"
  unfolding triple_def rets_bind by (blast intro: rets_mono)

lemma triple_gets: "(\<And>a. triple P (n a) R) \<Longrightarrow> triple P (bind (gets g) n) R"
  by (simp add: triple_def rets_simps)

lemma triple_sum: "(\<And>a. r = Inr a \<Longrightarrow> triple P (n a) R) \<Longrightarrow> triple P (bind (of_sum r) n) R"
  by (simp add: triple_def rets_simps)

lemma triple_assign: "step_ok P f Q \<Longrightarrow> triple P (assign V f) Q"
  unfolding triple_def step_ok_def by (auto intro: rets_assign [where P = P and Q = Q])

lemma triple_step: "step_ok P f Q \<Longrightarrow> (\<And>a. triple Q (n a) R) \<Longrightarrow> triple P (bind (assign V f) n) R"
  by (rule triple_seq [OF triple_assign])

lemma triple_assign_if: "(\<And>x. step_ok P (f x) P) \<Longrightarrow> triple P (assign_if V v f) P"
  by (cases v) (simp_all add: assign_if_def triple_assign, simp add: triple_def rets_ret)

lemma triple_frame: "stays (\<lambda>s s'. ns_settings s' = ns_settings s) m \<Longrightarrow> triple P m P"
  unfolding triple_def by (auto intro: rets_mono [OF stays_rets])

lemma triple_credential:
  assumes "\<And>v. some_str d k = Some v \<Longrightarrow> step_ok P (upd v) Q"
    and "\<And>st. P st \<Longrightarrow> some_str d k = None \<Longrightarrow> g st \<noteq> [] \<Longrightarrow> Q st"
  shows "triple P (assign_credential V d k g upd) Q"
proof (cases "some_str d k")
  case None
  then show ?thesis using assms(2) by (auto simp: assign_credential_def triple_def rets_simps)
next
  case (Some v)
  then show ?thesis using triple_assign [OF assms(1) [OF Some]] by (simp add: assign_credential_def)
qed

lemma triple_apply_identity: "triple (\<lambda>_. True) (apply_identity V d) (bundle_identity d)"
proof -
  let ?q = "\<lambda>st. as_str d ''qpu_id'' = Inr (s_qpu_id st)" and ?i = "bundle_identity d"
  have q: "stable ?q" by (intro stable_fields) (auto dest: as_str_nonempty)
  have 1: "step_ok (\<lambda>_. True) (s_qpu_id_update (\<lambda>_. v)) ?q" if "as_str d ''qpu_id'' = Inr v" for v
    by (rule step_okI [OF stable_True q]) (simp add: that)
  have 2: "step_ok ?q (s_qpu_display_name_update (\<lambda>_. v)) ?q" for v
    by (rule step_okI [OF q q]) simp
  have 3: "step_ok ?q (s_native_gate_set_update (\<lambda>_. v)) ?i" if "as_str d ''native_gate_set'' = Inr v" for v
    by (rule step_okI [OF q stable_identity]) (simp add: that bundle_identity_def)
  have 4: "step_ok ?i (s_num_qubits_update (\<lambda>_. n)) ?i" for n
    by (rule step_okI [OF stable_identity stable_identity]) (simp add: bundle_identity_def)
  show ?thesis unfolding apply_identity_def
    by (intro triple_gets triple_sum triple_step [OF 1] triple_step [OF 2] triple_step [OF 3] triple_assign [OF 4])
qed

lemma triple_apply_endpoints:
  "triple (bundle_identity d) (apply_endpoints V d) (\<lambda>st. bundle_identity d st \<and> bundle_endpoints d st)"
proof -
  let ?i = "bundle_identity d"
  let ?k = "\<lambda>st. ?i st \<and> credential d ''jwt_private_key'' (s_jwt_private_key st)"
  let ?c = "\<lambda>st. ?k st \<and> credential d ''jwt_key_id'' (s_jwt_key_id st)"
  let ?r = "\<lambda>st. ?c st \<and> as_str d ''redis_url'' = Inr (s_redis_url st)"
  let ?e = "\<lambda>st. ?i st \<and> bundle_endpoints d st"
  have k: "stable ?k" by (intro stable_conj stable_identity stable_fields) (auto simp: credential_def)
  have c: "stable ?c" by (intro stable_conj k stable_fields) (auto simp: credential_def)
  have r: "stable ?r" by (intro stable_conj c stable_fields) (auto dest: as_str_nonempty)
  have e: "stable ?e" by (intro stable_conj stable_identity stable_endpoints)
  note defs = bundle_identity_def credential_def some_str_nonempty
  have 1: "triple ?i (assign_credential V d ''jwt_private_key'' s_jwt_private_key (\<lambda>v. s_jwt_private_key_update (\<lambda>_. v))) ?k"
    by (rule triple_credential, rule step_okI [OF stable_identity k]) (auto simp: defs)
  have 2: "triple ?k (assign_credential V d ''jwt_key_id'' s_jwt_key_id (\<lambda>v. s_jwt_key_id_update (\<lambda>_. v))) ?c"
    by (rule triple_credential, rule step_okI [OF k c]) (auto simp: defs)
  have 3: "step_ok ?c (s_redis_url_update (\<lambda>_. v)) ?r" if "as_str d ''redis_url'' = Inr v" for v
    by (rule step_okI [OF c r]) (simp add: that defs)
  have 4: "step_ok ?r (s_webapp_url_update (\<lambda>_. v)) ?e" if "as_str d (webapp_key d) = Inr v" for v
    by (rule step_okI [OF r e]) (simp add: that defs bundle_endpoints_def)
  have 5: "step_ok ?e (s_connect_path_update (\<lambda>_. v)) ?e" "step_ok ?e (s_heartbeat_path_update (\<lambda>_. v)) ?e"
    "step_ok ?e (s_webhook_path_update (\<lambda>_. v)) ?e" for v
    by (rule step_okI [OF e e]; simp add: defs bundle_endpoints_def)+
  show ?thesis unfolding apply_endpoints_def webapp_key_def [symmetric]
    by (intro triple_seq [OF 1] triple_seq [OF 2] triple_sum triple_step [OF 3] triple_step [OF 4]
        triple_seq [OF triple_assign_if] triple_assign_if 5)
qed

abbreviation applied :: "dict \<Rightarrow> settings \<Rightarrow> bool" where
  "applied d st \<equiv> bundle_identity d st \<and> bundle_endpoints d st"

lemma stable_applied: "stable (\<lambda>st. applied d st)"
  by (intro stable_conj stable_identity stable_endpoints)

lemma triple_apply_vpn: "triple (\<lambda>st. applied d st) (apply_vpn V fuel vpn) (\<lambda>st. applied d st)"
proof -
  have 1: "step_ok (applied d) (s_vpn_required_update (\<lambda>_. b)) (applied d)"
    "step_ok (applied d) (s_vpn_interface_hint_update (\<lambda>_. h)) (applied d)"
    "step_ok (applied d) (s_vpn_check_interval_sec_update (\<lambda>_. i)) (applied d)"
    "step_ok (applied d) (s_vpn_probe_targets_update (\<lambda>_. ts)) (applied d)" for b h i ts
    by (rule step_okI [OF stable_applied stable_applied]; simp add: bundle_identity_def bundle_endpoints_def)+
  have "triple (applied d) (apply_vpn_settings V vpn) (applied d)"
    unfolding apply_vpn_settings_def by (intro triple_seq [OF triple_assign_if] triple_assign_if 1)
  then show ?thesis unfolding apply_vpn_def
    by (rule triple_seq) (auto intro!: triple_gets triple_frame stays_rules)
qed

lemma triple_apply_node_bundle:
  "triple (\<lambda>_. True) (apply_node_bundle V fuel (JObj d)) (\<lambda>st. applied d st)"
proof -
  have "triple (applied d) (case map_of d ''vpn'' of Some (JObj vpn) \<Rightarrow> apply_vpn V fuel vpn | _ \<Rightarrow> ret ()) (applied d)"
    by (auto split: option.split json.split intro!: triple_apply_vpn triple_frame stays_rules)
  then show ?thesis unfolding apply_node_bundle_def json.case
    by (intro triple_seq [OF triple_apply_identity] triple_seq [OF triple_apply_endpoints])
qed

section \<open>Connecting\<close>

lemma grows_settings [stays_rules]: "stays log_grows (modify (ns_settings_update g))"
  by (rule stays_modify) (simp add: log_grows_def)

lemma grows_assign [stays_rules]: "stays log_grows (assign V f)"
  unfolding assign_def set_field_def validate_device_def validate_factory_def validate_credentials_def
  by (intro stays_rules)

lemma grows_assign_if [stays_rules]: "stays log_grows (assign_if V v f)"
  unfolding assign_if_def by (intro stays_rules)

lemma grows_apply [stays_rules]: "stays log_grows (apply_node_bundle V fuel j)"
  by (cases j) (auto simp: apply_node_bundle_def apply_identity_def apply_endpoints_def assign_credential_def apply_vpn_def
      apply_vpn_settings_def intro!: stays_rules split: option.split json.split)

definition bundle_received :: "json \<Rightarrow> node_state \<Rightarrow> bool" where
  "bundle_received j s \<longleftrightarrow> (\<exists>ev \<in> set (ns_log s). answered j ev)"

lemma received_grows: "bundle_received j s \<Longrightarrow> log_grows s s' \<Longrightarrow> bundle_received j s'"
  by (auto simp: bundle_received_def log_grows_def)

lemma rets_post_connect: "rets (post_connect V auth payload m) bundle_received s"
proof -
  have "wp (post_connect V auth payload m) (\<lambda>r s'. \<forall>j. r = Ret j \<longrightarrow> bundle_received j s') s"
    unfolding post_connect_def
  proof (rule wp_mono [OF connect_attempts_log])
    fix r and s' :: node_state assume "\<exists>evs. ns_log s' = evs @ ns_log s \<and> connect_log (nat m) r evs"
    then obtain evs where "ns_log s' = evs @ ns_log s" "connect_log (nat m) r evs" by blast
    then show "\<forall>j. r = Ret j \<longrightarrow> bundle_received j s'"
      by (cases evs) (auto simp: connect_log_def bundle_received_def)
  qed
  then show ?thesis by (simp add: rets_def)
qed

lemma rets_any: "(\<And>s. rets n Q s) \<Longrightarrow> rets (bind m (\<lambda>_. n)) Q s"
  unfolding rets_bind by (rule rets_mono [OF rets_True])

lemma rets_fetch:
  "rets (fetch_node_bundle V c) bundle_received s" "rets (fetch_reconnect_bundle V c) bundle_received s"
  unfolding fetch_node_bundle_def fetch_reconnect_bundle_def
  by (auto simp: rets_simps intro!: rets_mono [OF rets_True] rets_post_connect)

lemma rets_apply_and_persist:
  assumes "bundle_received j s"
  shows "rets (apply_and_persist V fuel j)
     (\<lambda>_ s'. \<exists>d D. j = JObj d \<and> applied d (ns_settings s') \<and> bundle_received (JObj d) s'
        \<and> ns_disk s' = persist_runtime_config (v_os V) (v_dumps V) (ns_settings s') D) s"
proof (cases j)
  case (JObj d)
  have 1: "rets (apply_node_bundle V fuel j) (\<lambda>_ s'. applied d (ns_settings s')) s"
    using triple_apply_node_bundle [of V fuel d] by (simp add: triple_def JObj)
  have 2: "rets (apply_node_bundle V fuel j) (\<lambda>_ s'. log_grows s s') s"
    by (rule stays_rets) (rule grows_apply)
  show ?thesis unfolding apply_and_persist_def rets_simps
    by (rule rets_mono [OF rets_conj [OF 1 2]])
      (use received_grows [OF assms] in \<open>auto simp: JObj bundle_received_def\<close>)
qed (simp_all add: apply_and_persist_def apply_node_bundle_def rets_simps)

lemma rets_connect_settings:
  "rets (connect_settings V fuel) (\<lambda>_ s'. \<exists>d D. bundle_received (JObj d) s' \<and> applied d (ns_settings s')
     \<and> ns_disk s' = persist_runtime_config (v_os V) (v_dumps V) (ns_settings s') D) s" (is "rets _ ?Q s")
proof -
  have finish: "rets (catch (apply_and_persist V fuel j) h) ?Q s1"
    if "bundle_received j s1" "\<And>e n s2. h e = Some n \<Longrightarrow> rets n ?Q s2" for j s1 h
    using that(2) by (rule rets_catch [OF rets_mono [OF rets_apply_and_persist [OF that(1)]], rotated]) auto
  have fetch: "rets (if b then fetch_node_bundle V c else bind (ensure_persisted_vpn V fuel) (\<lambda>_. fetch_reconnect_bundle V c))
      bundle_received s1" for b c s1
    by (cases b) (simp_all add: rets_fetch rets_any)
  have body: "rets (if b then fetch_node_bundle V c else bind (ensure_persisted_vpn V fuel) (\<lambda>_. fetch_reconnect_bundle V c))
      (\<lambda>j. rets (catch (apply_and_persist V fuel j) h) ?Q) s1" if "\<And>e n s2. h e = Some n \<Longrightarrow> rets n ?Q s2" for b c s1 h
    by (rule rets_mono [OF fetch]) (rule finish [OF _ that])
  show ?thesis
    unfolding connect_settings_def
    by (intro rets_any, unfold rets_bind rets_gets rets_of_sum, intro allI impI, rule body)
      (auto simp: rets_simps split: if_splits)
qed



end
