(* ===== verification/Daemon.thy ===== *)
theory Daemon
  imports Provision_Safety
begin

text \<open>
  The background server process: \<^verbatim>\<open>server/daemon.py\<close>.  The process id file and the log file live on
  the disk of \<open>node_state\<close>; processes, signals and the clock are answered by \<open>svc_env\<close>.
\<close>

section \<open>Operations\<close>

definition DAEMON_PID_PATH :: "os_env \<Rightarrow> string" where
  "DAEMON_PID_PATH OS = os_tmp OS @ ''/coda-node.pid''"

definition DAEMON_LOG_PATH :: "os_env \<Rightarrow> string" where
  "DAEMON_LOG_PATH OS = os_tmp OS @ ''/coda-node.log''"

definition read_daemon_pid :: "os_env \<Rightarrow> disk \<Rightarrow> int option" where
  "read_daemon_pid OS D =
     (case D (DAEMON_PID_PATH OS) of None \<Rightarrow> None | Some f \<Rightarrow> py_int (strip (f_content f)))"

definition daemon_pid :: "svc_env \<Rightarrow> (node_state, int option) prog" where
  "daemon_pid V = gets (\<lambda>s. read_daemon_pid (v_os V) (ns_disk s))"

text \<open>Signal 0; an exception that is no \<^verbatim>\<open>OSError\<close> (an overflowing process id) escapes.\<close>

definition process_exists :: "svc_env \<Rightarrow> int \<Rightarrow> (node_state, bool) prog" where
  "process_exists V pid = bind (svc_ask (\<lambda>h. v_probe V h pid) (SvProbe pid)) of_sum"

definition is_daemon_running :: "svc_env \<Rightarrow> (node_state, bool) prog" where
  "is_daemon_running V =
     bind (daemon_pid V) (\<lambda>p. case p of None \<Rightarrow> ret False | Some pid \<Rightarrow> process_exists V pid)"

record daemon_report =
  dr_running :: bool
  dr_pid :: "int option"
  dr_pid_file :: string
  dr_log_file :: string
  dr_log_exists :: bool

definition daemon_status :: "svc_env \<Rightarrow> (node_state, daemon_report) prog" where
  "daemon_status V =
     bind (daemon_pid V) (\<lambda>p.
     bind (case p of None \<Rightarrow> ret False | Some pid \<Rightarrow> process_exists V pid) (\<lambda>running.
     bind (gets (\<lambda>s. ns_disk s (DAEMON_LOG_PATH (v_os V)) \<noteq> None)) (\<lambda>log_exists.
       ret \<lparr>dr_running = running, dr_pid = (if running then p else None), dr_pid_file = DAEMON_PID_PATH (v_os V),
            dr_log_file = DAEMON_LOG_PATH (v_os V), dr_log_exists = log_exists\<rparr>)))"

definition unlink :: "string \<Rightarrow> (node_state, unit) prog" where
  "unlink path = modify (ns_disk_update (\<lambda>D. D(path := None)))"

definition daemon_env :: "(string \<times> string) list \<Rightarrow> string \<Rightarrow> int \<Rightarrow> string option \<Rightarrow> (string \<times> string) list" where
  "daemon_env environ host port token =
     (let env = dict_set ''CODA_PORT'' (show_int port) (dict_set ''CODA_HOST'' host environ) in
      case token of None \<Rightarrow> env | Some t \<Rightarrow> if t = [] then env else dict_set ''CODA_NODE_TOKEN'' t env)"

definition daemon_cmd :: "svc_env \<Rightarrow> string \<Rightarrow> int \<Rightarrow> string list" where
  "daemon_cmd V host port =
     [v_executable V, ''-m'', ''uvicorn'', ''coda_node.server.app:app'', ''--host'', host, ''--port'', show_int port,
      ''--log-level'', ''warning'']"

text \<open>Permission bits \<^verbatim>\<open>0o644\<close>; opening the log file for appending creates it.\<close>

definition PID_MODE :: nat where "PID_MODE = 420"

definition open_append :: "os_env \<Rightarrow> string \<Rightarrow> disk \<Rightarrow> disk" where
  "open_append OS path D = (case D path of None \<Rightarrow> write_text OS path [] D | Some _ \<Rightarrow> D)"

definition start_daemon ::
  "svc_env \<Rightarrow> (string \<times> string) list \<Rightarrow> string \<Rightarrow> int \<Rightarrow> string option \<Rightarrow> (node_state, int) prog" where
  "start_daemon V environ host port token =
     (let OS = v_os V; path = DAEMON_PID_PATH OS in
      bind (is_daemon_running V) (\<lambda>running.
        if running then
          bind (daemon_pid V) (\<lambda>p. raise (OtherExc (''RuntimeError: Daemon already running (PID ''
            @ (case p of None \<Rightarrow> ''None'' | Some pid \<Rightarrow> show_int pid) @ '')'')))
        else
          bind (unlink path) (\<lambda>_.
          bind (modify (ns_disk_update (open_append OS (DAEMON_LOG_PATH OS)))) (\<lambda>_.
          bind (svc_ask (v_spawn V) (SvSpawn (daemon_cmd V host port) (daemon_env environ host port token))) (\<lambda>r.
          bind (of_sum r) (\<lambda>pid.
          bind (modify (ns_disk_update (\<lambda>D.
                  let D' = write_text OS path (show_int pid @ [CHR 0x0A]) D
                  in if os_nt OS then D' else chmod path PID_MODE D'))) (\<lambda>_.
            ret pid)))))))"

text \<open>
  \<^verbatim>\<open>os.kill\<close> or \<^verbatim>\<open>taskkill\<close>: \<open>False\<close> stands for an exception that \<^verbatim>\<open>stop_daemon\<close> catches.
\<close>

definition send_signal :: "svc_env \<Rightarrow> (kill_reply \<Rightarrow> svc_event) \<Rightarrow> (node_state, bool) prog" where
  "send_signal V ev =
     bind (svc_ask (v_kill V) ev) (\<lambda>r.
       case r of KillDone \<Rightarrow> ret True | KillCaught \<Rightarrow> ret False | KillRaise e \<Rightarrow> raise e)"

definition EXIT_POLL :: rat where "EXIT_POLL = 1 / 10"

text \<open>The \<^verbatim>\<open>while\<close> loop: whether the process went away before the deadline; fuel bounds the polls.\<close>

fun await_exit :: "svc_env \<Rightarrow> nat \<Rightarrow> rat \<Rightarrow> int \<Rightarrow> (node_state, bool) prog" where
  "await_exit V fuel deadline pid =
     bind (gets (\<lambda>s. v_monotonic V (ns_log s))) (\<lambda>now.
       if now < deadline then
         (case fuel of
            0 \<Rightarrow> stuck
          | Suc fuel' \<Rightarrow>
              bind (process_exists V pid) (\<lambda>alive.
                if \<not> alive then ret True
                else bind (svc_sleep V EXIT_POLL) (\<lambda>_. await_exit V fuel' deadline pid)))
       else ret False)"

declare await_exit.simps [simp del]

text \<open>The body of the \<^verbatim>\<open>try\<close>; the result is \<open>False\<close> when a caught exception ended it.\<close>

definition terminate :: "svc_env \<Rightarrow> nat \<Rightarrow> rat \<Rightarrow> int \<Rightarrow> (node_state, bool) prog" where
  "terminate V fuel timeout pid =
     bind (send_signal V (SvKill pid)) (\<lambda>sent.
       if \<not> sent then ret False
       else if os_nt (v_os V) then ret True
       else
         bind (gets (\<lambda>s. v_monotonic V (ns_log s) + timeout)) (\<lambda>deadline.
         bind (await_exit V fuel deadline pid) (\<lambda>exited.
           if exited then ret True
           else
             bind (send_signal V (SvForce pid)) (\<lambda>forced.
               if forced then bind (svc_sleep V (1 / 2)) (\<lambda>_. ret True) else ret False))))"

definition stop_daemon :: "svc_env \<Rightarrow> nat \<Rightarrow> rat \<Rightarrow> (node_state, bool) prog" where
  "stop_daemon V fuel timeout =
     bind (daemon_pid V) (\<lambda>p.
       case p of
         None \<Rightarrow> ret False
       | Some pid \<Rightarrow>
           bind (process_exists V pid) (\<lambda>alive.
             if \<not> alive then bind (unlink (DAEMON_PID_PATH (v_os V))) (\<lambda>_. ret False)
             else
               bind (terminate V fuel timeout pid) (\<lambda>ok.
               bind (unlink (DAEMON_PID_PATH (v_os V))) (\<lambda>_. ret ok))))"

definition tail_daemon_log :: "os_env \<Rightarrow> disk \<Rightarrow> int \<Rightarrow> string" where
  "tail_daemon_log OS D lines =
     (case D (DAEMON_LOG_PATH OS) of
        None \<Rightarrow> []
      | Some f \<Rightarrow>
          (let ls = splitlines (f_content f); n = int (length ls);
               from = (if lines = 0 then 0 else if 0 < lines then max 0 (n - lines) else min n (- lines))
           in join [CHR 0x0A] (drop (nat from) ls)))"

section \<open>Rules\<close>

lemma wp_daemon_pid [wp_simps]: "wp (daemon_pid V) Q s = Q (Ret (read_daemon_pid (v_os V) (ns_disk s))) s"
  by (simp add: daemon_pid_def wp_simps)

lemma wp_process_exists [wp_simps]:
  "wp (process_exists V pid) Q s =
   (let r = v_probe V (ns_log s) pid; s' = ns_log_update (\<lambda>h. SvProbe pid r # h) s
    in case r of Inl e \<Rightarrow> Q (Raise e) s' | Inr b \<Rightarrow> Q (Ret b) s')"
  by (simp add: process_exists_def wp_simps Let_def)

lemma wp_unlink [wp_simps]: "wp (unlink p) Q s = Q (Ret ()) (ns_disk_update (\<lambda>D. D(p := None)) s)"
  by (simp add: unlink_def wp_simps)

lemma wp_send_signal [wp_simps]:
  "wp (send_signal V ev) Q s =
   (let r = v_kill V (ns_log s); s' = ns_log_update (\<lambda>h. ev r # h) s
    in case r of KillDone \<Rightarrow> Q (Ret True) s' | KillCaught \<Rightarrow> Q (Ret False) s' | KillRaise e \<Rightarrow> Q (Raise e) s')"
  by (simp add: send_signal_def wp_simps Let_def split: kill_reply.split)

section \<open>Starting\<close>

fun is_spawn :: "svc_event \<Rightarrow> bool" where
  "is_spawn (SvSpawn _ _ _) = True"
| "is_spawn _ = False"

text \<open>The process id file is a codec: what \<^verbatim>\<open>start_daemon\<close> writes, \<^verbatim>\<open>read_daemon_pid\<close> reads.\<close>

definition pid_text :: "int \<Rightarrow> string" where
  "pid_text pid = show_int pid @ [CHR 0x0A]"

definition pid_of_text :: "string \<Rightarrow> unit + int" where
  "pid_of_text t = (case py_int (strip t) of None \<Rightarrow> Inl () | Some pid \<Rightarrow> Inr pid)"

definition os_pid :: "int \<Rightarrow> bool" where
  "os_pid pid \<longleftrightarrow> 0 \<le> pid \<and> pid < 2 ^ 31"

interpretation pid_file: codec pid_text pid_of_text os_pid
proof
  fix pid assume "os_pid pid"
  then have pid: "0 \<le> pid" "pid < 2 ^ 31" by (simp_all add: os_pid_def)
  then have "nat pid < 10 ^ Suc 9" by (simp add: nat_less_iff)
  then have "length (show_nat (nat pid)) \<le> 4300" using show_nat_length [of "nat pid" 9] by simp
  moreover have "strip (show_nat (nat pid) @ [CHR 0x0A]) = show_nat (nat pid)"
    using show_nat_digits [of _ "nat pid"] last_in_set [of "show_nat (nat pid)"] isdigit_not_space
    by (subst strip_trailing) (auto simp: isspace_def intro!: strip_id)
  ultimately show "pid_of_text (pid_text pid) = Inr pid"
    using pid py_int_show_nat [of "nat pid" "[]"] by (simp add: pid_of_text_def pid_text_def show_int_def)
qed

lemma read_pid_written:
  assumes "f_content f = show_int pid @ [CHR 0x0A]" "D (DAEMON_PID_PATH OS) = Some f" "0 \<le> pid" "pid < 2 ^ 31"
  shows "read_daemon_pid OS D = Some pid"
  using pid_file.dec_enc [of pid] assms
  by (auto simp: read_daemon_pid_def pid_text_def pid_of_text_def os_pid_def split: option.splits)



section \<open>Stopping\<close>

text \<open>What a program adds to the log, and that it leaves disk and settings alone.\<close>

definition adds :: "(svc_event set \<Rightarrow> bool) \<Rightarrow> node_state \<Rightarrow> node_state \<Rightarrow> bool" where
  "adds P s s' \<longleftrightarrow> ns_disk s' = ns_disk s \<and> (\<exists>evs. ns_log s' = evs @ ns_log s \<and> P (set evs))"

lemma adds_now: "ns_disk s' = ns_disk s \<Longrightarrow> ns_log s' = evs @ ns_log s \<Longrightarrow> P (set evs) \<Longrightarrow> adds P s s'"
  by (auto simp: adds_def)

lemmas adds_here = adds_now [of s s "[]" for s, simplified]

lemma adds_after:
  assumes "adds P s1 s'" and "ns_disk s1 = ns_disk s" and "ns_log s1 = evs @ ns_log s"
    and "\<And>E. P E \<Longrightarrow> Q (E \<union> set evs)"
  shows "adds Q s s'"
  using assms unfolding adds_def by (metis append.assoc set_append)

lemma adds_step:
  assumes "adds (\<lambda>E. P (insert ev E)) s (ns_log_update g s2)"
  shows "adds P s (ns_log_update ((#) ev \<circ> g) s2)"
proof -
  from assms obtain evs where "ns_disk s2 = ns_disk s" "g (ns_log s2) = evs @ ns_log s" "P (insert ev (set evs))"
    by (auto simp: adds_def)
  then show ?thesis by (intro adds_now [of _ s "ev # evs"]) simp_all
qed

lemma adds_last: "adds (\<lambda>E. P (insert ev E)) s s2 \<Longrightarrow> adds P s (ns_log_update ((#) ev) s2)"
  unfolding adds_def by (auto intro: exI [of _ "ev # evs" for evs])

lemma await_exit_spec:
  assumes "clock_advances V EXIT_POLL" and "dl - v_monotonic V (ns_log s) \<le> of_nat fuel * EXIT_POLL"
  shows "wp (await_exit V fuel dl pid)
     (\<lambda>r s'. r \<noteq> Stuck \<and> adds (\<lambda>E. r = Ret True \<longrightarrow> SvProbe pid (Inr False) \<in> E) s s') s"
  using assms(2)
proof (induction fuel arbitrary: s)
  case 0
  then show ?case by (subst await_exit.simps) (simp add: wp_simps adds_here)
next
  case (Suc fuel)
  let ?p = "v_probe V (ns_log s) pid"
  let ?s1 = "ns_log_update (\<lambda>h. SvProbe pid ?p # h) s"
  let ?s2 = "ns_log_update (\<lambda>h. SvSleep EXIT_POLL None # h) ?s1"
  let ?Q = "\<lambda>r s'. r \<noteq> Stuck \<and> adds (\<lambda>E. r = Ret True \<longrightarrow> SvProbe pid (Inr False) \<in> E) s s'"
  have "v_monotonic V (ns_log s) + EXIT_POLL \<le> v_monotonic V (ns_log ?s2)"
    using assms(1) by (simp add: clock_advances_def)
  then have "dl - v_monotonic V (ns_log ?s2) \<le> of_nat fuel * EXIT_POLL" using Suc.prems by (simp add: algebra_simps)
  then have again: "wp (await_exit V fuel dl pid) ?Q ?s2"
  proof (rule wp_mono [OF Suc.IH])
    fix r s' assume "r \<noteq> Stuck \<and> adds (\<lambda>E. r = Ret True \<longrightarrow> SvProbe pid (Inr False) \<in> E) ?s2 s'"
    then show "?Q r s'" using adds_after [of _ ?s2 s' s "[SvSleep EXIT_POLL None, SvProbe pid ?p]"] by auto
  qed
  have stop: "?Q (Raise e) (ns_log_update (\<lambda>h. SvSleep EXIT_POLL (Some e) # h) ?s1)" "?Q (Raise e) ?s1" for e
    using adds_now [of _ s "[SvSleep EXIT_POLL (Some e), SvProbe pid ?p]"] adds_now [of _ s "[SvProbe pid ?p]"] by simp_all
  have gone: "?Q (Ret True) ?s1" if "?p = Inr False" using that adds_now [of _ s "[SvProbe pid ?p]"] by simp
  have late: "?Q (Ret False) s" by (simp add: adds_here)
  show ?case
  proof (cases ?p)
    case (Inl e)
    then show ?thesis using stop(2) late by (subst await_exit.simps) (simp add: wp_simps Let_def)
  next
    case (Inr b)
    then show ?thesis using stop(1) gone again late
      by (subst await_exit.simps) (cases b; cases "v_sleep V (ns_log ?s1)"; simp add: wp_simps Let_def)
  qed
qed

definition stop_evidence :: "svc_env \<Rightarrow> int \<Rightarrow> svc_event set \<Rightarrow> bool" where
  "stop_evidence V pid E \<longleftrightarrow> SvKill pid KillDone \<in> E
     \<and> (os_nt (v_os V) \<or> SvProbe pid (Inr False) \<in> E \<or> SvForce pid KillDone \<in> E)"

lemma terminate_spec:
  assumes "clock_advances V EXIT_POLL" and "timeout \<le> of_nat fuel * EXIT_POLL"
  shows "wp (terminate V fuel timeout pid)
     (\<lambda>r s'. r \<noteq> Stuck \<and> adds (\<lambda>E. r = Ret True \<longrightarrow> stop_evidence V pid E) s s') s"
proof -
  let ?Q = "\<lambda>r s'. r \<noteq> Stuck \<and> adds (\<lambda>E. r = Ret True \<longrightarrow> stop_evidence V pid E) s s'"
  let ?s1 = "\<lambda>k. ns_log_update (\<lambda>h. SvKill pid k # h) s"
  let ?rest = "\<lambda>exited. if exited then ret True
      else bind (send_signal V (SvForce pid)) (\<lambda>forced. if forced then bind (svc_sleep V (1 / 2)) (\<lambda>_. ret True) else ret False)"
  have plain: "?Q r (?s1 k)" if "r \<noteq> Stuck" "r = Ret True \<Longrightarrow> k = KillDone \<and> os_nt (v_os V)" for r k
    using that adds_now [of "?s1 k" s "[SvKill pid k]"] by (auto simp: stop_evidence_def)
  have rest: "wp (?rest exited) ?Q s2"
    if a: "adds (\<lambda>E. exited \<longrightarrow> SvProbe pid (Inr False) \<in> E) (?s1 KillDone) s2" for exited s2
  proof -
    from a obtain evs where e: "ns_disk s2 = ns_disk s" "ns_log s2 = evs @ SvKill pid KillDone # ns_log s"
      "exited \<longrightarrow> SvProbe pid (Inr False) \<in> set evs" by (auto simp: adds_def)
    have base: "adds P s s2" if "P (insert (SvKill pid KillDone) (set evs))" for P
      using adds_now [of s2 s "evs @ [SvKill pid KillDone]" P] e that by simp
    show ?thesis using e(3)
      by (auto simp: wp_simps Let_def stop_evidence_def intro!: adds_step adds_last base split: kill_reply.split option.split)
  qed
  let ?dl = "v_monotonic V (SvKill pid KillDone # ns_log s) + timeout"
  have "wp (await_exit V fuel ?dl pid)
      (\<lambda>r s2. r \<noteq> Stuck \<and> adds (\<lambda>E. r = Ret True \<longrightarrow> SvProbe pid (Inr False) \<in> E) (?s1 KillDone) s2) (?s1 KillDone)"
    using assms by (intro await_exit_spec) auto
  then have wait: "wp (bind (await_exit V fuel ?dl pid) ?rest) ?Q (?s1 KillDone)" unfolding wp_bind
  proof (rule wp_mono)
    fix r s2 assume *: "r \<noteq> Stuck \<and> adds (\<lambda>E. r = Ret True \<longrightarrow> SvProbe pid (Inr False) \<in> E) (?s1 KillDone) s2"
    show "case r of Ret a \<Rightarrow> wp (?rest a) ?Q s2 | Raise e \<Rightarrow> ?Q (Raise e) s2 | Stuck \<Rightarrow> ?Q Stuck s2"
    proof (cases r)
      case (Ret a)
      then show ?thesis using * rest [of a s2] by simp
    next
      case (Raise e)
      then show ?thesis using * adds_after [of _ "?s1 KillDone" s2 s "[SvKill pid KillDone]"] by auto
    qed (use * in simp)
  qed
  show ?thesis
  proof (cases "v_kill V (ns_log s)")
    case KillDone
    then show ?thesis using wait plain [of "Ret True" KillDone]
      by (simp add: terminate_def wp_bind wp_send_signal wp_gets wp_ret wp_if Let_def)
  qed (auto simp: terminate_def wp_simps Let_def intro!: adds_last adds_here)
qed



end
