(* ===== verification/CLI.thy ===== *)
theory CLI
  imports Daemon
begin

text \<open>
  The command line: \<^verbatim>\<open>server/cli.py\<close>.  The state adds the process environment to \<open>node_state\<close>; the parsed
  arguments are a record.  What the commands print, and the text syntax of the arguments (\<^verbatim>\<open>argparse\<close>),
  are left out; exit codes and effects are kept.
\<close>

section \<open>State and arguments\<close>

record cli_state =
  c_node :: node_state
  c_environ :: "(string \<times> string) list"

record cli_args =
  a_reset :: bool
  a_command :: "string option"
  a_host :: "string option"
  a_port :: "int option"
  a_node_token :: "string option"
  a_daemon :: bool
  a_lines :: int

text \<open>
  \<open>ce_env_dict\<close> reads the \<^verbatim>\<open>CODA_\<close> variables (\<^verbatim>\<open>pydantic-settings\<close>) and \<open>ce_convert\<close> converts the merged
  dictionary to typed fields (\<^verbatim>\<open>pydantic\<close>).
\<close>

record cli_env =
  ce_svc :: svc_env
  ce_env_dict :: "(string \<times> string) list \<Rightarrow> dict"
  ce_convert :: "dict \<Rightarrow> exc + settings"

datatype cli_exit = SystemExit int | Returned

definition on_node :: "(node_state, 'a) prog \<Rightarrow> (cli_state, 'a) prog" where
  "on_node m = (\<lambda>s. case m (c_node s) of (r, n) \<Rightarrow> (r, s\<lparr>c_node := n\<rparr>))"

definition load_settings :: "cli_env \<Rightarrow> (cli_state, settings) prog" where
  "load_settings C =
     (let V = ce_svc C in
      bind (gets (\<lambda>s. mk_Settings (v_os V) (v_loads V) (v_str_of V) (ce_convert C) (ns_disk (c_node s))
              (ce_env_dict C (c_environ s)))) of_sum)"

section \<open>Commands\<close>

definition set_env :: "string \<Rightarrow> string \<Rightarrow> (cli_state, unit) prog" where
  "set_env k v = modify (c_environ_update (dict_set k v))"

definition apply_overrides :: "cli_args \<Rightarrow> (cli_state, unit) prog" where
  "apply_overrides args =
     bind (case a_host args of None \<Rightarrow> ret () | Some h \<Rightarrow> if h = [] then ret () else set_env ''CODA_HOST'' h) (\<lambda>_.
     bind (case a_port args of None \<Rightarrow> ret () | Some p \<Rightarrow> set_env ''CODA_PORT'' (show_int p)) (\<lambda>_.
       case a_node_token args of None \<Rightarrow> ret () | Some t \<Rightarrow> if t = [] then ret () else set_env ''CODA_NODE_TOKEN'' t))"

definition runtime_paths :: "os_env \<Rightarrow> string list" where
  "runtime_paths OS =
     [PERSISTED_CONFIG_PATH OS, PERSISTED_PRIVATE_KEY_PATH OS, OPENVPN_PID_PATH OS, OPENVPN_LOG_PATH OS,
      DAEMON_PID_PATH OS, DAEMON_LOG_PATH OS, os_tmp OS @ ''/coda-node.ovpn'']"

text \<open>Paths named by the persisted configuration, if it is a JSON object.\<close>

definition configured_paths :: "os_env \<Rightarrow> (string \<Rightarrow> exc + json) \<Rightarrow> disk \<Rightarrow> exc + string list" where
  "configured_paths OS loads D =
     (case D (PERSISTED_CONFIG_PATH OS) of
        None \<Rightarrow> Inr []
      | Some f \<Rightarrow>
          (case loads (f_content f) of
             Inl (ValueErr _) \<Rightarrow> Inr []
           | Inl e \<Rightarrow> Inl e
           | Inr (JObj d) \<Rightarrow>
               Inr (concat (map (\<lambda>k. case some_str d k of None \<Rightarrow> [] | Some v \<Rightarrow> [v])
                     [''jwt_private_key_path'', ''node_vpn_profile_path'']))
           | Inr _ \<Rightarrow> Inr []))"

text \<open>\<^verbatim>\<open>sorted\<close> only fixes the order of the messages.\<close>

definition read_reset_paths :: "os_env \<Rightarrow> (string \<Rightarrow> exc + json) \<Rightarrow> disk \<Rightarrow> exc + string list" where
  "read_reset_paths OS loads D =
     sbind (configured_paths OS loads D) (\<lambda>ps. Inr (remdups (runtime_paths OS @ ps)))"

definition remove_files :: "string list \<Rightarrow> (node_state, unit) prog" where
  "remove_files paths =
     for_each paths (\<lambda>p. bind (gets (\<lambda>s. ns_disk s p \<noteq> None)) (\<lambda>e. if e then unlink p else ret ()))"

definition reset :: "svc_env \<Rightarrow> nat \<Rightarrow> (node_state, int) prog" where
  "reset V fuel =
     bind (stop_daemon V fuel 10) (\<lambda>_.
     bind (kill_openvpn_daemon V) (\<lambda>_.
     bind (gets (\<lambda>s. read_reset_paths (v_os V) (v_loads V) (ns_disk s))) (\<lambda>r.
     bind (of_sum r) (\<lambda>paths.
     bind (remove_files paths) (\<lambda>_.
       ret 0)))))"

definition doctor :: "cli_env \<Rightarrow> (cli_state, int) prog" where
  "doctor C =
     bind (load_settings C) (\<lambda>st.
     bind (on_node (detect_tunnel (ce_svc C) (s_vpn_interface_hint st))) (\<lambda>_. ret 0))"

fun is_runtime_error :: "exc \<Rightarrow> bool" where
  "is_runtime_error (OtherExc m) \<longleftrightarrow> startswith m ''RuntimeError''"
| "is_runtime_error _ \<longleftrightarrow> False"

definition start_in_background :: "cli_env \<Rightarrow> settings \<Rightarrow> (cli_state, cli_exit) prog" where
  "start_in_background C st =
     (let V = ce_svc C in
      bind (on_node (is_daemon_running V)) (\<lambda>running.
        if running then bind (on_node (daemon_status V)) (\<lambda>_. ret (SystemExit 1))
        else
          bind (gets c_environ) (\<lambda>environ.
            catch
              (bind (on_node (start_daemon V environ (s_host st) (s_port st)
                       (if s_node_token st = [] then None else Some (s_node_token st)))) (\<lambda>_. ret Returned))
              (\<lambda>e. if is_runtime_error e then Some (ret (SystemExit 1)) else None))))"

definition start_in_foreground :: "cli_env \<Rightarrow> settings \<Rightarrow> (cli_state, cli_exit) prog" where
  "start_in_foreground C st =
     bind (on_node (svc_ask (v_serve (ce_svc C)) (SvServe (s_host st) (s_port st)))) (\<lambda>r.
       case r of None \<Rightarrow> ret Returned | Some e \<Rightarrow> raise e)"

definition start_cmd :: "cli_env \<Rightarrow> cli_args \<Rightarrow> (cli_state, cli_exit) prog" where
  "start_cmd C args =
     bind (apply_overrides args) (\<lambda>_.
     bind (load_settings C) (\<lambda>st.
       if a_daemon args then start_in_background C st else start_in_foreground C st))"

definition stop_cmd :: "cli_env \<Rightarrow> nat \<Rightarrow> (cli_state, cli_exit) prog" where
  "stop_cmd C fuel =
     (let V = ce_svc C in
      bind (on_node (is_daemon_running V)) (\<lambda>running.
        if \<not> running then ret (SystemExit 1)
        else
          bind (on_node (daemon_status V)) (\<lambda>_.
          bind (on_node (stop_daemon V fuel 10)) (\<lambda>stopped. ret (SystemExit (if stopped then 0 else 1))))))"

definition status_cmd :: "cli_env \<Rightarrow> (cli_state, cli_exit) prog" where
  "status_cmd C =
     bind (on_node (daemon_status (ce_svc C))) (\<lambda>status.
     bind (catch (bind (load_settings C) (\<lambda>st.
                   bind (on_node (detect_tunnel (ce_svc C) (s_vpn_interface_hint st))) (\<lambda>_. ret ())))
             (\<lambda>e. if is_Exception e then Some (ret ()) else None)) (\<lambda>_.
       ret (SystemExit (if dr_running status then 0 else 1))))"

definition logs_cmd :: "cli_env \<Rightarrow> cli_args \<Rightarrow> (cli_state, cli_exit) prog" where
  "logs_cmd C args =
     bind (gets (\<lambda>s. tail_daemon_log (v_os (ce_svc C)) (ns_disk (c_node s)) (a_lines args))) (\<lambda>out.
       ret (SystemExit (if out = [] then 1 else 0)))"

definition main :: "cli_env \<Rightarrow> nat \<Rightarrow> cli_args \<Rightarrow> (cli_state, cli_exit) prog" where
  "main C fuel args =
     (if a_reset args \<or> a_command args = Some ''reset'' then
        bind (on_node (reset (ce_svc C) fuel)) (\<lambda>n. ret (SystemExit n))
      else if a_command args = Some ''start'' then start_cmd C args
      else if a_command args = Some ''stop'' then stop_cmd C fuel
      else if a_command args = Some ''status'' then status_cmd C
      else if a_command args = Some ''logs'' then logs_cmd C args
      else if a_command args = Some ''doctor'' then bind (doctor C) (\<lambda>n. ret (SystemExit n))
      else if a_command args = Some ''stop-vpn'' then
        bind (on_node (kill_openvpn_daemon (ce_svc C))) (\<lambda>killed. ret (SystemExit (if killed then 0 else 1)))
      else ret (SystemExit 2))"

section \<open>Resetting\<close>

text \<open>Stopping the two daemons changes nothing on disk but removes their process id files.\<close>

definition only_pids :: "os_env \<Rightarrow> node_state \<Rightarrow> node_state \<Rightarrow> bool" where
  "only_pids OS s s' \<longleftrightarrow> (\<forall>p. ns_disk s' p = ns_disk s p
     \<or> p \<in> {DAEMON_PID_PATH OS, OPENVPN_PID_PATH OS} \<and> ns_disk s' p = None)"

interpretation only_pids: step_order "only_pids OS" for OS
proof
  show "only_pids OS s s''" if "only_pids OS s s'" "only_pids OS s' s''" for s s' s''
    using that unfolding only_pids_def by metis
qed (simp add: only_pids_def)

lemma pids_ask [stays_rules]: "stays (only_pids OS) (svc_ask r ev)"
  unfolding svc_ask_def by (intro stays_rules stays_modify) (simp add: only_pids_def)

lemma pids_sleep [stays_rules]: "stays (only_pids OS) (svc_sleep V d)"
  unfolding svc_sleep_def by (intro stays_rules)

lemma pids_probe [stays_rules]: "stays (only_pids OS) (process_exists V pid)"
  unfolding process_exists_def by (intro stays_rules)

lemma pids_signal [stays_rules]: "stays (only_pids OS) (send_signal V ev)"
  unfolding send_signal_def by (intro stays_rules) (auto split: kill_reply.split intro!: stays_rules)

lemma pids_unlink [stays_rules]:
  "stays (only_pids OS) (unlink (DAEMON_PID_PATH OS))"
  "stays (only_pids OS) (modify (ns_disk_update (\<lambda>D. D(OPENVPN_PID_PATH OS := None))))"
  unfolding unlink_def by (rule stays_modify; simp add: only_pids_def)+

lemma pids_await [stays_rules]: "stays (only_pids OS) (await_exit V fuel dl pid)"
proof (induction fuel)
  case 0
  show ?case by (subst await_exit.simps) (auto intro!: stays_rules)
next
  case (Suc fuel)
  show ?case by (subst await_exit.simps) (auto intro!: stays_rules Suc)
qed

lemma pids_stop [stays_rules]: "stays (only_pids (v_os V)) (stop_daemon V fuel t)"
  unfolding stop_daemon_def daemon_pid_def terminate_def by (intro stays_rules)

lemma pids_kill [stays_rules]: "stays (only_pids (v_os V)) (kill_openvpn_daemon V)"
  unfolding kill_openvpn_daemon_def Let_def
  by (intro stays_rules) (auto split: kill_reply.split intro!: stays_rules)

lemma rets_remove_files:
  "rets (remove_files paths) (\<lambda>_ s'. \<forall>p. ns_disk s' p = (if p \<in> set paths then None else ns_disk s p)) s"
  unfolding remove_files_def
proof (induction paths arbitrary: s)
  case (Cons q paths)
  let ?s1 = "if ns_disk s q = None then s else ns_disk_update (\<lambda>D. D(q := None)) s"
  have "\<forall>p. ns_disk ?s1 p = (if p = q then None else ns_disk s p)" by auto
  then show ?case using rets_mono [OF Cons.IH [of ?s1]]
    by (auto simp: rets_simps unlink_def split: if_splits)
qed (simp add: rets_simps)

lemma pid_paths_not_config [simp]:
  "PERSISTED_CONFIG_PATH OS \<noteq> DAEMON_PID_PATH OS" "PERSISTED_CONFIG_PATH OS \<noteq> OPENVPN_PID_PATH OS"
  by (simp_all add: PERSISTED_CONFIG_PATH_def DAEMON_PID_PATH_def OPENVPN_PID_PATH_def)

lemma configured_paths_kept: "only_pids OS s s' \<Longrightarrow> configured_paths OS loads (ns_disk s') = configured_paths OS loads (ns_disk s)"
proof -
  assume "only_pids OS s s'"
  then have "ns_disk s' (PERSISTED_CONFIG_PATH OS) = ns_disk s (PERSISTED_CONFIG_PATH OS)"
    unfolding only_pids_def using pid_paths_not_config by blast
  then show ?thesis by (simp add: configured_paths_def)
qed

text \<open>
  C37. \<^verbatim>\<open>coda reset\<close> forgets the node: when it returns, no runtime file is left, neither at the fixed paths
  nor at the key and profile paths the persisted configuration named, no other file was created or
  altered, and the next start finds nothing persisted.
\<close>

theorem reset_forgets_node:
  assumes "reset V fuel s = (Ret n, s')"
  shows "n = 0 \<and> (\<exists>ps. configured_paths (v_os V) (v_loads V) (ns_disk s) = Inr ps
     \<and> (\<forall>p. ns_disk s' p = (if p \<in> set (runtime_paths (v_os V)) \<union> set ps then None else ns_disk s p)))
   \<and> load_persisted_runtime_config (v_os V) (v_loads V) (v_str_of V) (ns_disk s') = Inr []"
proof -
  let ?OS = "v_os V"
  let ?Q = "\<lambda>n s'. n = 0 \<and> (\<exists>ps. configured_paths ?OS (v_loads V) (ns_disk s) = Inr ps
     \<and> (\<forall>p. ns_disk s' p = (if p \<in> set (runtime_paths ?OS) \<union> set ps then None else ns_disk s p)))"
  let ?clean = "\<lambda>paths. bind (remove_files paths) (\<lambda>_. ret 0)"
  have clean: "rets (?clean paths) ?Q s2"
    if o: "only_pids ?OS s s2" and r: "read_reset_paths ?OS (v_loads V) (ns_disk s2) = Inr paths" for s2 paths
  proof -
    from r configured_paths_kept [OF o] obtain ps where
      ps: "configured_paths ?OS (v_loads V) (ns_disk s) = Inr ps" "paths = remdups (runtime_paths ?OS @ ps)"
      by (auto simp: read_reset_paths_def sbind_eq_Inr)
    have same: "ns_disk s2 p = ns_disk s p" if "p \<notin> set (runtime_paths ?OS)" for p
    proof -
      have "p \<noteq> DAEMON_PID_PATH ?OS" "p \<noteq> OPENVPN_PID_PATH ?OS" using that by (auto simp: runtime_paths_def)
      then show ?thesis using o unfolding only_pids_def by blast
    qed
    show ?thesis unfolding rets_bind rets_ret
      by (rule rets_mono [OF rets_remove_files]) (use ps same in auto)
  qed
  have "rets (reset V fuel) ?Q s"
    unfolding reset_def rets_bind rets_gets rets_of_sum
    by (rule rets_mono [OF stays_rets [OF pids_stop]], rule rets_mono [OF stays_rets [OF pids_kill]], intro allI impI,
        rule clean [unfolded rets_bind], erule (1) only_pids.le_trans)
  from retsD [OF this assms] have Q: "?Q n s'" .
  then have "ns_disk s' (PERSISTED_CONFIG_PATH ?OS) = None" by (auto simp: runtime_paths_def)
  then show ?thesis using Q by (simp add: load_persisted_runtime_config_def)
qed

theorem reset_forgets_node_witness:
  "\<exists>s'. reset (sample_svc (ConnectRaise (TransportErr []))) 100 (fresh_node\<lparr>ns_disk := secure_disk\<rparr>) = (Ret 0, s')
     \<and> ns_disk s' (PERSISTED_PRIVATE_KEY_PATH sample_os) = None"
proof -
  let ?V = "sample_svc (ConnectRaise (TransportErr []))" and ?s = "fresh_node\<lparr>ns_disk := secure_disk\<rparr>"
  have "fst (reset ?V 100 ?s) = Ret 0" by code_simp
  from run_eq [where m = "reset ?V 100", OF this] obtain s' where run: "reset ?V 100 ?s = (Ret 0, s')" by blast
  have "v_os ?V = sample_os" by (simp add: sample_svc_def)
  with reset_forgets_node [OF run] have "ns_disk s' (PERSISTED_PRIVATE_KEY_PATH sample_os) = None"
    by (auto simp: runtime_paths_def)
  with run show ?thesis by blast
qed

end
