(* ===== verification/Heartbeat.thy ===== *)
theory Heartbeat
  imports Config Auth Effects
begin

text \<open>
  The heartbeat reporter: \<^verbatim>\<open>server/heartbeat.py\<close>.  The state is the client and the log of its awaits;
  \<open>hb_env\<close> answers the cloud, the clock and the sleeps, shows the consumer's fields as they are at that
  moment, and tells whether \<^verbatim>\<open>stop\<close> was called from another task meanwhile.
\<close>

section \<open>State\<close>

record heartbeat_client =
  hb_url :: string
  hb_qpu_id :: string
  hb_jwt_private_key :: string
  hb_jwt_key_id :: string
  hb_interval :: int
  hb_connectivity :: "int list list option"
  hb_extra_headers :: "(string \<times> string) list"
  hb_running :: bool

text \<open>A response: status, parsed body, text and reason phrase; or an exception of the client.\<close>

datatype hb_reply = HbResponse nat "exc + json" string string | HbRaise exc

datatype hb_event =
    HbPost string "(string \<times> string) list" dict hb_reply
  | HbSleep int "exc option"

record hb_state =
  hs_client :: heartbeat_client
  hs_log :: "hb_event list"

record consumer_view =
  cv_current_job :: "string option"
  cv_last_job_at :: "string option"
  cv_redis_healthy :: bool

record hb_env =
  h_jwt :: jwt_encode
  h_clock :: "hb_event list \<Rightarrow> int"
  h_consumer :: "hb_event list \<Rightarrow> consumer_view"
  h_post :: "hb_event list \<Rightarrow> hb_reply"
  h_sleep :: "hb_event list \<Rightarrow> exc option"
  h_stopped :: "hb_event list \<Rightarrow> bool"
  h_str :: "json \<Rightarrow> string"

definition DEFAULT_INTERVAL :: int where "DEFAULT_INTERVAL = 30"

definition heartbeat_init ::
  "string \<Rightarrow> string \<Rightarrow> string \<Rightarrow> string \<Rightarrow> int \<Rightarrow> int list list option \<Rightarrow> (string \<times> string) list option \<Rightarrow> heartbeat_client" where
  "heartbeat_init url qpu_id key key_id interval connectivity extra =
     \<lparr>hb_url = url, hb_qpu_id = qpu_id, hb_jwt_private_key = key, hb_jwt_key_id = key_id, hb_interval = interval,
      hb_connectivity = connectivity, hb_extra_headers = (case extra of None \<Rightarrow> [] | Some h \<Rightarrow> h), hb_running = False\<rparr>"

section \<open>One heartbeat\<close>

definition format_heartbeat_error_response :: "(json \<Rightarrow> string) \<Rightarrow> exc + json \<Rightarrow> string \<Rightarrow> string \<Rightarrow> string" where
  "format_heartbeat_error_response str_of body txt reason =
     (case (case body of Inr (JObj d) \<Rightarrow> map_of d ''error'' | _ \<Rightarrow> None) of
        Some v \<Rightarrow> str_of v
      | None \<Rightarrow> if strip txt \<noteq> [] then take 800 (strip txt)
                else if reason \<noteq> [] then reason else ''unknown error'')"

definition opt_str :: "string option \<Rightarrow> json" where
  "opt_str v = (case v of None \<Rightarrow> JNull | Some s \<Rightarrow> JStr s)"

definition heartbeat_body :: "heartbeat_client \<Rightarrow> consumer_view \<Rightarrow> dict" where
  "heartbeat_body c v =
     [(''current_job'', opt_str (cv_current_job v)), (''last_job_at'', opt_str (cv_last_job_at v)),
      (''redis_healthy'', JBool (cv_redis_healthy v)),
      (''connectivity'', case hb_connectivity c of
                           None \<Rightarrow> JNull | Some es \<Rightarrow> JList (map (\<lambda>e. JList (map JInt e)) es))]"

definition send :: "hb_env \<Rightarrow> (hb_state, unit) prog" where
  "send H =
     bind (gets hs_client) (\<lambda>c.
     bind (gets (\<lambda>s. sign_token (h_jwt H) (h_clock H (hs_log s)) (hb_qpu_id c) (hb_jwt_private_key c)
             DEFAULT_ISSUER DEFAULT_TTL (Some (hb_jwt_key_id c)))) (\<lambda>r.
     bind (of_sum r) (\<lambda>token.
     bind (gets (\<lambda>s. (heartbeat_body c (h_consumer H (hs_log s)), h_post H (hs_log s)))) (\<lambda>(body, reply).
     bind (modify (hs_log_update (\<lambda>h. HbPost (hb_url c)
             (dict_merge [(''Authorization'', ''Bearer '' @ token)] (hb_extra_headers c)) body reply # h))) (\<lambda>_.
       case reply of
         HbRaise e \<Rightarrow> raise e
       | HbResponse st j txt reason \<Rightarrow>
           if 200 \<le> st \<and> st < 300 then ret ()
           else raise (Coda (HeartbeatRejectedError (''HTTP '' @ show_nat st @ '' from heartbeat endpoint: ''
                  @ format_heartbeat_error_response (h_str H) j txt reason))))))))"

section \<open>The loop\<close>

text \<open>
  Both handlers only log.  An exception of the error formatting (\<^verbatim>\<open>str\<close> of a JSON value) does not occur.
  \<open>notice_stop\<close> is the effect of a \<^verbatim>\<open>stop\<close> from outside that happened during the awaits so far.
\<close>

definition hb_stop :: "heartbeat_client \<Rightarrow> heartbeat_client" where
  "hb_stop c = c\<lparr>hb_running := False\<rparr>"

definition notice_stop :: "hb_env \<Rightarrow> (hb_state, unit) prog" where
  "notice_stop H = modify (\<lambda>s. if h_stopped H (hs_log s) then hs_client_update hb_stop s else s)"

definition beat :: "hb_env \<Rightarrow> (hb_state, unit) prog" where
  "beat H =
     bind (catch (send H) (\<lambda>e. if is_Exception e then Some (ret ()) else None)) (\<lambda>_.
     bind (gets (\<lambda>s. (hb_interval (hs_client s), h_sleep H (hs_log s)))) (\<lambda>(d, r).
     bind (modify (hs_log_update (\<lambda>h. HbSleep d r # h))) (\<lambda>_.
       case r of Some e \<Rightarrow> raise e | None \<Rightarrow> notice_stop H)))"

fun run_while :: "hb_env \<Rightarrow> nat \<Rightarrow> (hb_state, unit) prog" where
  "run_while H fuel =
     bind (gets (\<lambda>s. hb_running (hs_client s))) (\<lambda>running.
       if \<not> running then ret ()
       else (case fuel of 0 \<Rightarrow> stuck | Suc fuel' \<Rightarrow> bind (beat H) (\<lambda>_. run_while H fuel')))"

declare run_while.simps [simp del]

definition run :: "hb_env \<Rightarrow> nat \<Rightarrow> (hb_state, unit) prog" where
  "run H fuel =
     bind (modify (hs_client_update (hb_running_update (\<lambda>_. True)))) (\<lambda>_. run_while H fuel)"

section \<open>Properties\<close>

text \<open>A heartbeat of the client, with some token, about some state of the consumer.\<close>

definition is_beat :: "heartbeat_client \<Rightarrow> hb_event \<Rightarrow> bool" where
  "is_beat c ev \<longleftrightarrow> (\<exists>token v reply. ev = HbPost (hb_url c)
     (dict_merge [(''Authorization'', ''Bearer '' @ token)] (hb_extra_headers c)) (heartbeat_body c v) reply)"

text \<open>The newest-first log of \<open>n\<close> rounds: a pause, and a heartbeat before it unless signing failed.\<close>

inductive rounds :: "heartbeat_client \<Rightarrow> nat \<Rightarrow> hb_event list \<Rightarrow> bool" for c where
  rounds_0: "rounds c 0 []"
| rounds_beat: "rounds c n h \<Longrightarrow> is_beat c ev \<Longrightarrow> rounds c (Suc n) (HbSleep (hb_interval c) None # ev # h)"
| rounds_unsigned: "rounds c n h \<Longrightarrow> rounds c (Suc n) (HbSleep (hb_interval c) None # h)"

lemma rounds_sleeps: "rounds c n h \<Longrightarrow> length (filter (\<lambda>ev. \<exists>d. ev = HbSleep d None) h) = n"
  by (induction rule: rounds.induct) (auto simp: is_beat_def)

lemma rounds_append: "rounds c m h \<Longrightarrow> rounds c n h' \<Longrightarrow> rounds c (m + n) (h @ h')"
  by (induction rule: rounds.induct) (auto intro: rounds.intros)

lemma rounds_one:
  "evs = [HbSleep (hb_interval c) None] \<or> (\<exists>ev. evs = [HbSleep (hb_interval c) None, ev] \<and> is_beat c ev) \<Longrightarrow> rounds c 1 evs"
  using rounds_beat [OF rounds_0] rounds_unsigned [OF rounds_0] by auto

text \<open>Nothing but the cancellation of the task interrupts a send, sleeps return, nobody calls \<^verbatim>\<open>stop\<close>.\<close>

definition undisturbed :: "hb_env \<Rightarrow> bool" where
  "undisturbed H \<longleftrightarrow> (\<forall>h. h_sleep H h = None \<and> \<not> h_stopped H h \<and> h_post H h \<noteq> HbRaise CancelledError)
     \<and> (\<forall>c p k. h_jwt H c p k \<noteq> Inl CancelledError)"

lemma beat_undisturbed:
  assumes "undisturbed H"
  shows "wp (beat H) (\<lambda>r s'. r = Ret () \<and> hs_client s' = hs_client s \<and> (\<exists>evs. hs_log s' = evs @ hs_log s
     \<and> (evs = [HbSleep (hb_interval (hs_client s)) None]
        \<or> (\<exists>ev. evs = [HbSleep (hb_interval (hs_client s)) None, ev] \<and> is_beat (hs_client s) ev)))) s"
proof -
  let ?c = "hs_client s"
  have u: "h_sleep H h = None" "\<not> h_stopped H h" "h_post H h \<noteq> HbRaise CancelledError" "h_jwt H c p k \<noteq> Inl CancelledError" for h c p k
    using assms by (auto simp: undisturbed_def)
  have E: "is_Exception e" if "e \<noteq> CancelledError" for e using that by (simp add: is_Exception_def)
  show ?thesis
  proof (cases "sign_token (h_jwt H) (h_clock H (hs_log s)) (hb_qpu_id ?c) (hb_jwt_private_key ?c) DEFAULT_ISSUER
      DEFAULT_TTL (Some (hb_jwt_key_id ?c))")
    case (Inl e)
    then have "e \<noteq> CancelledError" using u(4) by (auto simp: sign_token_def)
    then show ?thesis using Inl u E by (simp add: beat_def send_def notice_stop_def wp_simps Let_def)
  next
    case (Inr token)
    have b: "is_beat ?c (HbPost (hb_url ?c) (dict_merge [(''Authorization'', ''Bearer '' @ token)] (hb_extra_headers ?c))
        (heartbeat_body ?c v) reply)" for v reply by (auto simp: is_beat_def)
    show ?thesis
    proof (cases "h_post H (hs_log s)")
      case (HbResponse st j tx reason)
      then show ?thesis using Inr u E b by (simp add: beat_def send_def notice_stop_def wp_simps Let_def)
    next
      case (HbRaise e)
      then have "e \<noteq> CancelledError" using u(3) [of "hs_log s"] by auto
      then show ?thesis using Inr HbRaise u E b by (simp add: beat_def send_def notice_stop_def wp_simps Let_def)
    qed
  qed
qed

lemma run_while_undisturbed:
  assumes "undisturbed H" and "hb_running (hs_client s)"
  shows "wp (run_while H n) (\<lambda>r s'. r = Stuck \<and> (\<exists>evs. hs_log s' = evs @ hs_log s \<and> rounds (hs_client s) n evs)) s"
  using assms(2)
proof (induction n arbitrary: s)
  case 0
  then show ?case by (subst run_while.simps) (simp add: wp_simps rounds_0)
next
  case (Suc n)
  let ?Q = "\<lambda>r s'. r = Stuck \<and> (\<exists>evs. hs_log s' = evs @ hs_log s \<and> rounds (hs_client s) (Suc n) evs)"
  have "wp (beat H) (\<lambda>r s1. case r of Ret a \<Rightarrow> wp (run_while H n) ?Q s1 | Raise e \<Rightarrow> ?Q (Raise e) s1 | Stuck \<Rightarrow> ?Q Stuck s1) s"
  proof (rule wp_mono [OF beat_undisturbed [OF assms(1)]])
    fix r and s1 :: hb_state
    assume "r = Ret () \<and> hs_client s1 = hs_client s \<and> (\<exists>evs. hs_log s1 = evs @ hs_log s
       \<and> (evs = [HbSleep (hb_interval (hs_client s)) None]
          \<or> (\<exists>ev. evs = [HbSleep (hb_interval (hs_client s)) None, ev] \<and> is_beat (hs_client s) ev)))"
    then obtain evs where 1: "r = Ret ()" "hs_client s1 = hs_client s" "hs_log s1 = evs @ hs_log s" "rounds (hs_client s) 1 evs"
      using rounds_one by blast
    have "wp (run_while H n) ?Q s1"
    proof (rule wp_mono [OF Suc.IH])
      fix r2 and s2 :: hb_state
      assume "r2 = Stuck \<and> (\<exists>evs. hs_log s2 = evs @ hs_log s1 \<and> rounds (hs_client s1) n evs)"
      then obtain e2 where 2: "r2 = Stuck" "hs_log s2 = e2 @ hs_log s1" "rounds (hs_client s) n e2" using 1(2) by auto
      show "?Q r2 s2" using rounds_append [OF 2(3) 1(4)] 2 1(3) by (intro conjI exI [of _ "e2 @ evs"]) simp_all
    qed (use 1 Suc.prems in simp)
    then show "case r of Ret a \<Rightarrow> wp (run_while H n) ?Q s1 | Raise e \<Rightarrow> ?Q (Raise e) s1 | Stuck \<Rightarrow> ?Q Stuck s1"
      using 1(1) by simp
  qed
  then show ?case using Suc.prems by (subst run_while.simps) (simp add: wp_bind wp_gets)
qed

text \<open>
  C17. Heartbeats keep coming whatever the cloud answers: rejections, transport errors, malformed bodies
  and even failing signatures never end the loop.  As long as the task is not cancelled and \<^verbatim>\<open>stop\<close> is not
  called, any number \<open>n\<close> of rounds is carried out, each with a pause of the configured interval and, unless
  its token could not be signed, one authenticated report of the consumer's state before it.
\<close>

theorem heartbeats_never_cease:
  assumes "undisturbed H"
  shows "\<exists>s' evs. run H n s = (Stuck, s') \<and> hs_log s' = evs @ hs_log s
     \<and> rounds ((hs_client s)\<lparr>hb_running := True\<rparr>) n evs \<and> length (filter (\<lambda>ev. \<exists>d. ev = HbSleep d None) evs) = n"
proof -
  let ?s = "s\<lparr>hs_client := (hs_client s)\<lparr>hb_running := True\<rparr>\<rparr>"
  have r: "run H n s = run_while H n ?s" by (cases s) (simp add: run_def bind_def modify_def)
  have "wp (run_while H n) (\<lambda>r s'. r = Stuck \<and> (\<exists>evs. hs_log s' = evs @ hs_log ?s \<and> rounds (hs_client ?s) n evs)) ?s"
    by (rule run_while_undisturbed [OF assms]) simp
  then obtain s' evs where "run_while H n ?s = (Stuck, s')" "hs_log s' = evs @ hs_log s" "rounds (hs_client ?s) n evs"
    by (auto simp: wp_def split: prod.splits)
  with r rounds_sleeps [OF this(3)] show ?thesis by auto
qed

definition rejecting_cloud :: hb_env where
  "rejecting_cloud = \<lparr>h_jwt = (\<lambda>_ _ _. Inr ''t''), h_clock = (\<lambda>_. 0), h_consumer = (\<lambda>_. \<lparr>cv_current_job = None, cv_last_job_at = None,
     cv_redis_healthy = True\<rparr>), h_post = (\<lambda>_. HbResponse 422 (Inl (ValueErr [])) ''bad'' []), h_sleep = (\<lambda>_. None),
     h_stopped = (\<lambda>_. False), h_str = (\<lambda>_. [])\<rparr>"

definition sample_heartbeat :: hb_state where
  "sample_heartbeat = \<lparr>hs_client = heartbeat_init ''u'' ''q'' ''pem'' ''k1'' DEFAULT_INTERVAL None None, hs_log = []\<rparr>"

theorem heartbeats_never_cease_witness:
  "\<exists>s' evs. run rejecting_cloud 3 sample_heartbeat = (Stuck, s') \<and> hs_log s' = evs @ []
     \<and> length (filter (\<lambda>ev. \<exists>d. ev = HbSleep d None) evs) = 3"
proof -
  have u: "undisturbed rejecting_cloud" by (simp add: undisturbed_def rejecting_cloud_def)
  have "hs_log sample_heartbeat = []" by (simp add: sample_heartbeat_def)
  with heartbeats_never_cease [OF u, of 3 sample_heartbeat] show ?thesis by metis
qed

end
