(* ===== verification/App.thy ===== *)
theory App
  imports Loop_Safety Guard_Safety CLI Heartbeat
begin

text \<open>
  The application: \<^verbatim>\<open>server/app.py\<close>.  Startup wires settings, provisioning, the VPN guard, the executor and
  the three clients together; shutdown joins the background tasks and tears everything down.  The
  background tasks themselves are modelled with their components; here shutdown sees how each of them
  ended.
\<close>

section \<open>Startup\<close>

record app_state =
  ap_settings :: settings
  ap_guard :: guard
  ap_runner :: nat
  ap_webhook :: webhook_client
  ap_consumer :: consumer
  ap_heartbeat :: heartbeat_client

text \<open>
  \<open>ae_executor\<close> is the argument of \<^verbatim>\<open>create_app\<close>, \<open>ae_redis\<close> the exception \<^verbatim>\<open>aioredis.from_url\<close> raises on a URL,
  \<open>ae_batches\<close> whether an executor has a callable \<^verbatim>\<open>run_batch\<close>.
\<close>

record app_env = cli_env +
  ae_executor :: "nat option"
  ae_redis :: "string \<Rightarrow> exc option"
  ae_batches :: "nat \<Rightarrow> bool"

definition app_guard :: "settings \<Rightarrow> guard" where
  "app_guard st =
     guard_init (vpn_probe_urls st) (s_vpn_interface_hint st) (s_vpn_check_interval_sec st) (s_vpn_required st)
       (s_node_connect_headers st)"

definition check_vpn :: "settings \<Rightarrow> vpn_status \<Rightarrow> exc + unit" where
  "check_vpn st status =
     (if \<not> vs_ok status \<and> s_vpn_required st \<and> \<not> s_allow_degraded_startup st
      then Inl (OtherExc (''RuntimeError: VPN preflight failed: '' @ vs_reason status)) else Inr ())"

definition choose_runner :: "app_env \<Rightarrow> settings \<Rightarrow> exc + nat" where
  "choose_runner A st =
     (case ae_executor A of Some x \<Rightarrow> Inr x | None \<Rightarrow> load_executor (v_py (ce_svc A)) (s_executor_factory st))"

definition wire :: "app_env \<Rightarrow> settings \<Rightarrow> guard \<Rightarrow> nat \<Rightarrow> int list list option \<Rightarrow> app_state" where
  "wire A st g runner connectivity =
     (let webhook = webhook_client_init (s_qpu_id st) (s_jwt_private_key st) (s_jwt_key_id st) MAX_RETRIES
                      (Some (s_node_connect_headers st)) in
      \<lparr>ap_settings = st, ap_guard = g, ap_runner = runner, ap_webhook = webhook,
       ap_consumer = consumer_init webhook (s_qpu_id st) (ae_batches A runner),
       ap_heartbeat = heartbeat_init (heartbeat_url st) (s_qpu_id st) (s_jwt_private_key st) (s_jwt_key_id st)
         (s_heartbeat_interval_sec st) connectivity (Some (s_node_connect_headers st))\<rparr>)"

definition startup :: "app_env \<Rightarrow> nat \<Rightarrow> (cli_state, app_state) prog" where
  "startup A fuel =
     (let V = ce_svc A in
      bind (load_settings (cli_env.truncate A)) (\<lambda>st0.
      bind (modify (c_node_update (ns_settings_update (\<lambda>_. st0)))) (\<lambda>_.
      bind (on_node (connect_settings V fuel)) (\<lambda>_.
      bind (gets (\<lambda>s. ns_settings (c_node s))) (\<lambda>st.
      bind (gets (\<lambda>s. preflight (v_net V (ns_log (c_node s))) (app_guard st))) (\<lambda>r.
      bind (of_sum r) (\<lambda>(status, g).
      bind (of_sum (check_vpn st status)) (\<lambda>_.
      bind (case ae_redis A (s_redis_url st) of None \<Rightarrow> ret () | Some e \<Rightarrow> raise e) (\<lambda>_.
      bind (of_sum (choose_runner A st)) (\<lambda>runner.
      bind (of_sum (resolve_connectivity_from_device_spec (v_device V runner))) (\<lambda>connectivity.
        ret (wire A st g runner connectivity))))))))))))"

section \<open>Endpoints\<close>

definition state_value :: "service_state \<Rightarrow> string" where
  "state_value s =
     (case s of BOOTING \<Rightarrow> ''booting'' | VPN_UNAVAILABLE \<Rightarrow> ''vpn_unavailable'' | READY \<Rightarrow> ''ready'' | DEGRADED \<Rightarrow> ''degraded'')"

definition health :: dict where
  "health = [(''status'', JStr ''ok'')]"

definition check_readiness :: "guard \<Rightarrow> consumer \<Rightarrow> dict" where
  "check_readiness g c =
     [(''ready'', JBool (is_ready g \<and> redis_healthy c)), (''vpn_state'', JStr (state_value (g_state g))),
      (''redis_healthy'', JBool (redis_healthy c)), (''current_job'', opt_str (current_job_id c))]"

text \<open>\<open>timed_out\<close>: \<^verbatim>\<open>asyncio.wait_for\<close> gave up after five seconds.\<close>

definition ready :: "bool \<Rightarrow> guard \<Rightarrow> consumer \<Rightarrow> nat \<times> dict" where
  "ready timed_out g c =
     (if timed_out then (503, [(''ready'', JBool False), (''reason'', JStr ''health check timeout'')])
      else let result = check_readiness g c in
        (case map_of result ''ready'' of Some v \<Rightarrow> if truthy v then 200 else 503 | None \<Rightarrow> 503, result))"

text \<open>Ready means a healthy tunnel and a healthy Redis connection, in time.\<close>

lemma ready_iff: "fst (ready timed_out g c) = 200 \<longleftrightarrow> \<not> timed_out \<and> g_state g = READY \<and> redis_healthy c"
  by (simp add: ready_def check_readiness_def is_ready_def Let_def)

section \<open>Shutdown\<close>

text \<open>
  How each awaited step of the shutdown ends: a background task returned (\<open>None\<close>), was cancelled, or had
  failed with an exception.  Draining is the consumer's own operation.
\<close>

record shutdown_env =
  sd_watch :: "exc option"
  sd_close_heartbeat :: "exc option"
  sd_heartbeat :: "exc option"
  sd_consumer :: "exc option"
  sd_close_webhook :: "exc option"
  sd_close_redis :: "exc option"

datatype step = GuardStopped | HeartbeatClosed | Drained bool | WebhookClosed | RedisClosed | DaemonKilled

record run_state =
  rs_node :: node_state
  rs_app :: app_state
  rs_steps :: "step list"

definition did :: "step \<Rightarrow> (run_state, unit) prog" where
  "did x = modify (rs_steps_update (\<lambda>xs. xs @ [x]))"

text \<open>\<^verbatim>\<open>with suppress(CancelledError): await task\<close>, and a plain await.\<close>

definition join_task :: "exc option \<Rightarrow> ('s, unit) prog" where
  "join_task r = (case r of None \<Rightarrow> ret () | Some e \<Rightarrow> if e = CancelledError then ret () else raise e)"

definition awaits :: "exc option \<Rightarrow> ('s, unit) prog" where
  "awaits r = (case r of None \<Rightarrow> ret () | Some e \<Rightarrow> raise e)"

text \<open>Operations of the consumer and on the node, on the state of the application.\<close>

definition on_consumer :: "(consumer, 'a) prog \<Rightarrow> (run_state, 'a) prog" where
  "on_consumer m = (\<lambda>s. case m (ap_consumer (rs_app s)) of (r, c) \<Rightarrow> (r, rs_app_update (ap_consumer_update (\<lambda>_. c)) s))"

definition on_machine :: "(node_state, 'a) prog \<Rightarrow> (run_state, 'a) prog" where
  "on_machine m = (\<lambda>s. case m (rs_node s) of (r, n) \<Rightarrow> (r, s\<lparr>rs_node := n\<rparr>))"

definition shutdown :: "svc_env \<Rightarrow> env \<Rightarrow> shutdown_env \<Rightarrow> (run_state, unit) prog" where
  "shutdown V E X =
     bind (modify (rs_app_update (ap_guard_update guard_stop))) (\<lambda>_. bind (did GuardStopped) (\<lambda>_.
     bind (join_task (sd_watch X)) (\<lambda>_.
     bind (modify (rs_app_update (ap_heartbeat_update hb_stop))) (\<lambda>_.
     bind (awaits (sd_close_heartbeat X)) (\<lambda>_. bind (did HeartbeatClosed) (\<lambda>_.
     bind (join_task (sd_heartbeat X)) (\<lambda>_.
     bind (on_consumer (drain E)) (\<lambda>drained. bind (did (Drained drained)) (\<lambda>_.
     bind (join_task (sd_consumer X)) (\<lambda>_.
     bind (awaits (sd_close_webhook X)) (\<lambda>_. bind (did WebhookClosed) (\<lambda>_.
     bind (awaits (sd_close_redis X)) (\<lambda>_. bind (did RedisClosed) (\<lambda>_.
     bind (on_machine (kill_openvpn_daemon V)) (\<lambda>_.
       did DaemonKilled)))))))))))))))"

section \<open>Properties\<close>

lemma rets_on_node [rets_simps]: "rets (on_node m) Q s = rets m (\<lambda>a n. Q a (s\<lparr>c_node := n\<rparr>)) (c_node s)"
  by (simp add: rets_def wp_def on_node_def split: prod.split)

lemma preflight_state:
  "preflight N g = Inr (status, g') \<Longrightarrow> g' = g\<lparr>g_state := if vs_ok status then READY else VPN_UNAVAILABLE\<rparr>
     \<and> (vs_ok status \<or> g_vpn_required g)"
  using preflight_cases by fastforce


definition sample_app_env :: app_env where
  "sample_app_env =
     \<lparr>ce_svc = sample_svc (ConnectResponse 200 [] (Inr (JObj sample_bundle))), ce_env_dict = (\<lambda>_. [(''node_token'', JStr ''t'')]),
      ce_convert = (\<lambda>_. Inr ((default_settings sample_os)\<lparr>s_node_token := ''t'', s_vpn_required := False\<rparr>)),
      ae_executor = None, ae_redis = (\<lambda>_. None), ae_batches = (\<lambda>_. False)\<rparr>"


text \<open>The awaits of the shutdown up to the drain, and all of them, end without an exception that counts.\<close>

definition ends_well :: "exc option \<Rightarrow> bool" where
  "ends_well r \<longleftrightarrow> r = None \<or> r = Some CancelledError"

definition reaches_drain :: "shutdown_env \<Rightarrow> bool" where
  "reaches_drain X \<longleftrightarrow> ends_well (sd_watch X) \<and> sd_close_heartbeat X = None \<and> ends_well (sd_heartbeat X)"

lemma wp_join_task: "wp (join_task r) Q s = (if ends_well r then Q (Ret ()) s else Q (Raise (the r)) s)"
  by (auto simp: join_task_def ends_well_def wp_simps split: option.split)

lemma wp_awaits: "wp (awaits r) Q s = (case r of None \<Rightarrow> Q (Ret ()) s | Some e \<Rightarrow> Q (Raise e) s)"
  by (simp add: awaits_def wp_simps split: option.split)

lemma wp_did: "wp (did x) Q s = Q (Ret ()) (rs_steps_update (\<lambda>xs. xs @ [x]) s)"
  by (simp add: did_def wp_simps)

lemma wp_on_consumer:
  "wp (on_consumer m) Q s = wp m (\<lambda>r c. Q r (rs_app_update (ap_consumer_update (\<lambda>_. c)) s)) (ap_consumer (rs_app s))"
  by (simp add: wp_def on_consumer_def split: prod.split)

lemma wp_on_machine: "wp (on_machine m) Q s = wp m (\<lambda>r n. Q r (s\<lparr>rs_node := n\<rparr>)) (rs_node s)"
  by (simp add: wp_def on_machine_def split: prod.split)

lemma kill_removes_pid:
  "wp (kill_openvpn_daemon V) (\<lambda>r n. (\<exists>b. r = Ret b \<and> ns_disk n (OPENVPN_PID_PATH (v_os V)) = None) \<or> (\<exists>e. r = Raise e)) s"
  by (auto simp: kill_openvpn_daemon_def wp_simps Let_def split: option.split kill_reply.split)

text \<open>
  C16. Shutdown order and its gap: the guard is always told to stop; in-flight work is drained exactly when the
  watch and heartbeat tasks had not failed and the heartbeat closed, and a drain that succeeded leaves a stopped
  consumer without pending deliveries; the OpenVPN daemon is only dealt with when every step before succeeded,
  and then its process id file is gone.  A background task that failed with an exception therefore leaves jobs
  undrained and the tunnel up.
\<close>

theorem shutdown_order:
  assumes "shutdown V E X s = (r, s')" and "rs_steps s = []"
  shows "GuardStopped \<in> set (rs_steps s') \<and> \<not> g_running (ap_guard (rs_app s'))
   \<and> (\<forall>b. Drained b \<in> set (rs_steps s') \<longleftrightarrow> reaches_drain X \<and> fst (drain E (ap_consumer (rs_app s))) = Ret b)
   \<and> (Drained True \<in> set (rs_steps s') \<longrightarrow>
        \<not> c_running (ap_consumer (rs_app s')) \<and> c_pending_batch_delivery (ap_consumer (rs_app s')) = None)
   \<and> (DaemonKilled \<in> set (rs_steps s') \<longleftrightarrow> r = Ret ())
   \<and> (r = Ret () \<longrightarrow> reaches_drain X \<and> (\<exists>b. rs_steps s' = [GuardStopped, HeartbeatClosed, Drained b, WebhookClosed, RedisClosed, DaemonKilled])
        \<and> ns_disk (rs_node s') (OPENVPN_PID_PATH (v_os V)) = None)
   \<and> (\<forall>e. sd_watch X = Some e \<and> e \<noteq> CancelledError \<longrightarrow> r = Raise e \<and> rs_steps s' = [GuardStopped] \<and> rs_node s' = rs_node s)"
    (is "?P r s'")
proof -
  note rules = wp_bind wp_modify wp_join_task wp_awaits wp_did wp_on_consumer wp_on_machine
  have bad: "\<exists>e. x = Some e \<and> e \<noteq> CancelledError" if "\<not> ends_well x" for x using that by (auto simp: ends_well_def)
  have "wp (shutdown V E X) ?P s"
  proof (cases "reaches_drain X")
    case False
    then consider (watch) "\<not> ends_well (sd_watch X)"
      | (close) e where "ends_well (sd_watch X)" "sd_close_heartbeat X = Some e"
      | (beat) "ends_well (sd_watch X)" "sd_close_heartbeat X = None" "\<not> ends_well (sd_heartbeat X)"
      by (auto simp: reaches_drain_def)
    then show ?thesis
      by cases (use False assms(2) in \<open>auto simp: shutdown_def rules guard_stop_def dest!: bad, auto simp: ends_well_def\<close>)
  next
    case True
    then have t: "ends_well (sd_watch X)" "sd_close_heartbeat X = None" "ends_well (sd_heartbeat X)"
      "\<not> (\<exists>e. sd_watch X = Some e \<and> e \<noteq> CancelledError)"
      by (auto simp: reaches_drain_def ends_well_def)
    obtain dr c where d: "drain E (ap_consumer (rs_app s)) = (dr, c)" by (cases "drain E (ap_consumer (rs_app s))")
    have clean: "dr = Ret True \<longrightarrow> \<not> c_running c \<and> c_pending_batch_delivery c = None" using wpD [OF wp_drain d] by simp
    have wd: "wp (drain E) Q (ap_consumer (rs_app s)) = Q dr c" for Q by (rule wp_run [where m = "drain E", OF d])
    show ?thesis
    proof (cases "(\<exists>b. dr = Ret b) \<and> ends_well (sd_consumer X) \<and> sd_close_webhook X = None \<and> sd_close_redis X = None")
      case all: True
      then show ?thesis using True t assms(2) clean d
        by (auto simp: shutdown_def rules wd guard_stop_def intro!: wp_mono [OF kill_removes_pid]) (rule exI [of _ False], simp)
    next
      case False
      then show ?thesis using True t assms(2) clean d
        by (auto simp: shutdown_def rules wd guard_stop_def split: option.split outcome.split)
    qed
  qed
  then show ?thesis unfolding wp_def assms(1) prod.case .
qed

definition failed_watch :: shutdown_env where
  "failed_watch = \<lparr>sd_watch = Some (OtherExc ''PermissionError''), sd_close_heartbeat = None, sd_heartbeat = Some CancelledError,
     sd_consumer = Some CancelledError, sd_close_webhook = None, sd_close_redis = None\<rparr>"

definition sample_run :: run_state where
  "sample_run = \<lparr>rs_node = fresh_node, rs_app = wire sample_app_env sample_settings (app_guard sample_settings) 0 None, rs_steps = []\<rparr>"

theorem shutdown_order_witness:
  "\<exists>s'. shutdown (ce_svc sample_app_env) calm_env failed_watch sample_run = (Raise (OtherExc ''PermissionError''), s')
     \<and> rs_steps s' = [GuardStopped]"
proof -
  let ?V = "ce_svc sample_app_env"
  obtain r s' where run: "shutdown ?V calm_env failed_watch sample_run = (r, s')" by fastforce
  have "rs_steps sample_run = []" by (simp add: sample_run_def)
  from shutdown_order [OF run this] have "r = Raise (OtherExc ''PermissionError'') \<and> rs_steps s' = [GuardStopped]"
    by (simp add: failed_watch_def)
  with run show ?thesis by blast
qed

end
