(* ===== verification/Regex.thy ===== *)
theory Regex
  imports Prelude
begin

text \<open>
  The part of Python's \<^verbatim>\<open>re\<close> that the OpenQASM reader uses.  A pattern is a datatype; \<open>matches\<close> lists the ways
  a pattern matches a prefix of the text in the order in which the backtracking engine tries them, each
  with its groups and the rest of the text; \<^verbatim>\<open>re.match\<close> takes the first.  No pattern of the program has a
  group inside a repetition.
\<close>

section \<open>Patterns\<close>

text \<open>\<open>Many p n\<close> is a greedy repetition of a character class, at least \<open>n\<close> times.\<close>

datatype re =
    Lit string
  | Many "char \<Rightarrow> bool" nat
  | Seq re re
  | Cap re
  | Opt re
  | Rep re

fun re_groups :: "re \<Rightarrow> nat" where
  "re_groups (Lit _) = 0"
| "re_groups (Many _ _) = 0"
| "re_groups (Seq a b) = re_groups a + re_groups b"
| "re_groups (Cap a) = Suc (re_groups a)"
| "re_groups (Opt a) = re_groups a"
| "re_groups (Rep a) = 0"

type_synonym re_result = "string option list \<times> string"

function matches :: "re \<Rightarrow> string \<Rightarrow> re_result list" where
  "matches (Lit l) s = (if startswith s l then [([], drop (length l) s)] else [])"
| "matches (Many p n) s = map (\<lambda>i. ([], drop i s)) (rev [n..<Suc (length (takeWhile p s))])"
| "matches (Seq a b) s =
     concat (map (\<lambda>(c, r). map (\<lambda>(c', r'). (c @ c', r')) (matches b r)) (matches a s))"
| "matches (Cap a) s = map (\<lambda>(c, r). (Some (take (length s - length r) s) # c, r)) (matches a s)"
| "matches (Opt a) s = matches a s @ [(replicate (re_groups a) None, s)]"
| "matches (Rep a) s =
     concat (map (\<lambda>(c, r). if length r < length s then map (\<lambda>(c', r'). ([], r')) (matches (Rep a) r) else [])
       (matches a s)) @ [([], s)]"
  by pat_completeness auto
termination
  by (relation "measures [\<lambda>(a, s). size a, \<lambda>(a, s). length s]") auto

definition re_match :: "re \<Rightarrow> string \<Rightarrow> string option list option" where
  "re_match a s = (case matches a s of [] \<Rightarrow> None | (c, _) # _ \<Rightarrow> Some c)"

text \<open>\<^verbatim>\<open>findall\<close> for a pattern with one group and no empty match: the group of every match.\<close>

function findall :: "re \<Rightarrow> string \<Rightarrow> string list" where
  "findall a s =
     (case matches a s of
        (Some g # _, r) # _ \<Rightarrow> if length r < length s then g # findall a r else []
      | _ \<Rightarrow> (case s of [] \<Rightarrow> [] | _ # t \<Rightarrow> findall a t))"
  by pat_completeness auto
termination
  by (relation "measure (\<lambda>(a, s). length s)") auto

declare findall.simps [simp del]

section \<open>Matching\<close>

definition first_match :: "re \<Rightarrow> string \<Rightarrow> string option list \<Rightarrow> string \<Rightarrow> bool" where
  "first_match a s c r \<longleftrightarrow> (\<exists>more. matches a s = (c, r) # more)"

named_theorems re_rules \<open>first matches of patterns\<close>

lemma first_match_re: "first_match a s c r \<Longrightarrow> re_match a s = Some c"
  by (auto simp: first_match_def re_match_def)

lemma first_lit [re_rules]: "first_match (Lit l) (l @ r) [] r"
  by (simp add: first_match_def startswith_iff)

lemma first_many:
  assumes "\<forall>c \<in> set xs. p c" and "r = [] \<or> \<not> p (hd r)" and "n \<le> length xs"
  shows "first_match (Many p n) (xs @ r) [] r"
proof -
  have "takeWhile p (xs @ r) = xs" using assms(1,2) by (cases r) (simp_all add: takeWhile_append)
  then show ?thesis using assms(3) by (simp add: first_match_def)
qed

lemma first_seq: "first_match a s c r \<Longrightarrow> first_match b r c' r' \<Longrightarrow> first_match (Seq a b) s (c @ c') r'"
  by (auto simp: first_match_def)

lemma first_cap: "first_match a (xs @ r) c r \<Longrightarrow> first_match (Cap a) (xs @ r) (Some xs # c) r"
  by (auto simp: first_match_def)

lemma first_opt: "first_match a s c r \<Longrightarrow> first_match (Opt a) s c r"
  by (auto simp: first_match_def)

lemma first_opt_none: "matches a s = [] \<Longrightarrow> first_match (Opt a) s (replicate (re_groups a) None) s"
  by (auto simp: first_match_def)

lemma first_rep_stop: "matches a s = [] \<Longrightarrow> first_match (Rep a) s [] s"
  by (auto simp: first_match_def)

lemma first_rep_step:
  "first_match a s c r \<Longrightarrow> length r < length s \<Longrightarrow> first_match (Rep a) r [] r' \<Longrightarrow> first_match (Rep a) s [] r'"
  by (auto simp: first_match_def simp del: matches.simps(6)) (subst matches.simps, auto)

section \<open>Not matching\<close>

lemma no_lit: "\<not> startswith s l \<Longrightarrow> matches (Lit l) s = []"
  by simp

lemma no_seq: "matches a s = [] \<Longrightarrow> matches (Seq a b) s = []"
  by simp

lemma no_seq_lit_head: "s = [] \<or> hd s \<noteq> c \<Longrightarrow> matches (Seq (Lit (c # l)) b) s = []"
  by (cases s) (auto simp: startswith_iff)

text \<open>A class repetition followed by a character outside the class.\<close>

lemma no_many_then:
  assumes "\<forall>x \<in> set xs. p x" and "r = [] \<or> \<not> p (hd r) \<and> hd r \<noteq> c" and "\<not> p c"
    and "\<And>s. s = [] \<or> hd s \<noteq> c \<Longrightarrow> matches b s = []"
  shows "matches (Seq (Many p n) b) (xs @ r) = []"
proof -
  have tw: "takeWhile p (xs @ r) = xs" using assms(1,2) by (cases r) (auto simp: takeWhile_append)
  have b: "matches b (drop i (xs @ r)) = []" if "i \<le> length xs" for i
  proof (rule assms(4), cases "i = length xs")
    case True
    then show "drop i (xs @ r) = [] \<or> hd (drop i (xs @ r)) \<noteq> c" using assms(2) by auto
  next
    case False
    then have "i < length xs" using that by simp
    then have "hd (drop i (xs @ r)) = xs ! i" "xs ! i \<in> set xs" by (simp_all add: hd_drop_conv_nth nth_append)
    then show "drop i (xs @ r) = [] \<or> hd (drop i (xs @ r)) \<noteq> c" using assms(1,3) by metis
  qed
  show ?thesis using b b [of "length xs"] by (auto simp: tw)
qed

section \<open>Matching a text given in segments\<close>

text \<open>One rule per leading element of a sequence; the text is the segment it takes, then the rest.\<close>

lemma seq_lit [re_rules]: "first_match b r c r' \<Longrightarrow> first_match (Seq (Lit l) b) (l @ r) c r'"
  using first_seq [OF first_lit] by fastforce

lemma seq_many [re_rules]:
  assumes "\<forall>c \<in> set xs. p c" "n \<le> length xs" "r = [] \<or> \<not> p (hd r)" "first_match b r c r'"
  shows "first_match (Seq (Many p n) b) (xs @ r) c r'"
  using first_seq [OF first_many [OF assms(1,3,2)] assms(4)] by simp

lemma seq_cap_many [re_rules]:
  assumes "\<forall>c \<in> set xs. p c" "n \<le> length xs" "r = [] \<or> \<not> p (hd r)" "first_match b r c r'"
  shows "first_match (Seq (Cap (Many p n)) b) (xs @ r) (Some xs # c) r'"
  using first_seq [OF first_cap [OF first_many [OF assms(1,3,2)]] assms(4)] by simp

lemma lit_end [re_rules]: "first_match (Lit l) l [] []"
  using first_lit [of l "[]"] by simp

lemma no_many_lit:
  assumes "\<forall>x \<in> set xs. p x" and "r = [] \<or> \<not> p (hd r) \<and> hd r \<noteq> c" and "\<not> p c"
  shows "matches (Seq (Many p n) (Seq (Lit (c # l)) b)) (xs @ r) = []"
  by (rule no_many_then [OF assms]) (rule no_seq_lit_head)

end
