(* ===== verification/QASM.thy ===== *)
theory QASM
  imports Regex Errors
begin

text \<open>
  OpenQASM conversion: \<^verbatim>\<open>server/qasm.py\<close>.  The patterns are values of the pattern datatype of \<open>Regex\<close>, the two
  directions are functions on text.  \<open>qasm_env\<close> holds the texts that only occur in messages and the clock.
\<close>

section \<open>Patterns\<close>

definition isnumdot :: "char \<Rightarrow> bool" where "isnumdot c \<longleftrightarrow> isdigit c \<or> c = CHR ''.''"
definition notquote :: "char \<Rightarrow> bool" where "notquote c \<longleftrightarrow> c \<noteq> CHR 0x22"
definition notclose :: "char \<Rightarrow> bool" where "notclose c \<longleftrightarrow> c \<noteq> CHR '')''"

fun seqs :: "re list \<Rightarrow> re" where
  "seqs [] = Lit []"
| "seqs [a] = a"
| "seqs (a # b # as) = Seq a (seqs (b # as))"

definition HEADER_RE :: re where
  "HEADER_RE = seqs [Lit ''OPENQASM'', Many isspace 1, Many isnumdot 1, Many isspace 0, Lit '';'']"

definition INCLUDE_RE :: re where
  "INCLUDE_RE = seqs [Lit ''include'', Many isspace 1, Lit [CHR 0x22], Many notquote 1, Lit [CHR 0x22], Many isspace 0, Lit '';'']"

definition QUBIT_DECL_RE :: re where
  "QUBIT_DECL_RE = seqs [Lit ''qubit['', Cap (Many isdigit 1), Lit '']'', Many isspace 1, Many isword 1, Many isspace 0, Lit '';'']"

definition BIT_DECL_RE :: re where
  "BIT_DECL_RE = seqs [Lit ''bit['', Cap (Many isdigit 1), Lit '']'', Many isspace 1, Many isword 1, Many isspace 0, Lit '';'']"

definition MEASURE_RE :: re where
  "MEASURE_RE = seqs [Many isword 1, Lit ''['', Cap (Many isdigit 1), Lit '']'', Many isspace 0, Lit ''='', Many isspace 0,
     Lit ''measure'', Many isspace 1, Many isword 1, Lit ''['', Cap (Many isdigit 1), Lit '']'', Many isspace 0, Lit '';'']"

definition QREF_RE :: re where
  "QREF_RE = seqs [Many isword 1, Lit ''['', Many isdigit 1, Lit '']'']"

definition GATE_RE :: re where
  "GATE_RE = seqs
     [Cap (Many isword 1),
      Opt (seqs [Lit ''('', Cap (Many notclose 0), Lit '')'']),
      Many isspace 1,
      Cap (Seq QREF_RE (Rep (seqs [Many isspace 0, Lit '','', Many isspace 0, QREF_RE]))),
      Many isspace 0, Lit '';'']"

definition QUBIT_REF_RE :: re where
  "QUBIT_REF_RE = seqs [Many isword 1, Lit ''['', Cap (Many isdigit 1), Lit '']'']"

section \<open>Errors and environment\<close>

text \<open>An exception other than \<^verbatim>\<open>QASMConversionError\<close> leaves the converter as it is.\<close>

datatype qasm_error = QASMConversionError string | Uncaught exc

record qasm_env =
  q_repr :: "string \<Rightarrow> string"
  q_show_float :: "pyfloat \<Rightarrow> string"
  q_show_errors :: "ir_error list \<Rightarrow> string"
  q_now :: string

text \<open>\<^verbatim>\<open>math.pi / 2\<close> as a binary64 value.\<close>

definition HALF_PI :: rat where
  "HALF_PI = 884279719003555 / 562949953421312"

section \<open>From OpenQASM\<close>

definition gate_op_of :: "native_gate \<Rightarrow> int list \<Rightarrow> pyfloat list \<Rightarrow> qasm_error + gate_op" where
  "gate_op_of g qs ps = (case mk_GateOp g qs ps of Inl e \<Rightarrow> Inl (Uncaught (ValidationErr [e])) | Inr op \<Rightarrow> Inr op)"

definition unsupported :: "string \<Rightarrow> string \<Rightarrow> qasm_error" where
  "unsupported name target =
     QASMConversionError (''Gate '' @ [CHR 0x27] @ name @ [CHR 0x27] @ '' not supported for '' @ target)"

definition table_gate :: "(string \<times> native_gate \<times> bool) list \<Rightarrow> string \<Rightarrow> pyfloat list \<Rightarrow> int list \<Rightarrow> (qasm_error + gate_op) option" where
  "table_gate tbl name params qubits =
     map_option (\<lambda>(g, has_params).
       if g = ID then gate_op_of g qubits [Finite 0] else gate_op_of g qubits (if has_params then params else []))
       (map_of tbl name)"

definition openqasm_gate_to_ir_cz :: "string \<Rightarrow> pyfloat list \<Rightarrow> int list \<Rightarrow> qasm_error + gate_op" where
  "openqasm_gate_to_ir_cz name params qubits =
     (case table_gate [(''rx'', RX, True), (''ry'', RY, True), (''rz'', RZ, True), (''cz'', CZ, False), (''id'', ID, False)]
             name params qubits of
        None \<Rightarrow> Inl (unsupported name ''cz'') | Some r \<Rightarrow> r)"

definition openqasm_gate_to_ir_cnot :: "qasm_env \<Rightarrow> string \<Rightarrow> pyfloat list \<Rightarrow> int list \<Rightarrow> qasm_error + gate_op" where
  "openqasm_gate_to_ir_cnot Q name params qubits =
     (case table_gate [(''sx'', X90, False), (''rz'', VIRTUAL_Z, True), (''cx'', CNOT, False), (''id'', ID, False)]
             name params qubits of
        Some r \<Rightarrow> r
      | None \<Rightarrow>
          (case params of
             [p] \<Rightarrow>
               if name = ''ry'' then
                 (if isclose (1 / 10 ^ 12) (1 / 10 ^ 12) p (Finite (- HALF_PI)) then gate_op_of Y_MINUS_90 qubits []
                  else Inl (QASMConversionError (''ry('' @ q_show_float Q p @ '') not representable in cnot (only ry(-pi/2) maps to y_minus_90)'')))
               else Inl (unsupported name ''cnot'')
           | _ \<Rightarrow> Inl (unsupported name ''cnot'')))"

definition openqasm_gate_to_ir :: "qasm_env \<Rightarrow> string \<Rightarrow> pyfloat list \<Rightarrow> int list \<Rightarrow> string \<Rightarrow> qasm_error + gate_op" where
  "openqasm_gate_to_ir Q name params qubits target =
     (if target = ''cz'' then openqasm_gate_to_ir_cz name params qubits
      else if target = ''cnot'' then openqasm_gate_to_ir_cnot Q name params qubits
      else Inl (QASMConversionError (''Unsupported target: '' @ target)))"

definition int_of :: "string \<Rightarrow> qasm_error + int" where
  "int_of s = (case py_int s of None \<Rightarrow> Inl (Uncaught (ValueErr s)) | Some n \<Rightarrow> Inr n)"

definition float_of :: "string \<Rightarrow> qasm_error + pyfloat" where
  "float_of s = (case py_float (strip s) of None \<Rightarrow> Inl (Uncaught (ValueErr s)) | Some x \<Rightarrow> Inr x)"

record qasm_state =
  qs_num_qubits :: "int option"
  qs_gates :: "gate_op list"
  qs_measurements :: "int list"

definition group_text :: "string option list \<Rightarrow> nat \<Rightarrow> string" where
  "group_text g i = (case g ! i of None \<Rightarrow> [] | Some t \<Rightarrow> t)"

definition gate_line :: "qasm_env \<Rightarrow> string \<Rightarrow> string option list \<Rightarrow> qasm_error + gate_op" where
  "gate_line Q target g =
     sbind (if group_text g 1 = [] then Inr [] else smap float_of (split_on (CHR '','') (group_text g 1))) (\<lambda>params.
     sbind (smap int_of (findall QUBIT_REF_RE (group_text g 2))) (\<lambda>qubits.
       openqasm_gate_to_ir Q (group_text g 0) params qubits target))"

text \<open>One iteration of the loop over the lines.\<close>

definition read_line :: "qasm_env \<Rightarrow> string \<Rightarrow> qasm_state \<Rightarrow> string \<Rightarrow> qasm_error + qasm_state" where
  "read_line Q target st raw =
     (let line = strip raw in
      if line = [] \<or> startswith line ''//'' \<or> re_match HEADER_RE line \<noteq> None \<or> re_match INCLUDE_RE line \<noteq> None then Inr st
      else if re_match BIT_DECL_RE line \<noteq> None then Inr st
      else case re_match QUBIT_DECL_RE line of
        Some g \<Rightarrow>
          if qs_num_qubits st \<noteq> None
          then Inl (QASMConversionError ''Multiple qubit register declarations are not supported'')
          else sbind (int_of (group_text g 0)) (\<lambda>n. Inr (st\<lparr>qs_num_qubits := Some n\<rparr>))
      | None \<Rightarrow>
          (case re_match MEASURE_RE line of
             Some g \<Rightarrow> sbind (int_of (group_text g 1)) (\<lambda>q. Inr (st\<lparr>qs_measurements := qs_measurements st @ [q]\<rparr>))
           | None \<Rightarrow>
               (case re_match GATE_RE line of
                  Some g \<Rightarrow> sbind (gate_line Q target g) (\<lambda>op. Inr (st\<lparr>qs_gates := qs_gates st @ [op]\<rparr>))
                | None \<Rightarrow> Inl (QASMConversionError (''Unsupported QASM line: '' @ q_repr Q line)))))"

fun read_lines :: "qasm_env \<Rightarrow> string \<Rightarrow> qasm_state \<Rightarrow> string list \<Rightarrow> qasm_error + qasm_state" where
  "read_lines Q target st [] = Inr st"
| "read_lines Q target st (l # ls) = sbind (read_line Q target st l) (\<lambda>st'. read_lines Q target st' ls)"

definition default_metadata :: "qasm_env \<Rightarrow> ir_metadata" where
  "default_metadata Q =
     \<lparr>source_hash = ''sha256:from-qasm'', compiled_at = q_now Q, compiler_version = ''0.1.0'', optimization_level = 2\<rparr>"

definition openqasm_to_ir :: "qasm_env \<Rightarrow> string \<Rightarrow> string \<Rightarrow> ir_metadata option \<Rightarrow> qasm_error + native_gate_ir" where
  "openqasm_to_ir Q qasm target metadata =
     sbind (read_lines Q target \<lparr>qs_num_qubits = None, qs_gates = [], qs_measurements = []\<rparr> (splitlines (strip qasm))) (\<lambda>st.
       case qs_num_qubits st of
         None \<Rightarrow> Inl (QASMConversionError ''No qubit register declaration found'')
       | Some n \<Rightarrow>
           (case mk_NativeGateIR ''1.0'' target n (qs_gates st) (qs_measurements st)
                   (case metadata of None \<Rightarrow> default_metadata Q | Some m \<Rightarrow> m) of
              Inl es \<Rightarrow> Inl (QASMConversionError (q_show_errors Q es))
            | Inr ir \<Rightarrow> Inr ir))"

section \<open>To OpenQASM\<close>

definition no_mapping :: "string \<Rightarrow> string \<Rightarrow> qasm_error" where
  "no_mapping name target =
     QASMConversionError (''IR gate '' @ [CHR 0x27] @ name @ [CHR 0x27] @ '' has no OpenQASM mapping for '' @ target)"

definition ir_gate_to_openqasm_cz :: "string \<Rightarrow> pyfloat list \<Rightarrow> string \<Rightarrow> qasm_error + string" where
  "ir_gate_to_openqasm_cz name params qubits_str =
     (if name \<in> {''rx'', ''ry'', ''rz''}
      then Inr (name @ ''('' @ join '', '' (map format_float params) @ '') '' @ qubits_str @ '';'')
      else if name = ''virtual_z'' then
        (case params of
           [] \<Rightarrow> Inl (QASMConversionError (''IR gate '' @ [CHR 0x27] @ ''virtual_z'' @ [CHR 0x27] @ '' requires exactly one parameter''))
         | p # _ \<Rightarrow> Inr (''rz('' @ format_float p @ '') '' @ qubits_str @ '';''))
      else if name \<in> {''cz'', ''id''} then Inr (name @ '' '' @ qubits_str @ '';'')
      else Inl (no_mapping name ''cz''))"

definition ir_gate_to_openqasm_cnot :: "string \<Rightarrow> pyfloat list \<Rightarrow> string \<Rightarrow> qasm_error + string" where
  "ir_gate_to_openqasm_cnot name params qubits_str =
     (if name = ''x90'' then Inr (''sx '' @ qubits_str @ '';'')
      else if name = ''y_minus_90'' then Inr (''ry('' @ format_float (Finite (- HALF_PI)) @ '') '' @ qubits_str @ '';'')
      else if name = ''virtual_z'' then
        (case params of
           [] \<Rightarrow> Inl (Uncaught (OtherExc ''IndexError''))
         | p # _ \<Rightarrow> Inr (''rz('' @ format_float p @ '') '' @ qubits_str @ '';''))
      else if name = ''cnot'' then Inr (''cx '' @ qubits_str @ '';'')
      else if name = ''id'' then Inr (''id '' @ qubits_str @ '';'')
      else Inl (no_mapping name ''cnot''))"

definition show_qubit :: "int \<Rightarrow> string" where
  "show_qubit q = ''q['' @ show_int q @ '']''"

definition ir_gate_to_openqasm :: "gate_op \<Rightarrow> string \<Rightarrow> qasm_error + string" where
  "ir_gate_to_openqasm op target =
     (let name = gate_value (op_gate op); qubits_str = join '', '' (map show_qubit (op_qubits op)) in
      if target = ''cz'' then ir_gate_to_openqasm_cz name (op_params op) qubits_str
      else if target = ''cnot'' then ir_gate_to_openqasm_cnot name (op_params op) qubits_str
      else Inl (QASMConversionError (''Unsupported target: '' @ target)))"

definition measure_line :: "nat \<Rightarrow> int \<Rightarrow> string" where
  "measure_line i q = ''c['' @ show_nat i @ ''] = measure q['' @ show_int q @ ''];''"

fun measure_lines :: "nat \<Rightarrow> int list \<Rightarrow> string list" where
  "measure_lines i [] = []"
| "measure_lines i (q # qs) = measure_line i q # measure_lines (Suc i) qs"

definition head_lines :: "native_gate_ir \<Rightarrow> string list" where
  "head_lines ir =
     [''OPENQASM 3.0;'', ''include '' @ [CHR 0x22] @ ''stdgates.inc'' @ [CHR 0x22] @ '';'',
      ''qubit['' @ show_int (ir_num_qubits ir) @ ''] q;''] @
     (if ir_measurements ir = [] then [] else [''bit['' @ show_nat (length (ir_measurements ir)) @ ''] c;''])"

definition ir_to_openqasm :: "native_gate_ir \<Rightarrow> qasm_error + string" where
  "ir_to_openqasm ir =
     sbind (smap (\<lambda>op. ir_gate_to_openqasm op (ir_target ir)) (ir_gates ir)) (\<lambda>gate_lines.
       Inr (join [CHR 0x0A] (head_lines ir @ gate_lines @ measure_lines 0 (ir_measurements ir)) @ [CHR 0x0A]))"

end
