(* ===== verification/QASM_Roundtrip.thy ===== *)
theory QASM_Roundtrip
  imports QASM
begin

text \<open>
  The round trip through OpenQASM: what \<^verbatim>\<open>ir_to_openqasm\<close> prints, \<^verbatim>\<open>openqasm_to_ir\<close> reads back, up to the durations of
  \<^verbatim>\<open>id\<close> gates, for circuits whose parameters survive printing with fifteen digits.
\<close>

section \<open>Characters\<close>

lemma marks:
  "\<not> isword (CHR ''['')" "\<not> isword (CHR '']'')" "\<not> isword (CHR ''('')" "\<not> isword (CHR '' '')" "\<not> isword (CHR '';'')"
  "\<not> isword (CHR '','')" "\<not> isdigit (CHR '']'')" "\<not> isdigit (CHR ''['')" "\<not> isspace (CHR ''q'')" "\<not> isspace (CHR '';'')" "\<not> isspace (CHR ''='')"
  "\<not> isspace (CHR ''m'')" "\<not> isspace (CHR '','')" "isspace (CHR '' '')" "isword (CHR ''q'')" "isword (CHR ''c'')"
  "isword (CHR ''r'')" "isword (CHR ''x'')" "isword (CHR ''y'')" "isword (CHR ''z'')" "isword (CHR ''i'')" "isword (CHR ''d'')"
  "isword (CHR ''s'')" "\<not> notclose (CHR '')'')" "\<not> isspace (CHR ''['')" "\<not> isspace (CHR ''c'')"
  by (simp_all add: isword_def isdigit_def isspace_def notclose_def)

lemma show_nat_facts: "\<forall>c \<in> set (show_nat n). isdigit c" "Suc 0 \<le> length (show_nat n)"
  using show_nat_digits show_nat_nonempty [of n] by (auto simp: Suc_le_eq)

lemmas segs = marks show_nat_facts

section \<open>Declarations and measurements\<close>

lemma qubit_decl: "re_match QUBIT_DECL_RE (''qubit['' @ show_nat n @ ''] q;'') = Some [Some (show_nat n)]"
proof -
  have "first_match QUBIT_DECL_RE (''qubit['' @ show_nat n @ '']'' @ '' '' @ ''q'' @ [] @ '';'') [Some (show_nat n)] []"
    unfolding QUBIT_DECL_RE_def seqs.simps by (intro re_rules) (simp_all add: segs)
  then show ?thesis using first_match_re by fastforce
qed

lemma bit_decl: "re_match BIT_DECL_RE (''bit['' @ show_nat n @ ''] c;'') = Some [Some (show_nat n)]"
proof -
  have "first_match BIT_DECL_RE (''bit['' @ show_nat n @ '']'' @ '' '' @ ''c'' @ [] @ '';'') [Some (show_nat n)] []"
    unfolding BIT_DECL_RE_def seqs.simps by (intro re_rules) (simp_all add: segs)
  then show ?thesis using first_match_re by fastforce
qed

lemma measure_match:
  "re_match MEASURE_RE (''c['' @ show_nat i @ ''] = measure q['' @ show_nat n @ ''];'') = Some [Some (show_nat i), Some (show_nat n)]"
proof -
  have "first_match MEASURE_RE (''c'' @ ''['' @ show_nat i @ '']'' @ '' '' @ ''='' @ '' '' @ ''measure'' @ '' '' @ ''q'' @ ''['' @ show_nat n
      @ '']'' @ [] @ '';'') [Some (show_nat i), Some (show_nat n)] []"
    unfolding MEASURE_RE_def seqs.simps by (intro re_rules) (simp_all add: segs)
  then show ?thesis using first_match_re by fastforce
qed

section \<open>Gates\<close>

text \<open>A line that no declaration pattern matches, by its first characters.\<close>

definition plain_start :: "string \<Rightarrow> bool" where
  "plain_start l \<longleftrightarrow> l \<noteq> [] \<and> \<not> startswith l ''//'' \<and> \<not> startswith l ''OPENQASM'' \<and> \<not> startswith l ''include''
     \<and> \<not> startswith l ''bit['' \<and> \<not> startswith l ''qubit[''"

lemma plain_start_no_match:
  assumes "plain_start l"
  shows "re_match HEADER_RE l = None" "re_match INCLUDE_RE l = None" "re_match BIT_DECL_RE l = None" "re_match QUBIT_DECL_RE l = None"
  using assms by (simp_all add: plain_start_def re_match_def HEADER_RE_def INCLUDE_RE_def BIT_DECL_RE_def QUBIT_DECL_RE_def
      del: matches.simps(1) add: no_lit)

lemma qref: "first_match QREF_RE (show_qubit (int n) @ r) [] r"
proof -
  have "first_match QREF_RE (''q'' @ ''['' @ show_nat n @ '']'' @ r) [] r"
    unfolding QREF_RE_def seqs.simps by (intro re_rules) (simp_all add: segs)
  then show ?thesis by (simp add: show_qubit_def show_int_def)
qed

lemma refs_rest:
  "first_match (Rep (seqs [Many isspace 0, Lit '','', Many isspace 0, QREF_RE]))
     (concat (map (\<lambda>n. '', '' @ show_qubit (int n)) ns) @ '';'') [] '';''"
proof (induction ns)
  case Nil
  have "matches (seqs [Many isspace 0, Lit '','', Many isspace 0, QREF_RE]) ([] @ '';'') = []"
    unfolding seqs.simps by (rule no_many_lit) (simp_all add: marks)
  then show ?case by (simp add: first_rep_stop)
next
  case (Cons n ns)
  let ?r = "concat (map (\<lambda>n. '', '' @ show_qubit (int n)) ns) @ '';''"
  have "first_match (seqs [Many isspace 0, Lit '','', Many isspace 0, QREF_RE]) ([] @ '','' @ '' '' @ show_qubit (int n) @ ?r) [] ?r"
    unfolding seqs.simps by (intro re_rules qref) (simp_all add: marks show_qubit_def)
  from first_rep_step [OF this _ Cons.IH] show ?case by (simp add: show_qubit_def)
qed

lemma join_refs:
  "join '', '' (map show_qubit (map int (n # ns))) = show_qubit (int n) @ concat (map (\<lambda>n. '', '' @ show_qubit (int n)) ns)"
  by (induction ns arbitrary: n) simp_all

definition refs :: "nat list \<Rightarrow> string" where
  "refs ns = join '', '' (map show_qubit (map int ns))"

lemma refs_Cons: "refs (n # ns) = show_qubit (int n) @ concat (map (\<lambda>n. '', '' @ show_qubit (int n)) ns)"
  unfolding refs_def join_refs ..

lemma refs_Nil: "refs [] = []"
  by (simp add: refs_def)

lemma refs_capture:
  assumes "ns \<noteq> []"
  shows "first_match (Cap (Seq QREF_RE (Rep (seqs [Many isspace 0, Lit '','', Many isspace 0, QREF_RE])))) (refs ns @ '';'') [Some (refs ns)] '';''"
proof -
  obtain n ms where ns: "ns = n # ms" using assms by (cases ns) auto
  let ?c = "concat (map (\<lambda>n. '', '' @ show_qubit (int n)) ms)"
  have "first_match (Seq QREF_RE (Rep (seqs [Many isspace 0, Lit '','', Many isspace 0, QREF_RE])))
      (show_qubit (int n) @ ?c @ '';'') ([] @ []) '';''"
    by (rule first_seq [OF qref refs_rest])
  then show ?thesis unfolding refs_def ns join_refs by (intro first_cap) simp
qed

lemma refs_head: "ns \<noteq> [] \<Longrightarrow> \<exists>t. refs ns = CHR ''q'' # t"
proof -
  assume "ns \<noteq> []"
  then obtain n ms where ns: "ns = n # ms" by (cases ns) auto
  show ?thesis unfolding refs_def ns join_refs by (simp add: show_qubit_def)
qed

lemma gate_tail:
  assumes "ns \<noteq> []"
  shows "first_match (seqs [Many isspace 1, Cap (Seq QREF_RE (Rep (seqs [Many isspace 0, Lit '','', Many isspace 0, QREF_RE]))),
     Many isspace 0, Lit '';'']) ('' '' @ refs ns @ '';'') [Some (refs ns)] []"
proof -
  have "first_match (seqs [Many isspace 0, Lit '';'']) ([] @ '';'') [] []"
    unfolding seqs.simps by (intro re_rules) (simp_all add: marks)
  from first_seq [OF refs_capture [OF assms]] this
  have "first_match (Seq (Cap (Seq QREF_RE (Rep (seqs [Many isspace 0, Lit '','', Many isspace 0, QREF_RE]))))
      (seqs [Many isspace 0, Lit '';''])) (refs ns @ '';'') ([Some (refs ns)] @ []) []" by fastforce
  then show ?thesis using refs_head [OF assms] unfolding seqs.simps
    by (intro seq_many) (auto simp: marks)
qed

lemma gate_match_plain:
  assumes "\<forall>c \<in> set name. isword c" "name \<noteq> []" "ns \<noteq> []"
  shows "re_match GATE_RE (name @ '' '' @ refs ns @ '';'') = Some [Some name, None, Some (refs ns)]"
proof -
  have "matches (seqs [Lit ''('', Cap (Many notclose 0), Lit '')'']) ('' '' @ refs ns @ '';'') = []"
    unfolding seqs.simps by (rule no_seq_lit_head) simp
  from first_seq [OF first_opt_none [OF this] gate_tail [OF assms(3)]] show ?thesis
    unfolding GATE_RE_def seqs.simps
    by (intro first_match_re [where r = "[]"] seq_cap_many) (use assms in \<open>auto simp: marks Suc_le_eq\<close>)
qed

lemma gate_match_params:
  assumes "\<forall>c \<in> set name. isword c" "name \<noteq> []" "ns \<noteq> []" "\<forall>c \<in> set ps. notclose c"
  shows "re_match GATE_RE (name @ ''('' @ ps @ '')'' @ '' '' @ refs ns @ '';'') = Some [Some name, Some ps, Some (refs ns)]"
proof -
  have "first_match (seqs [Lit ''('', Cap (Many notclose 0), Lit '')'']) (''('' @ ps @ '')'' @ '' '' @ refs ns @ '';'') [Some ps] ('' '' @ refs ns @ '';'')"
    unfolding seqs.simps by (intro re_rules) (use assms in \<open>simp_all add: marks\<close>)
  from first_seq [OF first_opt [OF this] gate_tail [OF assms(3)]] show ?thesis
    unfolding GATE_RE_def seqs.simps
    by (intro first_match_re [where r = "[]"] seq_cap_many) (use assms in \<open>auto simp: marks Suc_le_eq\<close>)
qed

lemma findall_refs: "findall QUBIT_REF_RE (refs ns) = map show_nat ns"
proof -
  have here: "first_match QUBIT_REF_RE (show_qubit (int n) @ r) [Some (show_nat n)] r" for n r
  proof -
    have "first_match QUBIT_REF_RE (''q'' @ ''['' @ show_nat n @ '']'' @ r) [Some (show_nat n)] r"
      unfolding QUBIT_REF_RE_def seqs.simps by (intro re_rules) (simp_all add: segs)
    then show ?thesis by (simp add: show_qubit_def show_int_def)
  qed
  have step: "findall QUBIT_REF_RE (show_qubit (int n) @ r) = show_nat n # findall QUBIT_REF_RE r" for n r
    using here [of n r] by (subst findall.simps) (auto simp: first_match_def show_qubit_def)
  have skip: "findall QUBIT_REF_RE (c # r) = findall QUBIT_REF_RE r" if "\<not> isword c" "c \<noteq> CHR ''[''" for c r
  proof -
    have "matches QUBIT_REF_RE ([] @ c # r) = []"
      unfolding QUBIT_REF_RE_def seqs.simps by (rule no_many_lit) (use that in \<open>simp_all add: marks\<close>)
    then show ?thesis by (subst findall.simps) simp
  qed
  have rest: "findall QUBIT_REF_RE (concat (map (\<lambda>n. '', '' @ show_qubit (int n)) ms)) = map show_nat ms" for ms
  proof (induction ms)
    case Nil
    have "matches QUBIT_REF_RE ([] @ []) = []"
      unfolding QUBIT_REF_RE_def seqs.simps by (rule no_many_lit) (simp_all add: marks)
    then show ?case by (subst findall.simps) simp
  next
    case (Cons m ms)
    then show ?case by (simp add: skip marks step)
  qed
  show ?thesis
  proof (cases ns)
    case Nil
    then show ?thesis using rest [of "[]"] by (simp add: refs_def)
  next
    case (Cons n ms)
    then show ?thesis using step [of n] rest [of ms] unfolding refs_def Cons join_refs by simp
  qed
qed

section \<open>Reading printed lines\<close>

definition add_gate :: "qasm_state \<Rightarrow> gate_op \<Rightarrow> qasm_state" where
  "add_gate st op = st\<lparr>qs_gates := qs_gates st @ [op]\<rparr>"

lemma strip_semicolon: "l \<noteq> [] \<Longrightarrow> \<not> isspace (hd l) \<Longrightarrow> strip (l @ '';'') = l @ '';''"
  by (rule strip_id) (cases l, auto simp: marks)

lemma int_of_show: "n < 100 \<Longrightarrow> int_of (show_nat n) = Inr (int n)"
proof -
  assume "n < 100"
  then have "n < 10 ^ Suc 1" by simp
  then have "length (show_nat n) \<le> 4300" using show_nat_length [of n 1] by simp
  from py_int_show_nat [OF this, of "[]"] show ?thesis by (simp add: int_of_def)
qed

lemma ints_of_show: "\<forall>n \<in> set ns. n < 100 \<Longrightarrow> smap int_of (map show_nat ns) = Inr (map int ns)"
  by (induction ns) (simp_all add: int_of_show)

lemma float_chars_closed: "\<forall>c \<in> set (format_float p). notclose c" "CHR '','' \<notin> set (format_float p)"
proof -
  have "float_char c \<Longrightarrow> notclose c \<and> c \<noteq> CHR '',''" for c
    by (auto simp: float_char_def isdigit_def notclose_def)
  then show "\<forall>c \<in> set (format_float p). notclose c" "CHR '','' \<notin> set (format_float p)"
    using format_float_chars by blast+
qed

lemma no_measure:
  assumes "\<forall>c \<in> set name. isword c" "hd r = CHR '' '' \<or> hd r = CHR ''(''" "r \<noteq> []"
  shows "re_match MEASURE_RE (name @ r) = None"
proof -
  have "matches MEASURE_RE (name @ r) = []"
    unfolding MEASURE_RE_def seqs.simps by (rule no_many_lit) (use assms in \<open>auto simp: marks\<close>)
  then show ?thesis by (simp add: re_match_def)
qed

lemma read_gate_line:
  assumes "plain_start l" "strip l = l" "re_match MEASURE_RE l = None" "re_match GATE_RE l = Some g" "gate_line Q t g = Inr op"
  shows "read_line Q t st l = Inr (add_gate st op)"
  using assms plain_start_no_match [OF assms(1)] by (simp add: read_line_def add_gate_def) (simp add: plain_start_def)

lemma gate_names:
  assumes "name \<in> {''rx'', ''ry'', ''rz'', ''cz'', ''id'', ''sx'', ''cx''}"
  shows "\<forall>c \<in> set name. isword c" "name \<noteq> []" "\<not> isspace (hd name)" "plain_start (name @ r)"
  using assms isword_not_space by (auto simp: marks plain_start_def startswith_iff)

lemma read_plain_gate:
  assumes "name \<in> {''cz'', ''id'', ''sx'', ''cx''}" "ns \<noteq> []" "\<forall>n \<in> set ns. n < 100"
    and "openqasm_gate_to_ir Q name [] (map int ns) t = Inr op"
  shows "read_line Q t st (name @ '' '' @ refs ns @ '';'') = Inr (add_gate st op)"
proof (rule read_gate_line)
  have n: "name \<in> {''rx'', ''ry'', ''rz'', ''cz'', ''id'', ''sx'', ''cx''}" using assms(1) by blast
  note facts = gate_names [OF n]
  show "plain_start (name @ '' '' @ refs ns @ '';'')" by (rule facts)
  show "strip (name @ '' '' @ refs ns @ '';'') = name @ '' '' @ refs ns @ '';''"
    using strip_semicolon [of "name @ '' '' @ refs ns"] facts(2,3) by simp
  show "re_match MEASURE_RE (name @ '' '' @ refs ns @ '';'') = None" by (rule no_measure) (use facts in simp_all)
  show "re_match GATE_RE (name @ '' '' @ refs ns @ '';'') = Some [Some name, None, Some (refs ns)]"
    by (rule gate_match_plain [OF facts(1,2) assms(2)])
  show "gate_line Q t [Some name, None, Some (refs ns)] = Inr op"
    using assms(4) ints_of_show [OF assms(3)] by (simp add: gate_line_def group_text_def findall_refs)
qed

lemma read_param_gate:
  assumes "name \<in> {''rx'', ''ry'', ''rz''}" "ns \<noteq> []" "\<forall>n \<in> set ns. n < 100" "py_float (format_float p) = Some p'"
    and "openqasm_gate_to_ir Q name [p'] (map int ns) t = Inr op"
  shows "read_line Q t st (name @ ''('' @ format_float p @ '')'' @ '' '' @ refs ns @ '';'') = Inr (add_gate st op)"
    (is "read_line Q t st ?l = _")
proof (rule read_gate_line)
  have n: "name \<in> {''rx'', ''ry'', ''rz'', ''cz'', ''id'', ''sx'', ''cx''}" using assms(1) by blast
  note facts = gate_names [OF n]
  show "plain_start ?l" by (rule facts)
  show "strip ?l = ?l" using strip_semicolon [of "name @ ''('' @ format_float p @ '')'' @ '' '' @ refs ns"] facts(2,3) by simp
  show "re_match MEASURE_RE ?l = None" by (rule no_measure) (use facts in simp_all)
  show "re_match GATE_RE ?l = Some [Some name, Some (format_float p), Some (refs ns)]"
    by (rule gate_match_params [OF facts(1,2) assms(2) float_chars_closed(1)])
  show "gate_line Q t [Some name, Some (format_float p), Some (refs ns)] = Inr op"
    using assms(4,5) ints_of_show [OF assms(3)]
    by (simp add: gate_line_def group_text_def findall_refs split_on_no_sep [OF float_chars_closed(2)] float_of_def strip_format_float)
qed

section \<open>One gate\<close>

lemma format_half_pi: "format_float (Finite (- HALF_PI)) = ''-1.5707963267949''"
  by code_simp

lemma parse_half_pi: "py_float ''-1.5707963267949'' = Some (Finite (- (884279719003557 / 562949953421312)))"
  by code_simp

lemma close_half_pi:
  "isclose (1 / 10 ^ 12) (1 / 10 ^ 12) (Finite (- (884279719003557 / 562949953421312))) (Finite (- HALF_PI))"
proof -
  have "round_double (1 / 281474976710656) = Finite (1 / 281474976710656)" by code_simp
  then show ?thesis by (simp add: isclose_def HALF_PI_def le_float_def Let_def)
qed

text \<open>A parameter that fifteen digits determine; the gates that the target's OpenQASM can express.\<close>

definition printable :: "gate_op \<Rightarrow> bool" where
  "printable op \<longleftrightarrow> op_gate op = ID \<or> (\<forall>p \<in> set (op_params op). py_float (format_float p) = Some p)"

definition expressible :: "string \<Rightarrow> gate_op \<Rightarrow> bool" where
  "expressible t op \<longleftrightarrow> t = ''cz'' \<or> t = ''cnot'' \<and> op_gate op \<notin> {RX, RY, RZ}"

definition drop_duration :: "gate_op \<Rightarrow> gate_op" where
  "drop_duration op = (if op_gate op = ID then op\<lparr>op_params := [Finite 0]\<rparr> else op)"

definition one_line :: "string \<Rightarrow> bool" where
  "one_line l \<longleftrightarrow> (\<forall>c \<in> set l. \<not> islinebreak c)"

lemma one_line_append [simp]: "one_line (a @ b) \<longleftrightarrow> one_line a \<and> one_line b"
  by (auto simp: one_line_def)

lemma one_line_Cons [simp]: "one_line (c # l) \<longleftrightarrow> \<not> islinebreak c \<and> one_line l" "one_line []"
  by (auto simp: one_line_def)

lemma one_line_parts: "one_line (show_nat n)" "one_line (format_float p)" "one_line (refs ns)"
proof -
  show n: "one_line (show_nat n)" for n
    using show_nat_digits isdigit_not_space islinebreak_isspace unfolding one_line_def by blast
  show "one_line (format_float p)"
    using format_float_chars float_char_not_space islinebreak_isspace unfolding one_line_def by blast
  have sep: "\<not> islinebreak (CHR '','')" "\<not> islinebreak (CHR '' '')" "\<not> islinebreak (CHR ''q'')"
    "\<not> islinebreak (CHR ''['')" "\<not> islinebreak (CHR '']'')" by (simp_all add: islinebreak_def)
  have "one_line (concat (map (\<lambda>n. '', '' @ show_qubit (int n)) ms))" for ms
    by (induction ms) (simp_all add: sep show_qubit_def show_int_def n)
  then show "one_line (refs ns)"
    by (cases ns) (simp_all add: refs_Cons refs_Nil sep show_qubit_def show_int_def n)
qed

text \<open>What a line must do for the round trip of its gate.\<close>

definition ends :: "string \<Rightarrow> bool" where
  "ends l \<longleftrightarrow> (\<exists>r. l = r @ '';'')"

lemma ends_append [simp]: "ends l \<Longrightarrow> ends (r @ l)" "ends l \<Longrightarrow> ends (c # l)" "ends '';''"
  unfolding ends_def by (metis append_assoc, metis append_Cons, metis append_Nil)

definition carries :: "qasm_env \<Rightarrow> string \<Rightarrow> gate_op \<Rightarrow> string \<Rightarrow> bool" where
  "carries Q t op l \<longleftrightarrow> one_line l \<and> ends l \<and> (\<forall>st. read_line Q t st l = Inr (add_gate st op))"

lemma wf_one_param: "wf_op op \<Longrightarrow> op_gate op \<in> {RX, RY, RZ, VIRTUAL_Z} \<Longrightarrow> \<exists>p. op_params op = [p]"
  by (auto simp: wf_op_def gate_nparams_def length_Suc_conv)

lemma qubit_refs: "op_qubits op = map int ns \<Longrightarrow> join '', '' (map show_qubit (op_qubits op)) = refs ns"
  by (simp add: refs_def)

lemma rebuilt_gate: "wf_op op \<Longrightarrow> gate_op_of (op_gate op) (op_qubits op) (op_params op) = Inr op"
  using mk_GateOp_iff [of "op_gate op" "op_qubits op" "op_params op" op] by (simp add: gate_op_of_def)

lemma rebuilt_id: "wf_op op \<Longrightarrow> op_gate op = ID \<Longrightarrow> gate_op_of ID (op_qubits op) [Finite 0] = Inr (drop_duration op)"
  using mk_GateOp_iff [of ID "op_qubits op" "[Finite 0]" "drop_duration op"]
  by (simp add: gate_op_of_def drop_duration_def wf_op_def gate_nparams_def)

lemma line_marks: "c \<in> set ''rxyzcids (;)'' \<Longrightarrow> \<not> islinebreak c"
  by (auto simp: islinebreak_def)

lemma carries_plain:
  assumes "name \<in> {''cz'', ''id'', ''sx'', ''cx''}" "ns \<noteq> []" "\<forall>n \<in> set ns. n < 100"
    and "openqasm_gate_to_ir Q name [] (map int ns) t = Inr op"
  shows "carries Q t op (name @ '' '' @ refs ns @ '';'')"
  unfolding carries_def
proof (intro conjI allI read_plain_gate assms)
  show "one_line (name @ '' '' @ refs ns @ '';'')" using assms(1) by (auto simp: one_line_parts line_marks)
qed simp

lemma carries_param:
  assumes "name \<in> {''rx'', ''ry'', ''rz''}" "ns \<noteq> []" "\<forall>n \<in> set ns. n < 100" "py_float (format_float p) = Some p'"
    and "openqasm_gate_to_ir Q name [p'] (map int ns) t = Inr op"
  shows "carries Q t op (name @ ''('' @ format_float p @ '')'' @ '' '' @ refs ns @ '';'')"
  unfolding carries_def
proof (intro conjI allI read_param_gate [where p' = p'] assms)
  show "one_line (name @ ''('' @ format_float p @ '')'' @ '' '' @ refs ns @ '';'')"
    using assms(1) by (auto simp: one_line_parts line_marks)
qed simp

lemma gate_carried_cz:
  assumes wf: "wf_op op" and "op_gate op \<in> {RX, RY, RZ, CZ, ID}" "printable op"
    and qs: "op_qubits op = map int ns" "ns \<noteq> []" "\<forall>n \<in> set ns. n < 100"
  shows "\<exists>l. ir_gate_to_openqasm op ''cz'' = Inr l \<and> carries Q ''cz'' (drop_duration op) l"
proof -
  note build = rebuilt_gate [OF wf, unfolded qs(1)]
  note defs = openqasm_gate_to_ir_def openqasm_gate_to_ir_cz_def table_gate_def ir_gate_to_openqasm_def ir_gate_to_openqasm_cz_def
  consider (rot) "op_gate op \<in> {RX, RY, RZ}" | (cz) "op_gate op = CZ" | (id) "op_gate op = ID" using assms(2) by blast
  then show ?thesis
  proof cases
    case rot
    then obtain p where p: "op_params op = [p]" using wf_one_param [OF wf] by blast
    let ?n = "gate_value (op_gate op)"
    have n: "?n \<in> {''rx'', ''ry'', ''rz''}" and d: "drop_duration op = op" using rot by (auto simp: drop_duration_def)
    have "py_float (format_float p) = Some p" using assms(3) rot p by (auto simp: printable_def)
    moreover have "openqasm_gate_to_ir Q ?n [p] (map int ns) ''cz'' = Inr op" using rot build p by (auto simp: defs)
    ultimately have "carries Q ''cz'' op (?n @ ''('' @ format_float p @ '')'' @ '' '' @ refs ns @ '';'')"
      by (intro carries_param n qs)
    moreover have "ir_gate_to_openqasm op ''cz'' = Inr (?n @ ''('' @ format_float p @ '')'' @ '' '' @ refs ns @ '';'')"
      using n p qubit_refs [OF qs(1)] by (auto simp: defs Let_def)
    ultimately show ?thesis unfolding d by blast
  next
    case cz
    then have p: "op_params op = []" using wf by (simp add: wf_op_def gate_nparams_def)
    have "carries Q ''cz'' op (''cz'' @ '' '' @ refs ns @ '';'')"
      by (rule carries_plain [OF _ qs(2,3)]) (use cz build p in \<open>simp_all add: defs\<close>)
    then show ?thesis using cz qubit_refs [OF qs(1)] by (simp add: defs Let_def drop_duration_def)
  next
    case id
    have "carries Q ''cz'' (drop_duration op) (''id'' @ '' '' @ refs ns @ '';'')"
      by (rule carries_plain [OF _ qs(2,3)]) (use id rebuilt_id [OF wf id, unfolded qs(1)] in \<open>simp_all add: defs\<close>)
    then show ?thesis using id qubit_refs [OF qs(1)] by (simp add: defs Let_def)
  qed
qed

lemma gate_carried_cnot:
  assumes wf: "wf_op op" and "op_gate op \<in> {X90, Y_MINUS_90, VIRTUAL_Z, CNOT, ID}" "printable op"
    and qs: "op_qubits op = map int ns" "ns \<noteq> []" "\<forall>n \<in> set ns. n < 100"
  shows "\<exists>l. ir_gate_to_openqasm op ''cnot'' = Inr l \<and> carries Q ''cnot'' (drop_duration op) l"
proof -
  note build = rebuilt_gate [OF wf, unfolded qs(1)]
  note defs = openqasm_gate_to_ir_def openqasm_gate_to_ir_cnot_def table_gate_def ir_gate_to_openqasm_def ir_gate_to_openqasm_cnot_def
  consider (x90) "op_gate op = X90" | (ym) "op_gate op = Y_MINUS_90" | (vz) "op_gate op = VIRTUAL_Z" | (cx) "op_gate op = CNOT"
    | (id) "op_gate op = ID" using assms(2) by blast
  then show ?thesis
  proof cases
    case x90
    then have p: "op_params op = []" using wf by (simp add: wf_op_def gate_nparams_def)
    have "carries Q ''cnot'' op (''sx'' @ '' '' @ refs ns @ '';'')"
      by (rule carries_plain [OF _ qs(2,3)]) (use x90 build p in \<open>simp_all add: defs\<close>)
    then show ?thesis using x90 qubit_refs [OF qs(1)] by (simp add: defs Let_def drop_duration_def)
  next
    case ym
    then have p: "op_params op = []" using wf by (simp add: wf_op_def gate_nparams_def)
    have "carries Q ''cnot'' op (''ry'' @ ''('' @ format_float (Finite (- HALF_PI)) @ '')'' @ '' '' @ refs ns @ '';'')"
      by (rule carries_param [OF _ qs(2,3) parse_half_pi [folded format_half_pi]])
        (use ym build p close_half_pi in \<open>simp_all add: defs\<close>)
    then show ?thesis using ym qubit_refs [OF qs(1)] by (simp add: defs Let_def drop_duration_def)
  next
    case vz
    then obtain p where p: "op_params op = [p]" using wf_one_param [OF wf] by blast
    have f: "py_float (format_float p) = Some p" using assms(3) vz p by (auto simp: printable_def)
    have "carries Q ''cnot'' op (''rz'' @ ''('' @ format_float p @ '')'' @ '' '' @ refs ns @ '';'')"
      by (rule carries_param [OF _ qs(2,3) f]) (use vz build p in \<open>simp_all add: defs\<close>)
    then show ?thesis using vz p qubit_refs [OF qs(1)] by (simp add: defs Let_def drop_duration_def)
  next
    case cx
    then have p: "op_params op = []" using wf by (simp add: wf_op_def gate_nparams_def)
    have "carries Q ''cnot'' op (''cx'' @ '' '' @ refs ns @ '';'')"
      by (rule carries_plain [OF _ qs(2,3)]) (use cx build p in \<open>simp_all add: defs\<close>)
    then show ?thesis using cx qubit_refs [OF qs(1)] by (simp add: defs Let_def drop_duration_def)
  next
    case id
    have "carries Q ''cnot'' (drop_duration op) (''id'' @ '' '' @ refs ns @ '';'')"
      by (rule carries_plain [OF _ qs(2,3)]) (use id rebuilt_id [OF wf id, unfolded qs(1)] in \<open>simp_all add: defs\<close>)
    then show ?thesis using id qubit_refs [OF qs(1)] by (simp add: defs Let_def)
  qed
qed

section \<open>What the reader accepts\<close>

lemma gate_op_of_wf: "gate_op_of g qs ps = Inr op \<Longrightarrow> wf_op op"
  by (auto simp: gate_op_of_def mk_GateOp_iff split: sum.splits)

lemma table_gate_wf: "table_gate tbl name ps qs = Some (Inr op) \<Longrightarrow> wf_op op"
  by (auto simp: table_gate_def gate_op_of_wf split: if_splits)

lemma openqasm_gate_wf: "openqasm_gate_to_ir Q name ps qs t = Inr op \<Longrightarrow> wf_op op \<and> t \<in> {''cz'', ''cnot''}"
  by (auto simp: openqasm_gate_to_ir_def openqasm_gate_to_ir_cz_def openqasm_gate_to_ir_cnot_def table_gate_wf gate_op_of_wf
      split: if_splits option.splits list.splits)

lemma read_lines_wf:
  "read_lines Q t st ls = Inr st' \<Longrightarrow> \<forall>op \<in> set (qs_gates st). wf_op op \<Longrightarrow> \<forall>op \<in> set (qs_gates st'). wf_op op"
proof (induction ls arbitrary: st)
  case (Cons l ls)
  then obtain st1 where l: "read_line Q t st l = Inr st1" and ls: "read_lines Q t st1 ls = Inr st'" by (auto simp: sbind_eq_Inr)
  have "\<forall>op \<in> set (qs_gates st1). wf_op op"
    using l Cons.prems(2) openqasm_gate_wf
    by (auto simp: read_line_def Let_def sbind_eq_Inr gate_line_def split: if_splits option.splits)
  then show ?case using Cons.IH ls by blast
qed simp

text \<open>Whatever text is accepted, the circuit is well formed (with the metadata it was given) and for the requested target.\<close>

lemma openqasm_to_ir_sound:
  assumes "openqasm_to_ir Q txt t (Some md) = Inr ir" and "0 \<le> optimization_level md" "optimization_level md \<le> 3"
  shows "wf_ir ir \<and> ir_target ir = t \<and> ir_metadata ir = md"
proof -
  let ?st0 = "\<lparr>qs_num_qubits = None, qs_gates = [], qs_measurements = []\<rparr>"
  obtain st where st: "read_lines Q t ?st0 (splitlines (strip txt)) = Inr st"
    using assms(1) by (cases "read_lines Q t ?st0 (splitlines (strip txt))") (simp_all add: openqasm_to_ir_def)
  obtain n where n: "qs_num_qubits st = Some n"
    using assms(1) st by (cases "qs_num_qubits st") (simp_all add: openqasm_to_ir_def)
  have mk: "mk_NativeGateIR ''1.0'' t n (qs_gates st) (qs_measurements st) md = Inr ir"
    using assms(1) st n
    by (cases "mk_NativeGateIR ''1.0'' t n (qs_gates st) (qs_measurements st) md") (simp_all add: openqasm_to_ir_def)
  have "\<forall>op \<in> set (qs_gates st). wf_op op" using read_lines_wf [OF st] by simp
  then show ?thesis using mk assms(2,3) by (auto simp: mk_NativeGateIR_iff wf_ir_def)
qed

section \<open>The whole text\<close>

lemma read_lines_append:
  "read_lines Q t st (a @ b) = sbind (read_lines Q t st a) (\<lambda>st'. read_lines Q t st' b)"
  by (induction a arbitrary: st) (auto simp: sbind_def split: sum.split)

lemma read_carried:
  "list_all2 (carries Q t) ops ls \<Longrightarrow> read_lines Q t st ls = Inr (st\<lparr>qs_gates := qs_gates st @ ops\<rparr>)"
proof (induction ops arbitrary: ls st)
  case (Cons op ops)
  then obtain l ls' where ls: "ls = l # ls'" "carries Q t op l" "list_all2 (carries Q t) ops ls'" by (auto simp: list_all2_Cons1)
  have l: "read_line Q t st l = Inr (add_gate st op)" using ls(2) unfolding carries_def by blast
  show ?case unfolding ls(1) read_lines.simps l sbind_Inr Cons.IH [OF ls(3)] by (simp add: add_gate_def)
qed simp

lemma read_measure:
  assumes "n < 100"
  shows "read_line Q t st (measure_line i (int n)) = Inr (st\<lparr>qs_measurements := qs_measurements st @ [int n]\<rparr>)"
proof -
  let ?l = "''c['' @ show_nat i @ ''] = measure q['' @ show_nat n @ ''];''"
  have l: "measure_line i (int n) = ?l" by (simp add: measure_line_def show_int_def)
  have "plain_start ?l" by (auto simp: plain_start_def startswith_iff)
  note no = plain_start_no_match [OF this]
  have "strip ?l = ?l" by (rule strip_id) (simp add: marks)
  then show ?thesis using no measure_match [of i n] int_of_show [OF assms] unfolding l
    by (simp add: read_line_def group_text_def startswith_iff)
qed

lemma read_measures:
  "\<forall>n \<in> set ns. n < 100 \<Longrightarrow>
   read_lines Q t st (measure_lines i (map int ns)) = Inr (st\<lparr>qs_measurements := qs_measurements st @ map int ns\<rparr>)"
proof (induction ns arbitrary: i st)
  case (Cons n ns)
  have "n < 100" "\<forall>n \<in> set ns. n < 100" using Cons.prems by auto
  then show ?case by (simp add: read_measure Cons.IH)
qed simp

lemma read_qubits:
  assumes "n < 100" "qs_num_qubits st = None"
  shows "read_line Q t st (''qubit['' @ show_nat n @ ''] q;'') = Inr (st\<lparr>qs_num_qubits := Some (int n)\<rparr>)"
proof -
  let ?l = "''qubit['' @ show_nat n @ ''] q;''"
  have no: "re_match HEADER_RE ?l = None" "re_match INCLUDE_RE ?l = None" "re_match BIT_DECL_RE ?l = None"
    by (simp_all add: re_match_def HEADER_RE_def INCLUDE_RE_def BIT_DECL_RE_def startswith_iff)
  have "strip ?l = ?l" by (rule strip_id) (simp add: marks)
  then show ?thesis using no qubit_decl [of n] int_of_show [OF assms(1)] assms(2)
    by (simp add: read_line_def group_text_def startswith_iff)
qed

lemma read_bits: "read_line Q t st (''bit['' @ show_nat k @ ''] c;'') = Inr st"
proof -
  let ?l = "''bit['' @ show_nat k @ ''] c;''"
  have "strip ?l = ?l" by (rule strip_id) (simp add: isspace_def)
  then show ?thesis using bit_decl [of k] by (simp add: read_line_def Let_def)
qed

lemma read_fixed:
  "read_line Q t st ''OPENQASM 3.0;'' = Inr st"
  "read_line Q t st (''include '' @ [CHR 0x22] @ ''stdgates.inc'' @ [CHR 0x22] @ '';'') = Inr st"
proof -
  let ?i = "''include '' @ [CHR 0x22] @ ''stdgates.inc'' @ [CHR 0x22] @ '';''"
  have "strip ''OPENQASM 3.0;'' = ''OPENQASM 3.0;''" "strip ?i = ?i" by code_simp+
  moreover have "re_match HEADER_RE ''OPENQASM 3.0;'' \<noteq> None" "re_match INCLUDE_RE ?i \<noteq> None" by code_simp+
  ultimately show "read_line Q t st ''OPENQASM 3.0;'' = Inr st" "read_line Q t st ?i = Inr st"
    by (simp_all add: read_line_def Let_def)
qed

lemma read_head:
  assumes "ir_num_qubits ir = int n" "n < 100" "qs_num_qubits st = None"
  shows "read_lines Q t st (head_lines ir) = Inr (st\<lparr>qs_num_qubits := Some (int n)\<rparr>)"
proof -
  have n: "show_int (ir_num_qubits ir) = show_nat n" using assms(1) by (simp add: show_int_def)
  show ?thesis unfolding head_lines_def n read_lines_append
    using read_fixed read_qubits [OF assms(2,3), of Q t] read_bits by simp
qed

text \<open>The text of a list of lines splits into these lines again.\<close>

lemma join_ends:
  assumes "ls \<noteq> []" "hd ls \<noteq> []" "ends (last ls)"
  shows "\<exists>c r. join nl ls = c # r @ '';'' \<and> c = hd (hd ls) \<or> join nl ls = '';'' \<and> hd (hd ls) = CHR '';''"
  using assms
proof (induction nl ls rule: join.induct)
  case (2 sep x)
  then show ?case by (cases x) (auto simp: ends_def Cons_eq_append_conv)
next
  case (3 sep x y ys)
  have "ends (join sep (y # ys))" if "ends (last (y # ys))" for ys y
    using that by (induction ys arbitrary: y) simp_all
  then have "ends (join sep (y # ys))" using 3(4) by simp
  then obtain r where "join sep (y # ys) = r @ '';''" unfolding ends_def by blast
  then show ?case using 3(3) by (cases x) auto
qed simp

lemma splitlines_text:
  assumes "\<forall>l \<in> set ls. one_line l" "ls \<noteq> []" "hd ls \<noteq> []" "\<not> isspace (hd (hd ls))" "ends (last ls)"
  shows "splitlines (strip (join [CHR 0x0A] ls @ [CHR 0x0A])) = ls"
proof -
  let ?q = "join [CHR 0x0A] ls"
  have q: "?q \<noteq> []" "\<not> isspace (hd ?q)" "last ?q = CHR '';''"
    using join_ends [OF assms(2,3,5), of "[CHR 0x0A]"] assms(4) by auto
  have "lstrip (?q @ [CHR 0x0A]) = ?q @ [CHR 0x0A]" using q by (intro lstrip_id) simp
  moreover have "rstrip (?q @ [CHR 0x0A]) = rstrip ?q" by (simp add: rstrip_def isspace_def)
  moreover have "rstrip ?q = ?q" using q by (intro rstrip_id) (simp add: marks)
  ultimately have "strip (?q @ [CHR 0x0A]) = ?q" by (simp add: strip_def)
  moreover have "splitlines (?q @ [CHR 0x0A]) = splitlines ?q"
    using splitlines_append_nl [of ?q "[]"] q by (simp add: islinebreak_def)
  moreover have "splitlines (?q @ [CHR 0x0A]) = ls"
    using splitlines_join_lines [of ls] assms(1,2) by (simp add: one_line_def)
  ultimately show ?thesis by simp
qed

section \<open>The whole circuit\<close>

lemma gate_carried:
  assumes ir: "consistent_ir ir" "op \<in> set (ir_gates ir)" "wf_op op" and "expressible (ir_target ir) op" "printable op"
  shows "\<exists>l. ir_gate_to_openqasm op (ir_target ir) = Inr l \<and> carries Q (ir_target ir) (drop_duration op) l"
proof -
  have legal: "op_gate op \<in> legal_for (ir_target ir)" and range: "\<forall>q \<in> set (op_qubits op). 0 \<le> q \<and> q < 50"
    using ir(1,2) unfolding consistent_ir_def by fastforce+
  let ?ns = "map nat (op_qubits op)"
  have "map int ?ns = map (\<lambda>q. q) (op_qubits op)" unfolding map_map by (rule map_cong) (use range in auto)
  then have ns: "op_qubits op = map int ?ns" by simp
  have ne: "?ns \<noteq> []" using ir(3) by (auto simp: wf_op_def gate_arity_def split: if_splits)
  have lt: "\<forall>n \<in> set ?ns. n < 100" using range by auto
  consider "ir_target ir = ''cz''" | "ir_target ir = ''cnot''" "op_gate op \<notin> {RX, RY, RZ}"
    using assms(4) unfolding expressible_def by blast
  then show ?thesis
  proof cases
    case 1
    then show ?thesis using gate_carried_cz [OF ir(3) _ assms(5) ns ne lt] legal by (simp add: legal_for.simps)
  next
    case 2
    then have "op_gate op \<in> {X90, Y_MINUS_90, VIRTUAL_Z, CNOT, ID}" using legal by (simp add: legal_for.simps)
    then show ?thesis using gate_carried_cnot [OF ir(3) _ assms(5) ns ne lt] 2(1) by simp
  qed
qed

lemma gates_carried:
  assumes "\<forall>op \<in> set ops. \<exists>l. f op = Inr l \<and> carries Q t (drop_duration op) l"
  shows "\<exists>ls. smap f ops = Inr ls \<and> list_all2 (carries Q t) (map drop_duration ops) ls"
  using assms
proof (induction ops)
  case (Cons op ops)
  then obtain l ls where "f op = Inr l" "carries Q t (drop_duration op) l"
    "smap f ops = Inr ls" "list_all2 (carries Q t) (map drop_duration ops) ls" by auto
  then show ?case by simp
qed simp

lemma carried_lines: "list_all2 (carries Q t) ops ls \<Longrightarrow> l \<in> set ls \<Longrightarrow> one_line l \<and> ends l"
  by (auto simp: list_all2_conv_all_nth in_set_conv_nth carries_def)

lemma measure_lines_shape: "l \<in> set (measure_lines i (map int ns)) \<Longrightarrow> one_line l \<and> ends l"
proof (induction ns arbitrary: i)
  case (Cons n ns)
  then show ?case
    by (auto simp: measure_line_def show_int_def one_line_parts ends_def islinebreak_def)
qed simp

lemma head_lines_shape: "ir_num_qubits ir = int n \<Longrightarrow> l \<in> set (head_lines ir) \<Longrightarrow> one_line l \<and> ends l"
  by (auto simp: head_lines_def show_int_def one_line_parts ends_def islinebreak_def split: if_splits)

lemma legal_drop_duration: "op_gate (drop_duration op) = op_gate op" "op_qubits (drop_duration op) = op_qubits op"
  by (simp_all add: drop_duration_def)

lemma consistent_drop_duration: "consistent_ir ir \<Longrightarrow> consistent_ir (ir\<lparr>ir_gates := map drop_duration (ir_gates ir)\<rparr>)"
  by (auto simp: consistent_ir_def legal_drop_duration)

lemma read_printed:
  assumes "consistent_ir ir" "list_all2 (carries Q (ir_target ir)) ops ls"
  shows "read_lines Q (ir_target ir) \<lparr>qs_num_qubits = None, qs_gates = [], qs_measurements = []\<rparr>
       (splitlines (strip (join [CHR 0x0A] (head_lines ir @ ls @ measure_lines 0 (ir_measurements ir)) @ [CHR 0x0A]))) =
     Inr \<lparr>qs_num_qubits = Some (ir_num_qubits ir), qs_gates = ops, qs_measurements = ir_measurements ir\<rparr>"
proof -
  have "1 \<le> ir_num_qubits ir" "ir_num_qubits ir \<le> 50" using assms(1) by (auto simp: consistent_ir_def)
  then obtain n where n: "ir_num_qubits ir = int n" "n < 100"
    by (intro that [of "nat (ir_num_qubits ir)"]) auto
  have range: "\<forall>q \<in> set (ir_measurements ir). 0 \<le> q \<and> q < 50"
    using assms(1) \<open>ir_num_qubits ir \<le> 50\<close> unfolding consistent_ir_def by fastforce
  let ?ms = "map nat (ir_measurements ir)"
  have "map int ?ms = map (\<lambda>q. q) (ir_measurements ir)" unfolding map_map by (rule map_cong) (use range in auto)
  then have ms: "ir_measurements ir = map int ?ms" by simp
  have lt: "\<forall>n \<in> set ?ms. n < 100" using range by auto
  let ?ls = "head_lines ir @ ls @ measure_lines 0 (ir_measurements ir)"
  have shape: "one_line l \<and> ends l" if "l \<in> set ?ls" for l
    using that head_lines_shape [OF n(1)] carried_lines [OF assms(2)] measure_lines_shape [of l 0 ?ms] ms by auto
  have hd: "?ls \<noteq> []" "hd ?ls = ''OPENQASM 3.0;''" by (simp_all add: head_lines_def)
  have "splitlines (strip (join [CHR 0x0A] ?ls @ [CHR 0x0A])) = ?ls"
    by (rule splitlines_text) (use shape hd last_in_set [OF hd(1)] in \<open>simp_all add: isspace_def\<close>)
  moreover have "read_lines Q (ir_target ir) \<lparr>qs_num_qubits = None, qs_gates = [], qs_measurements = []\<rparr> ?ls =
      Inr \<lparr>qs_num_qubits = Some (ir_num_qubits ir), qs_gates = ops, qs_measurements = ir_measurements ir\<rparr>"
    using read_head [OF n, of "\<lparr>qs_num_qubits = None, qs_gates = [], qs_measurements = []\<rparr>" Q "ir_target ir"]
      read_measures [OF lt] ms n(1) by (simp add: read_lines_append read_carried [OF assms(2)])
  ultimately show ?thesis by simp
qed

text \<open>
  C23. The two directions of the OpenQASM converter fit together: the text that \<^verbatim>\<open>ir_to_openqasm\<close> prints for a
  well-formed circuit is accepted by \<^verbatim>\<open>openqasm_to_ir\<close> and gives the same circuit back, except that the duration of an
  \<^verbatim>\<open>id\<close> gate, which OpenQASM does not carry, comes back as zero.  The hypotheses are that every gate has a mapping for
  the target and that every parameter is determined by the fifteen digits that are printed of it.
\<close>

theorem qasm_roundtrip:
  assumes "wf_ir ir" and "\<forall>op \<in> set (ir_gates ir). expressible (ir_target ir) op \<and> printable op"
  shows "\<exists>txt. ir_to_openqasm ir = Inr txt
     \<and> openqasm_to_ir Q txt (ir_target ir) (Some (ir_metadata ir)) = Inr (ir\<lparr>ir_gates := map drop_duration (ir_gates ir)\<rparr>)"
proof -
  have c: "consistent_ir ir" using assms(1) by (simp add: wf_ir_def)
  have "\<forall>op \<in> set (ir_gates ir). \<exists>l. ir_gate_to_openqasm op (ir_target ir) = Inr l \<and> carries Q (ir_target ir) (drop_duration op) l"
    using assms gate_carried [OF c] by (simp add: wf_ir_def)
  from gates_carried [OF this] obtain ls where ls: "smap (\<lambda>op. ir_gate_to_openqasm op (ir_target ir)) (ir_gates ir) = Inr ls"
    "list_all2 (carries Q (ir_target ir)) (map drop_duration (ir_gates ir)) ls" by blast
  let ?ir = "ir\<lparr>ir_gates := map drop_duration (ir_gates ir)\<rparr>"
  have "ir_version ir = ''1.0''" using c by (simp add: consistent_ir_def)
  then have "mk_NativeGateIR ''1.0'' (ir_target ir) (ir_num_qubits ir) (map drop_duration (ir_gates ir)) (ir_measurements ir)
      (ir_metadata ir) = Inr ?ir"
    unfolding mk_NativeGateIR_iff using consistent_drop_duration [OF c] by simp
  then show ?thesis
    by (simp add: ir_to_openqasm_def ls(1) openqasm_to_ir_def read_printed [OF c ls(2)])
qed

definition sample_circuit :: native_gate_ir where
  "sample_circuit = \<lparr>ir_version = ''1.0'', ir_target = ''cnot'', ir_num_qubits = 3,
     ir_gates = [\<lparr>op_gate = X90, op_qubits = [0], op_params = []\<rparr>,
       \<lparr>op_gate = VIRTUAL_Z, op_qubits = [1], op_params = [Finite (1 / 2)]\<rparr>,
       \<lparr>op_gate = Y_MINUS_90, op_qubits = [1], op_params = []\<rparr>,
       \<lparr>op_gate = CNOT, op_qubits = [0, 2], op_params = []\<rparr>],
     ir_measurements = [0, 2],
     ir_metadata = \<lparr>source_hash = ''h'', compiled_at = ''t'', compiler_version = ''0.1.0'', optimization_level = 1\<rparr>\<rparr>"

theorem qasm_roundtrip_witness:
  "\<exists>txt. ir_to_openqasm sample_circuit = Inr txt \<and>
     openqasm_to_ir \<lparr>q_repr = id, q_show_float = (\<lambda>_. []), q_show_errors = (\<lambda>_. []), q_now = []\<rparr>
       txt ''cnot'' (Some (ir_metadata sample_circuit)) = Inr sample_circuit"
proof -
  have "wf_ir sample_circuit" by code_simp
  moreover have "\<forall>op \<in> set (ir_gates sample_circuit). expressible (ir_target sample_circuit) op \<and> printable op" by code_simp
  moreover have "ir_target sample_circuit = ''cnot''" by code_simp
  moreover have "sample_circuit\<lparr>ir_gates := map drop_duration (ir_gates sample_circuit)\<rparr> = sample_circuit" by code_simp
  ultimately show ?thesis
    using qasm_roundtrip [of sample_circuit "\<lparr>q_repr = id, q_show_float = (\<lambda>_. []), q_show_errors = (\<lambda>_. []), q_now = []\<rparr>"]
    by simp
qed

end
